(* ===== verification/Prelude.thy ===== *)
theory Prelude
  imports Complex_Main "HOL-Library.Char_ord"
begin

text \<open>
  Shared vocabulary of the development: results and procedures (a procedure threads a state and
  either returns or raises; a raised exception keeps the state reached so far, as Python does),
  a weakest-precondition reading of procedures, tables as row lists with the SQL operations the
  stores use, text as lists of code points, and Python's dynamically typed numbers as the
  constructors of the program inspect them.
\<close>

named_theorems wp_rules \<open>weakest-precondition equations of the procedure combinators\<close>
named_theorems row_simps \<open>what an SQL update keeps of a row\<close>
named_theorems preserves_intro \<open>invariant preservation of the procedure combinators\<close>
named_theorems str_simps \<open>equations that evaluate text and identifier tests\<close>

section \<open>Results: a value or an exception\<close>

fun bindR :: "'e + 'a \<Rightarrow> ('a \<Rightarrow> 'e + 'b) \<Rightarrow> 'e + 'b" where
  "bindR (Inl e) f = Inl e"
| "bindR (Inr x) f = f x"

definition requireR :: "bool \<Rightarrow> 'e \<Rightarrow> 'e + unit" where
  "requireR b e = (if b then Inr () else Inl e)"

lemma bindR_Inr_iff [simp]: "bindR m f = Inr y \<longleftrightarrow> (\<exists>x. m = Inr x \<and> f x = Inr y)"
  by (cases m) auto

lemma bindR_Inl_iff: "bindR m f = Inl e \<longleftrightarrow> m = Inl e \<or> (\<exists>x. m = Inr x \<and> f x = Inl e)"
  by (cases m) auto

lemma requireR_Inr_iff [simp]: "requireR b e = Inr u \<longleftrightarrow> b"
  by (simp add: requireR_def)

lemma requireR_Inl_iff [simp]: "requireR b e = Inl e' \<longleftrightarrow> \<not> b \<and> e' = e"
  by (auto simp: requireR_def)

lemma requireR_simps [simp]: "requireR True e = Inr ()" "requireR False e = Inl e"
  by (simp_all add: requireR_def)

text \<open>A sequence of fallible constructions, stopping at the first exception.\<close>

fun mapR :: "('a \<Rightarrow> 'e + 'b) \<Rightarrow> 'a list \<Rightarrow> 'e + 'b list" where
  "mapR f [] = Inr []"
| "mapR f (x # xs) = bindR (f x) (\<lambda>y. bindR (mapR f xs) (\<lambda>ys. Inr (y # ys)))"

lemma mapR_Inr: "(\<And>x. x \<in> set xs \<Longrightarrow> f x = Inr (g x)) \<Longrightarrow> mapR f xs = Inr (map g xs)"
  by (induction xs) auto

lemma mapR_Inr_iff: "mapR f xs = Inr ys \<longleftrightarrow> list_all2 (\<lambda>x y. f x = Inr y) xs ys"
  by (induction xs arbitrary: ys) (auto simp: list_all2_Cons1)

lemma mapR_Inr_memD: "mapR f xs = Inr ys \<Longrightarrow> y \<in> set ys \<Longrightarrow> \<exists>x \<in> set xs. f x = Inr y"
  by (induction xs arbitrary: ys) auto

lemma mapR_Inl_ex: "mapR f xs = Inl e \<Longrightarrow> \<exists>x \<in> set xs. f x = Inl e"
  by (induction xs) (auto simp: bindR_Inl_iff)

definition is_ok :: "'e + 'a \<Rightarrow> bool" where
  "is_ok r \<longleftrightarrow> (case r of Inl _ \<Rightarrow> False | Inr _ \<Rightarrow> True)"

lemma is_ok_simps [simp]: "is_ok (Inr x)" "\<not> is_ok (Inl e)"
  by (simp_all add: is_ok_def)

lemma is_ok_iff: "is_ok r \<longleftrightarrow> (\<exists>x. r = Inr x)"
  by (cases r) auto

section \<open>Procedures: state, result, exception\<close>

type_synonym ('s, 'e, 'a) proc = "'s \<Rightarrow> ('e + 'a) \<times> 's"

definition returnP :: "'a \<Rightarrow> ('s, 'e, 'a) proc" where
  "returnP x s = (Inr x, s)"

definition raiseP :: "'e \<Rightarrow> ('s, 'e, 'a) proc" where
  "raiseP e s = (Inl e, s)"

definition bindP :: "('s, 'e, 'a) proc \<Rightarrow> ('a \<Rightarrow> ('s, 'e, 'b) proc) \<Rightarrow> ('s, 'e, 'b) proc" where
  "bindP m f s = (case m s of (Inl e, s') \<Rightarrow> (Inl e, s') | (Inr x, s') \<Rightarrow> f x s')"

definition thenP :: "('s, 'e, 'a) proc \<Rightarrow> ('s, 'e, 'b) proc \<Rightarrow> ('s, 'e, 'b) proc" where
  "thenP m k = bindP m (\<lambda>_. k)"

definition getP :: "('s \<Rightarrow> 'a) \<Rightarrow> ('s, 'e, 'a) proc" where
  "getP f s = (Inr (f s), s)"

definition modifyP :: "('s \<Rightarrow> 's) \<Rightarrow> ('s, 'e, unit) proc" where
  "modifyP f s = (Inr (), f s)"

definition liftR :: "'e + 'a \<Rightarrow> ('s, 'e, 'a) proc" where
  "liftR r s = (r, s)"

definition requireP :: "bool \<Rightarrow> 'e \<Rightarrow> ('s, 'e, unit) proc" where
  "requireP b e = (if b then returnP () else raiseP e)"

text \<open>\<open>tryP m h\<close> is \<open>try: m except Exception as error: h(error)\<close>.\<close>

definition tryP :: "('s, 'e, 'a) proc \<Rightarrow> ('e \<Rightarrow> ('s, 'e, 'a) proc) \<Rightarrow> ('s, 'e, 'a) proc" where
  "tryP m h s = (case m s of (Inl e, s') \<Rightarrow> h e s' | (Inr x, s') \<Rightarrow> (Inr x, s'))"

text \<open>\<open>finallyP m f\<close> is \<open>try: m finally: f\<close> for a clean-up that only changes the state.\<close>

definition finallyP :: "('s, 'e, 'a) proc \<Rightarrow> ('s \<Rightarrow> 's) \<Rightarrow> ('s, 'e, 'a) proc" where
  "finallyP m f s = (case m s of (r, s') \<Rightarrow> (r, f s'))"

text \<open>The laws of sequencing.\<close>

lemma bindP_assoc: "bindP (bindP m f) g = bindP m (\<lambda>x. bindP (f x) g)"
  by (rule ext) (simp add: bindP_def split: prod.split sum.split)

lemma bindP_returnP: "bindP (returnP x) f = f x"
  by (rule ext) (simp add: bindP_def returnP_def)

lemma bindP_cong: "(\<And>x s'. m s = (Inr x, s') \<Longrightarrow> f x s' = g x s') \<Longrightarrow> bindP m f s = bindP m g s"
  by (simp add: bindP_def split: prod.split sum.split)

text \<open>
  A database transaction: an operation on the stored data that either returns with the new data or
  raises, and then everything it wrote is rolled back.
\<close>

type_synonym ('s, 'e, 'a) tx = "'s \<Rightarrow> 'e + 'a \<times> 's"

definition runTx :: "('s, 'e, 'a) tx \<Rightarrow> ('s, 'e, 'a) proc" where
  "runTx f s = (case f s of Inl e \<Rightarrow> (Inl e, s) | Inr (x, s') \<Rightarrow> (Inr x, s'))"

subsection \<open>Weakest preconditions\<close>

text \<open>
  \<open>wp m Q E s\<close>: run from \<open>s\<close>, the procedure returns in a state that satisfies \<open>Q\<close> of its
  value, or raises in a state that satisfies \<open>E\<close> of its exception. Procedures are total
  functions, so this is total correctness.
\<close>

definition wp :: "('s, 'e, 'a) proc \<Rightarrow> ('a \<Rightarrow> 's \<Rightarrow> bool) \<Rightarrow> ('e \<Rightarrow> 's \<Rightarrow> bool) \<Rightarrow> 's \<Rightarrow> bool" where
  "wp m Q E s \<longleftrightarrow> (case m s of (Inl e, s') \<Rightarrow> E e s' | (Inr x, s') \<Rightarrow> Q x s')"

lemma wp_returnP [wp_rules]: "wp (returnP x) Q E s = Q x s"
  by (simp add: wp_def returnP_def)

lemma wp_raiseP [wp_rules]: "wp (raiseP e) Q E s = E e s"
  by (simp add: wp_def raiseP_def)

lemma wp_bindP [wp_rules]: "wp (bindP m f) Q E s = wp m (\<lambda>x. wp (f x) Q E) E s"
  by (simp add: wp_def bindP_def split: prod.split sum.split)

lemma wp_thenP [wp_rules]: "wp (thenP m k) Q E s = wp m (\<lambda>_. wp k Q E) E s"
  by (simp add: thenP_def wp_bindP)

lemma wp_getP [wp_rules]: "wp (getP f) Q E s = Q (f s) s"
  by (simp add: wp_def getP_def)

lemma wp_modifyP [wp_rules]: "wp (modifyP f) Q E s = Q () (f s)"
  by (simp add: wp_def modifyP_def)

lemma wp_liftR [wp_rules]: "wp (liftR r) Q E s = (case r of Inl e \<Rightarrow> E e s | Inr x \<Rightarrow> Q x s)"
  by (simp add: wp_def liftR_def split: sum.split)

lemma wp_requireP [wp_rules]: "wp (requireP b e) Q E s = (if b then Q () s else E e s)"
  by (simp add: requireP_def wp_rules)

lemma wp_tryP [wp_rules]: "wp (tryP m h) Q E s = wp m Q (\<lambda>e. wp (h e) Q E) s"
  by (simp add: wp_def tryP_def split: prod.split sum.split)

lemma wp_finallyP [wp_rules]:
  "wp (finallyP m f) Q E s = wp m (\<lambda>x s'. Q x (f s')) (\<lambda>e s'. E e (f s')) s"
  by (simp add: wp_def finallyP_def split: prod.split sum.split)

lemma wp_runTx [wp_rules]:
  "wp (runTx f) Q E s = (case f s of Inl e \<Rightarrow> E e s | Inr (x, s') \<Rightarrow> Q x s')"
  by (simp add: wp_def runTx_def split: sum.split prod.split)

lemma wp_if [wp_rules]: "wp (if b then m else k) Q E s = (if b then wp m Q E s else wp k Q E s)"
  by simp

lemma wp_case_option [wp_rules]:
  "wp (case v of None \<Rightarrow> m | Some x \<Rightarrow> f x) Q E s =
     (case v of None \<Rightarrow> wp m Q E s | Some x \<Rightarrow> wp (f x) Q E s)"
  by (simp split: option.split)

lemma wp_mono:
  assumes "wp m Q E s" and "\<And>x s'. Q x s' \<Longrightarrow> Q' x s'" and "\<And>e s'. E e s' \<Longrightarrow> E' e s'"
  shows "wp m Q' E' s"
  using assms by (auto simp: wp_def split: prod.splits sum.splits)

lemma wp_conj:
  assumes "wp m Q E s" and "wp m Q' E' s"
  shows "wp m (\<lambda>x s'. Q x s' \<and> Q' x s') (\<lambda>e s'. E e s' \<and> E' e s') s"
  using assms by (auto simp: wp_def split: prod.splits sum.splits)

lemma wp_returns: "wp m Q E s \<Longrightarrow> m s = (Inr x, s') \<Longrightarrow> Q x s'"
  by (simp add: wp_def)

lemma wp_raises: "wp m Q E s \<Longrightarrow> m s = (Inl e, s') \<Longrightarrow> E e s'"
  by (simp add: wp_def)

text \<open>A procedure that keeps an invariant, whether it returns or raises.\<close>

definition preserves :: "('s \<Rightarrow> bool) \<Rightarrow> ('s, 'e, 'a) proc \<Rightarrow> bool" where
  "preserves I m \<longleftrightarrow> (\<forall>s. I s \<longrightarrow> wp m (\<lambda>_. I) (\<lambda>_. I) s)"

lemma preservesI: "(\<And>s. I s \<Longrightarrow> wp m (\<lambda>_. I) (\<lambda>_. I) s) \<Longrightarrow> preserves I m"
  by (simp add: preserves_def)

lemma preservesD: "preserves I m \<Longrightarrow> I s \<Longrightarrow> wp m (\<lambda>_. I) (\<lambda>_. I) s"
  by (simp add: preserves_def)

lemma preserves_result: "preserves I m \<Longrightarrow> I s \<Longrightarrow> m s = (r, s') \<Longrightarrow> I s'"
  by (auto simp: preserves_def wp_def split: sum.splits)

lemma preserves_basic [preserves_intro]:
  "preserves I (returnP x)" "preserves I (raiseP e)" "preserves I (getP f)" "preserves I (liftR r)"
  "preserves I (requireP b e)"
  by (auto simp: preserves_def wp_rules split: sum.split)

lemma preserves_bindP [preserves_intro]:
  "preserves I m \<Longrightarrow> (\<And>x. preserves I (f x)) \<Longrightarrow> preserves I (bindP m f)"
  by (auto simp: preserves_def wp_rules elim!: wp_mono)

lemma preserves_thenP [preserves_intro]:
  "preserves I m \<Longrightarrow> preserves I k \<Longrightarrow> preserves I (thenP m k)"
  by (auto simp: preserves_def wp_rules elim!: wp_mono)

lemma preserves_tryP [preserves_intro]:
  "preserves I m \<Longrightarrow> (\<And>e. preserves I (h e)) \<Longrightarrow> preserves I (tryP m h)"
  by (auto simp: preserves_def wp_rules elim!: wp_mono)

lemma preserves_finallyP [preserves_intro]:
  "preserves I m \<Longrightarrow> (\<And>s. I s \<Longrightarrow> I (f s)) \<Longrightarrow> preserves I (finallyP m f)"
  by (auto simp: preserves_def wp_rules elim!: wp_mono)

lemma preserves_modifyP [preserves_intro]:
  "(\<And>s. I s \<Longrightarrow> I (f s)) \<Longrightarrow> preserves I (modifyP f)"
  by (auto simp: preserves_def wp_rules)

lemma preserves_if [preserves_intro]:
  "(b \<Longrightarrow> preserves I m) \<Longrightarrow> (\<not> b \<Longrightarrow> preserves I k) \<Longrightarrow> preserves I (if b then m else k)"
  by simp

section \<open>Tables\<close>

text \<open>
  A table is the list of its rows. \<open>select1\<close> is \<open>SELECT \<dots> WHERE p\<close> with \<open>fetchone\<close>;
  \<open>update_where\<close> is \<open>UPDATE \<dots> SET f WHERE p\<close>.
\<close>

fun select1 :: "('a \<Rightarrow> bool) \<Rightarrow> 'a list \<Rightarrow> 'a option" where
  "select1 p [] = None"
| "select1 p (x # xs) = (if p x then Some x else select1 p xs)"

definition update_where :: "('a \<Rightarrow> bool) \<Rightarrow> ('a \<Rightarrow> 'a) \<Rightarrow> 'a list \<Rightarrow> 'a list" where
  "update_where p f xs = map (\<lambda>x. if p x then f x else x) xs"

lemma select1_SomeD: "select1 p xs = Some x \<Longrightarrow> x \<in> set xs \<and> p x"
  by (induction xs) (auto split: if_splits)

lemma select1_None_iff: "select1 p xs = None \<longleftrightarrow> (\<forall>x \<in> set xs. \<not> p x)"
  by (induction xs) auto

lemma select1_append:
  "select1 p (xs @ ys) = (case select1 p xs of None \<Rightarrow> select1 p ys | Some x \<Rightarrow> Some x)"
  by (induction xs) auto

lemma select1_map:
  "(\<And>x. p (g x) = p x) \<Longrightarrow> select1 p (map g xs) = map_option g (select1 p xs)"
  by (induction xs) auto

lemma select1_update_where:
  assumes "\<And>x. p (f x) = p x"
  shows "select1 p (update_where q f xs) = map_option (\<lambda>x. if q x then f x else x) (select1 p xs)"
  unfolding update_where_def by (rule select1_map) (simp add: assms)

lemma select1_unique:
  assumes "distinct (map k xs)" and "x \<in> set xs" and "p x" and "\<And>y. p y \<Longrightarrow> k y = k x"
  shows "select1 p xs = Some x"
  using assms
proof (induction xs)
  case (Cons y ys)
  show ?case
  proof (cases "p y")
    case True
    with Cons.prems have "k y = k x" by blast
    moreover have "y \<noteq> x \<Longrightarrow> x \<in> set ys" using Cons.prems(2) by auto
    ultimately have "y = x" using Cons.prems(1) by (metis distinct.simps(2) image_eqI list.map(2) set_map)
    with True show ?thesis by simp
  next
    case False
    with Cons.prems(3) have "y \<noteq> x" by blast
    with Cons.prems(1,2) have "distinct (map k ys)" and "x \<in> set ys" by auto
    then have "select1 p ys = Some x" using Cons.IH Cons.prems(3,4) by blast
    with False show ?thesis by simp
  qed
qed simp

lemma map_update_where:
  assumes "\<And>x. k (f x) = k x"
  shows "map k (update_where p f xs) = map k xs"
  by (induction xs) (auto simp: update_where_def assms)

lemma set_update_where:
  "y \<in> set (update_where p f xs) \<Longrightarrow> (\<exists>x \<in> set xs. p x \<and> y = f x) \<or> (y \<in> set xs \<and> \<not> p y)"
  by (auto simp: update_where_def split: if_splits)

lemma in_update_where:
  "x \<in> set xs \<Longrightarrow> (if p x then f x else x) \<in> set (update_where p f xs)"
  unfolding update_where_def by (simp only: set_map) (rule imageI)

lemma length_update_where [simp]: "length (update_where p f xs) = length xs"
  by (simp add: update_where_def)

lemma update_where_id: "(\<And>x. x \<in> set xs \<Longrightarrow> \<not> p x) \<Longrightarrow> update_where p f xs = xs"
  by (induction xs) (auto simp: update_where_def)

lemma filter_update_where_other:
  assumes "\<And>x. q x \<Longrightarrow> \<not> p x" and "\<And>x. p x \<Longrightarrow> \<not> q (f x)"
  shows "filter q (update_where p f xs) = filter q xs"
  using assms by (induction xs) (auto simp: update_where_def)

section \<open>Text\<close>

text \<open>
  Python text counts code points, so text is a list of code points. Identifiers and the literal
  names of the program are ASCII and stay HOL strings; \<open>ucs\<close> embeds them.
\<close>

type_synonym ustr = "nat list"

definition ucs :: "string \<Rightarrow> ustr" where
  "ucs s = map of_char s"

lemma length_ucs [simp]: "length (ucs s) = length s"
  by (simp add: ucs_def)

lemma ucs_append [simp]: "ucs (a @ b) = ucs a @ ucs b"
  by (simp add: ucs_def)

lemma ucs_eq_iff [simp]: "ucs a = ucs b \<longleftrightarrow> a = b"
  by (simp add: ucs_def inj_map_eq_map inj_on_def)

lemma digit_char: "d < 10 \<Longrightarrow> (of_char (char_of (48 + d) :: char) :: nat) = 48 + d"
  by simp

text \<open>\<open>str.isspace\<close> on one code point, the characters \<open>str.strip()\<close> removes.\<close>

definition is_space :: "nat \<Rightarrow> bool" where
  "is_space c \<longleftrightarrow>
     9 \<le> c \<and> c \<le> 13 \<or> 28 \<le> c \<and> c \<le> 32 \<or> c = 133 \<or> c = 160 \<or> c = 5760 \<or>
     8192 \<le> c \<and> c \<le> 8202 \<or> c = 8232 \<or> c = 8233 \<or> c = 8239 \<or> c = 8287 \<or> c = 12288"

definition strip_by :: "('a \<Rightarrow> bool) \<Rightarrow> 'a list \<Rightarrow> 'a list" where
  "strip_by p xs = rev (dropWhile p (rev (dropWhile p xs)))"

lemma strip_by_Nil_iff: "strip_by p xs = [] \<longleftrightarrow> (\<forall>x \<in> set xs. p x)"
proof
  assume "strip_by p xs = []"
  then have all: "\<forall>x \<in> set (dropWhile p xs). p x"
    by (simp add: strip_by_def dropWhile_eq_Nil_conv)
  have "dropWhile p xs = []"
  proof (rule ccontr)
    assume ne: "dropWhile p xs \<noteq> []"
    then have "p (hd (dropWhile p xs))" using all by simp
    with ne show False using hd_dropWhile by blast
  qed
  then show "\<forall>x \<in> set xs. p x" by (simp add: dropWhile_eq_Nil_conv)
next
  assume "\<forall>x \<in> set xs. p x"
  then have "dropWhile p xs = []" by (simp add: dropWhile_eq_Nil_conv)
  then show "strip_by p xs = []" unfolding strip_by_def by (simp only: rev.simps dropWhile.simps)
qed

definition py_strip :: "ustr \<Rightarrow> ustr" where
  "py_strip = strip_by is_space"

lemma py_strip_Nil_iff: "py_strip s = [] \<longleftrightarrow> (\<forall>c \<in> set s. is_space c)"
  by (simp add: py_strip_def strip_by_Nil_iff)

text \<open>\<open>text[a:b]\<close> for \<open>0 \<le> a\<close> and \<open>0 \<le> b\<close>.\<close>

definition py_slice :: "'a list \<Rightarrow> nat \<Rightarrow> nat \<Rightarrow> 'a list" where
  "py_slice xs a b = take (b - a) (drop a xs)"

lemma length_slice: "b \<le> length xs \<Longrightarrow> length (py_slice xs a b) = b - a"
  by (simp add: py_slice_def)

definition occurs_at :: "'a list \<Rightarrow> 'a list \<Rightarrow> nat \<Rightarrow> bool" where
  "occurs_at needle hay i \<longleftrightarrow> i + length needle \<le> length hay \<and> take (length needle) (drop i hay) = needle"

text \<open>\<open>hay.find(needle, start)\<close>, with \<open>None\<close> for -1.\<close>

definition find_sub :: "'a list \<Rightarrow> 'a list \<Rightarrow> nat \<Rightarrow> nat option" where
  "find_sub hay needle start = select1 (occurs_at needle hay) [start..<Suc (length hay)]"

text \<open>\<open>needle in hay\<close>.\<close>

definition contains_sub :: "'a list \<Rightarrow> 'a list \<Rightarrow> bool" where
  "contains_sub hay needle \<longleftrightarrow> find_sub hay needle 0 \<noteq> None"

lemma find_sub_SomeD:
  "find_sub hay needle start = Some i \<Longrightarrow> start \<le> i \<and> occurs_at needle hay i"
  by (auto simp: find_sub_def dest!: select1_SomeD)

lemma find_sub_NoneD:
  "find_sub hay needle start = None \<Longrightarrow> start \<le> i \<Longrightarrow> \<not> occurs_at needle hay i"
  by (auto simp: find_sub_def select1_None_iff occurs_at_def)

lemma select1_upt_least:
  "select1 p [a..<b] = Some i \<Longrightarrow> a \<le> j \<Longrightarrow> j < i \<Longrightarrow> \<not> p j"
proof (induction "b - a" arbitrary: a)
  case 0
  then show ?case by simp
next
  case (Suc n)
  then have ab: "a < b" by simp
  then have up: "[a..<b] = a # [Suc a..<b]" by (rule upt_conv_Cons)
  show ?case
  proof (cases "p a")
    case True
    with Suc.prems up show ?thesis by simp
  next
    case False
    with Suc.prems up have "select1 p [Suc a..<b] = Some i" by simp
    moreover have "n = b - Suc a" using Suc.hyps(2) by simp
    ultimately have "j \<noteq> a \<Longrightarrow> \<not> p j" using Suc.hyps(1) [of "Suc a"] Suc.prems(2,3) by simp
    with False show ?thesis by (cases "j = a") simp_all
  qed
qed

lemma find_sub_least:
  "find_sub hay needle start = Some i \<Longrightarrow> start \<le> j \<Longrightarrow> j < i \<Longrightarrow> \<not> occurs_at needle hay j"
  unfolding find_sub_def by (rule select1_upt_least)

lemma contains_sub_iff: "contains_sub hay needle \<longleftrightarrow> (\<exists>i. occurs_at needle hay i)"
  unfolding contains_sub_def
  by (cases "find_sub hay needle 0") (auto dest: find_sub_SomeD find_sub_NoneD)

subsection \<open>Identifier patterns\<close>

definition char_in :: "char \<Rightarrow> char \<Rightarrow> char \<Rightarrow> bool" where
  "char_in a b c \<longleftrightarrow> of_char a \<le> (of_char c :: nat) \<and> of_char c \<le> (of_char b :: nat)"

definition is_lower :: "char \<Rightarrow> bool" where
  "is_lower = char_in (CHR ''a'') (CHR ''z'')"

definition is_upper :: "char \<Rightarrow> bool" where
  "is_upper = char_in (CHR ''A'') (CHR ''Z'')"

definition is_digit :: "char \<Rightarrow> bool" where
  "is_digit = char_in (CHR ''0'') (CHR ''9'')"

definition is_alpha :: "char \<Rightarrow> bool" where
  "is_alpha c \<longleftrightarrow> is_lower c \<or> is_upper c"

text \<open>\<open>[A-Za-z0-9_-]{1,64}\<close>\<close>

definition tenant_pattern :: "string \<Rightarrow> bool" where
  "tenant_pattern s \<longleftrightarrow> 1 \<le> length s \<and> length s \<le> 64 \<and>
     list_all (\<lambda>c. is_alpha c \<or> is_digit c \<or> c = CHR ''_'' \<or> c = CHR ''-'') s"

lemmas pattern_defs [str_simps] =
  char_in_def is_lower_def is_upper_def is_digit_def is_alpha_def tenant_pattern_def

section \<open>Python's dynamically typed numbers\<close>

text \<open>
  What the constructors of the program test with \<open>type\<close>, \<open>isinstance\<close> and \<open>isfinite\<close>. Finite
  floats and Decimals are exact rationals.
\<close>

datatype pynum = PyBool bool | PyInt int | PyFloat rat | PyPosInf | PyNegInf | PyNaN | PyOther

definition type_is_int :: "pynum \<Rightarrow> bool" where
  "type_is_int v \<longleftrightarrow> (case v of PyInt _ \<Rightarrow> True | _ \<Rightarrow> False)"

definition type_is_int_or_float :: "pynum \<Rightarrow> bool" where
  "type_is_int_or_float v \<longleftrightarrow> (case v of PyBool _ \<Rightarrow> False | PyOther \<Rightarrow> False | _ \<Rightarrow> True)"

definition is_finite_num :: "pynum \<Rightarrow> bool" where
  "is_finite_num v \<longleftrightarrow> (case v of PyBool _ \<Rightarrow> True | PyInt _ \<Rightarrow> True | PyFloat _ \<Rightarrow> True | _ \<Rightarrow> False)"

fun num_value :: "pynum \<Rightarrow> rat" where
  "num_value (PyBool b) = (if b then 1 else 0)"
| "num_value (PyInt i) = of_int i"
| "num_value (PyFloat r) = r"
| "num_value _ = 0"

text \<open>A finite positive number that is not a bool: \<open>isfinite(v) and v > 0\<close> after the type tests.\<close>

definition positive_number :: "pynum \<Rightarrow> bool" where
  "positive_number v \<longleftrightarrow> type_is_int_or_float v \<and> is_finite_num v \<and> num_value v > 0"

definition positive_int :: "pynum \<Rightarrow> bool" where
  "positive_int v \<longleftrightarrow> type_is_int v \<and> num_value v \<ge> 1"

lemma positive_int_iff: "positive_int v \<longleftrightarrow> (\<exists>i. v = PyInt i \<and> 1 \<le> i)"
  by (cases v) (auto simp: positive_int_def type_is_int_def)

section \<open>Remaining time\<close>

text \<open>
  A remaining allowance in seconds: a number, or \<open>float("inf")\<close> where no store bounds the run.
\<close>

datatype allowance = Secs rat | Unbounded

instantiation allowance :: linorder
begin

definition less_eq_allowance :: "allowance \<Rightarrow> allowance \<Rightarrow> bool" where
  "less_eq_allowance a b \<longleftrightarrow>
     (case b of Unbounded \<Rightarrow> True | Secs y \<Rightarrow> (case a of Unbounded \<Rightarrow> False | Secs x \<Rightarrow> x \<le> y))"

definition less_allowance :: "allowance \<Rightarrow> allowance \<Rightarrow> bool" where
  "less_allowance a b \<longleftrightarrow>
     (case a of Unbounded \<Rightarrow> False | Secs x \<Rightarrow> (case b of Unbounded \<Rightarrow> True | Secs y \<Rightarrow> x < y))"

instance
  by standard (auto simp: less_eq_allowance_def less_allowance_def split: allowance.splits)

end

lemma allowance_order [simp]:
  "Secs x \<le> Secs y \<longleftrightarrow> x \<le> y" "Secs x < Secs y \<longleftrightarrow> x < y" "a \<le> Unbounded" "\<not> Unbounded \<le> Secs y"
  "Secs x < Unbounded" "\<not> Unbounded < b"
  by (simp_all add: less_eq_allowance_def less_allowance_def)

lemma min_allowance [simp]:
  "min (Secs x) (Secs y) = Secs (min x y)" "min a Unbounded = a" "min Unbounded b = b"
  by (auto simp: min_def antisym)

end
