(* ===== verification/Exceptions.thy ===== *)
theory Exceptions
  imports Prelude
begin

text \<open>
  The exceptions of the program as one datatype, with its class hierarchy as predicates: a handler
  \<open>except C\<close> catches \<open>e\<close> when \<open>is_C e\<close>. The classes are declared next to the components that raise
  them; the ones of the libraries carry only what the handlers read of them (an HTTP status, a
  Retry-After header).
\<close>

text \<open>
  A Retry-After header as \<open>utils/retry.py\<close> and the agent loop read it: empty (falsy), a text that
  \<open>float\<close> parses, or a text on which \<open>float\<close> raises \<open>ValueError\<close>.
\<close>

datatype retry_after = RA_empty | RA_number pynum | RA_text

datatype exn =
    \<comment> \<open>built-in and library classes\<close>
    Value_error | Type_error | Timeout_error | Permission_error
  | Validation_error                                    \<comment> \<open>pydantic, a subclass of ValueError\<close>
  | Http_exception nat                                  \<comment> \<open>fastapi, with its status code\<close>
  | Redis_error | Sqlite_error | Celery_ignore
  | Api_connection_error                                \<comment> \<open>openai, no response\<close>
  | Api_status_error nat "retry_after option"           \<comment> \<open>openai, status and Retry-After\<close>
    \<comment> \<open>application/interfaces/run_store.py\<close>
  | Run_not_found | Run_conflict | Run_lease_lost | Run_cancelled | Unsafe_replay
    \<comment> \<open>application/services and use cases\<close>
  | Agent_deadline_exceeded | Resource_budget_exceeded | Decision_limit_exceeded
  | Unknown_tool_error | Decision_response_error | Decision_refused_error
  | Unobserved_citation_error | Document_answer_error | Document_review_error
  | Policy_denied_error | Policy_evaluation_error
    \<comment> \<open>chunking, ingestion, retrieval\<close>
  | Chunking_limit_exceeded | Document_parse_error
  | Document_not_found | Document_version_conflict | Document_storage_corruption
  | Document_job_conflict | Document_job_not_found | Document_corpus_limit_exceeded
  | Retrieval_result_error | Retrieval_capacity_exceeded
    \<comment> \<open>any other exception, by its class name\<close>
  | Other_error string

text \<open>\<open>RunLeaseLost\<close> and \<open>UnsafeReplay\<close> are subclasses of \<open>RunConflict\<close>.\<close>

fun is_run_conflict :: "exn \<Rightarrow> bool" where
  "is_run_conflict Run_conflict = True"
| "is_run_conflict Run_lease_lost = True"
| "is_run_conflict Unsafe_replay = True"
| "is_run_conflict _ = False"

text \<open>\<open>DecisionRefusedError\<close> is a subclass of \<open>DecisionResponseError\<close>.\<close>

fun is_decision_response_error :: "exn \<Rightarrow> bool" where
  "is_decision_response_error Decision_response_error = True"
| "is_decision_response_error Decision_refused_error = True"
| "is_decision_response_error _ = False"

text \<open>\<open>AgentDeadlineExceeded\<close> is a subclass of \<open>TimeoutError\<close>.\<close>

fun is_timeout_error :: "exn \<Rightarrow> bool" where
  "is_timeout_error Timeout_error = True"
| "is_timeout_error Agent_deadline_exceeded = True"
| "is_timeout_error _ = False"

text \<open>\<open>PolicyDeniedError\<close> is a subclass of \<open>PermissionError\<close>.\<close>

fun is_permission_error :: "exn \<Rightarrow> bool" where
  "is_permission_error Permission_error = True"
| "is_permission_error Policy_denied_error = True"
| "is_permission_error _ = False"

text \<open>
  \<open>ValidationError\<close>, \<open>ChunkingLimitExceeded\<close> and \<open>DocumentParseError\<close> are subclasses of
  \<open>ValueError\<close>.
\<close>

fun is_value_error :: "exn \<Rightarrow> bool" where
  "is_value_error Value_error = True"
| "is_value_error Validation_error = True"
| "is_value_error Chunking_limit_exceeded = True"
| "is_value_error Document_parse_error = True"
| "is_value_error _ = False"

text \<open>\<open>type(error).__name__\<close>.\<close>

fun exn_name :: "exn \<Rightarrow> string" where
  "exn_name Value_error = ''ValueError''"
| "exn_name Type_error = ''TypeError''"
| "exn_name Timeout_error = ''TimeoutError''"
| "exn_name Permission_error = ''PermissionError''"
| "exn_name Validation_error = ''ValidationError''"
| "exn_name (Http_exception _) = ''HTTPException''"
| "exn_name Redis_error = ''RedisError''"
| "exn_name Sqlite_error = ''Error''"
| "exn_name Celery_ignore = ''Ignore''"
| "exn_name Api_connection_error = ''APIConnectionError''"
| "exn_name (Api_status_error _ _) = ''APIStatusError''"
| "exn_name Run_not_found = ''RunNotFound''"
| "exn_name Run_conflict = ''RunConflict''"
| "exn_name Run_lease_lost = ''RunLeaseLost''"
| "exn_name Run_cancelled = ''RunCancelled''"
| "exn_name Unsafe_replay = ''UnsafeReplay''"
| "exn_name Agent_deadline_exceeded = ''AgentDeadlineExceeded''"
| "exn_name Resource_budget_exceeded = ''ResourceBudgetExceeded''"
| "exn_name Decision_limit_exceeded = ''DecisionLimitExceeded''"
| "exn_name Unknown_tool_error = ''UnknownToolError''"
| "exn_name Decision_response_error = ''DecisionResponseError''"
| "exn_name Decision_refused_error = ''DecisionRefusedError''"
| "exn_name Unobserved_citation_error = ''UnobservedCitationError''"
| "exn_name Document_answer_error = ''DocumentAnswerError''"
| "exn_name Document_review_error = ''DocumentReviewError''"
| "exn_name Policy_denied_error = ''PolicyDeniedError''"
| "exn_name Policy_evaluation_error = ''PolicyEvaluationError''"
| "exn_name Chunking_limit_exceeded = ''ChunkingLimitExceeded''"
| "exn_name Document_parse_error = ''DocumentParseError''"
| "exn_name Document_not_found = ''DocumentNotFound''"
| "exn_name Document_version_conflict = ''DocumentVersionConflict''"
| "exn_name Document_storage_corruption = ''DocumentStorageCorruption''"
| "exn_name Document_job_conflict = ''DocumentJobConflict''"
| "exn_name Document_job_not_found = ''DocumentJobNotFound''"
| "exn_name Document_corpus_limit_exceeded = ''DocumentCorpusLimitExceeded''"
| "exn_name Retrieval_result_error = ''RetrievalResultError''"
| "exn_name Retrieval_capacity_exceeded = ''RetrievalCapacityExceeded''"
| "exn_name (Other_error n) = n"

section \<open>Transient inference failures\<close>

text \<open>\<open>utils/retry.py\<close>: connection errors, HTTP 429 and HTTP 5xx are retryable.\<close>

fun is_retryable :: "exn \<Rightarrow> bool" where
  "is_retryable Api_connection_error = True"
| "is_retryable (Api_status_error code _) = (code = 429 \<or> 500 \<le> code \<and> code < 600)"
| "is_retryable _ = False"

text \<open>\<open>error.response.headers.get("retry-after")\<close>, \<open>None\<close> where there is no response.\<close>

fun retry_after_header :: "exn \<Rightarrow> retry_after option" where
  "retry_after_header (Api_status_error _ h) = h"
| "retry_after_header _ = None"

text \<open>The truth value of that header, as the agent loop tests it.\<close>

definition has_retry_after :: "exn \<Rightarrow> bool" where
  "has_retry_after e \<longleftrightarrow>
     (case retry_after_header e of None \<Rightarrow> False | Some RA_empty \<Rightarrow> False | Some _ \<Rightarrow> True)"

text \<open>
  \<open>retry_delay\<close>: a provider's delay between 0 and 60 seconds is honoured, any other header stops
  the retries; without a header the delay is drawn from \<open>[0, min(30, 2 ** retries)]\<close>. The draw
  \<open>u\<close> in \<open>[0, 1]\<close> is the argument.
\<close>

definition retry_delay :: "nat \<Rightarrow> exn \<Rightarrow> rat \<Rightarrow> rat option" where
  "retry_delay retries e u =
     (case retry_after_header e of
        None \<Rightarrow> Some (u * min 30 (2 ^ retries))
      | Some (RA_number v) \<Rightarrow>
          (if is_finite_num v \<and> 0 \<le> num_value v \<and> num_value v \<le> 60 then Some (num_value v) else None)
      | Some _ \<Rightarrow> None)"

lemma retry_delay_bounds:
  assumes "0 \<le> u" and "u \<le> 1" and "retry_delay retries e u = Some d"
  shows "0 \<le> d \<and> d \<le> 60 \<and> (retry_after_header e = None \<longrightarrow> d \<le> 30 \<and> d \<le> 2 ^ retries)"
proof (cases "retry_after_header e")
  case None
  define m :: rat where "m = min 30 (2 ^ retries)"
  have m: "0 \<le> m" "m \<le> 30" "m \<le> 2 ^ retries" by (simp_all add: m_def)
  from None assms(3) have d: "d = u * m" by (simp add: retry_delay_def m_def)
  have "u * m \<le> 1 * m" by (rule mult_right_mono) (use assms m in simp_all)
  with d m assms None show ?thesis by simp
next
  case (Some h)
  with assms(3) show ?thesis
    by (auto simp: retry_delay_def split: retry_after.splits if_splits)
qed

end
