(* ===== verification/Chunking.thy ===== *)
theory Chunking
  imports Exceptions
begin

text \<open>
  The chunking module: \<open>chunking/contracts.py\<close>, the service's checks in \<open>chunking/service.py\<close> and
  the fixed-window strategy \<open>chunking/strategies/character_window.py\<close>. The replaceable strategy
  (\<open>ChunkerInterface\<close>) is the locale \<open>chunker\<close>; the character window is its interpretation, which
  shows that the service never refuses what that strategy returns.
\<close>

section \<open>Contracts\<close>

record text_chunk =
  ch_index :: nat
  ch_text :: ustr
  ch_start :: nat
  ch_end :: nat

text \<open>The field constraints of \<open>TextChunk\<close> and its validator \<open>validate_span\<close>.\<close>

definition valid_chunk :: "text_chunk \<Rightarrow> bool" where
  "valid_chunk c \<longleftrightarrow>
     1 \<le> length (ch_text c) \<and> length (ch_text c) \<le> 1000000 \<and>
     ch_start c < 1000000 \<and> 0 < ch_end c \<and> ch_end c \<le> 1000000 \<and>
     ch_end c = ch_start c + length (ch_text c)"

definition make_chunk :: "nat \<Rightarrow> ustr \<Rightarrow> nat \<Rightarrow> nat \<Rightarrow> exn + text_chunk" where
  "make_chunk i t a b =
     (let c = \<lparr>ch_index = i, ch_text = t, ch_start = a, ch_end = b\<rparr>
      in if valid_chunk c then Inr c else Inl Validation_error)"

record chunking_options =
  chunk_size :: nat
  overlap :: nat

text \<open>The field constraints of \<open>ChunkingOptions\<close> and \<open>validate_overlap\<close>.\<close>

definition valid_options :: "chunking_options \<Rightarrow> bool" where
  "valid_options o' \<longleftrightarrow> 1 \<le> chunk_size o' \<and> chunk_size o' \<le> 16384 \<and> overlap o' < chunk_size o'"

definition default_options :: chunking_options where
  "default_options = \<lparr>chunk_size = 1000, overlap = 100\<rparr>"

record chunking_request =
  cr_text :: ustr
  cr_options :: chunking_options

text \<open>The text constraints shared with \<open>DocumentInput\<close>: bounded and not blank.\<close>

definition valid_text :: "ustr \<Rightarrow> bool" where
  "valid_text t \<longleftrightarrow> 1 \<le> length t \<and> length t \<le> 1000000 \<and> py_strip t \<noteq> []"

definition valid_chunking_request :: "chunking_request \<Rightarrow> bool" where
  "valid_chunking_request r \<longleftrightarrow> valid_text (cr_text r) \<and> valid_options (cr_options r)"

definition make_chunking_request :: "ustr \<Rightarrow> chunking_options \<Rightarrow> exn + chunking_request" where
  "make_chunking_request t opts =
     (let r = \<lparr>cr_text = t, cr_options = opts\<rparr>
      in if valid_chunking_request r then Inr r else Inl Validation_error)"

record chunking_result =
  cs_strategy :: string
  cs_options :: chunking_options
  cs_chunks :: "text_chunk list"

section \<open>Source spans\<close>

text \<open>
  The loop over \<open>enumerate(chunks)\<close> of \<open>ChunkingService.chunk\<close>, which
  \<open>StoredDocumentVersion.validate_saved_chunks\<close> repeats: \<open>None\<close> is the raised \<open>ValueError\<close>, otherwise
  the final \<open>previous_end\<close>.
\<close>

fun check_spans :: "ustr \<Rightarrow> nat \<Rightarrow> nat \<Rightarrow> text_chunk list \<Rightarrow> nat option" where
  "check_spans text index previous_end [] = Some previous_end"
| "check_spans text index previous_end (chunk # chunks) =
     (if ch_index chunk \<noteq> index
         \<or> (index = 0 \<and> ch_start chunk \<noteq> 0)
         \<or> ch_start chunk > previous_end
         \<or> ch_end chunk \<le> previous_end
         \<or> ch_text chunk \<noteq> py_slice text (ch_start chunk) (ch_end chunk)
      then None
      else check_spans text (Suc index) (ch_end chunk) chunks)"

text \<open>What a caller can read off the chunks: the text each adds after the previous end.\<close>

fun rebuild :: "nat \<Rightarrow> text_chunk list \<Rightarrow> ustr" where
  "rebuild previous_end [] = []"
| "rebuild previous_end (chunk # chunks) =
     drop (previous_end - ch_start chunk) (ch_text chunk) @ rebuild (ch_end chunk) chunks"

lemma slice_append_slice: "a \<le> b \<Longrightarrow> b \<le> c \<Longrightarrow> py_slice xs a b @ py_slice xs b c = py_slice xs a c"
proof -
  assume ab: "a \<le> b" and bc: "b \<le> c"
  have "py_slice xs a c = take ((b - a) + (c - b)) (drop a xs)"
    using ab bc by (simp add: py_slice_def)
  also have "\<dots> = take (b - a) (drop a xs) @ take (c - b) (drop (b - a) (drop a xs))"
    by (rule take_add)
  finally show ?thesis using ab by (simp add: py_slice_def)
qed

lemma drop_slice: "a \<le> p \<Longrightarrow> drop (p - a) (py_slice xs a b) = py_slice xs p b"
  by (cases "p \<le> b") (simp_all add: py_slice_def drop_take)

lemma check_spans_mono: "check_spans t i p cs = Some e \<Longrightarrow> p \<le> e"
proof (induction cs arbitrary: i p)
  case (Cons c cs)
  then have "p < ch_end c" and "check_spans t (Suc i) (ch_end c) cs = Some e"
    by (auto split: if_splits)
  with Cons.IH [of "Suc i" "ch_end c"] show ?case by simp
qed simp

lemma check_spans_rebuild:
  "check_spans t i p cs = Some e \<Longrightarrow> rebuild p cs = py_slice t p e"
proof (induction cs arbitrary: i p)
  case Nil
  then show ?case by (simp add: py_slice_def)
next
  case (Cons c cs)
  then have ok: "ch_start c \<le> p" "p < ch_end c" "ch_text c = py_slice t (ch_start c) (ch_end c)"
    and rest: "check_spans t (Suc i) (ch_end c) cs = Some e"
    by (auto split: if_splits)
  have "drop (p - ch_start c) (ch_text c) = py_slice t p (ch_end c)"
    using ok by (simp add: drop_slice)
  moreover have "rebuild (ch_end c) cs = py_slice t (ch_end c) e" using rest by (rule Cons.IH)
  moreover have "ch_end c \<le> e" using rest by (rule check_spans_mono)
  ultimately show ?case using ok(2) by (simp add: slice_append_slice)
qed

lemma check_spans_index:
  "check_spans t i p cs = Some e \<Longrightarrow> map ch_index cs = [i..<i + length cs]"
proof (induction cs arbitrary: i p)
  case (Cons c cs)
  then have "ch_index c = i" and "map ch_index cs = [Suc i..<Suc i + length cs]"
    by (auto split: if_splits simp del: upt_Suc)
  then show ?case by (simp add: upt_conv_Cons del: upt_Suc)
qed simp

lemma check_spans_text:
  "check_spans t i p cs = Some e \<Longrightarrow> c \<in> set cs \<Longrightarrow> ch_text c = py_slice t (ch_start c) (ch_end c)"
  by (induction cs arbitrary: i p) (auto split: if_splits)

section \<open>The service\<close>

record chunking_limits =
  max_chunks :: nat
  max_output_chars :: nat

text \<open>\<open>ChunkingService.__init__\<close>: both limits are positive integers.\<close>

definition make_chunking_limits :: "pynum \<Rightarrow> pynum \<Rightarrow> exn + chunking_limits" where
  "make_chunking_limits mc mo =
     (if positive_int mc \<and> positive_int mo
      then Inr \<lparr>max_chunks = nat \<lfloor>num_value mc\<rfloor>, max_output_chars = nat \<lfloor>num_value mo\<rfloor>\<rparr>
      else Inl Value_error)"

type_synonym splitter = "chunking_request \<Rightarrow> nat \<Rightarrow> nat \<Rightarrow> exn + text_chunk list"

definition total_chars :: "text_chunk list \<Rightarrow> nat" where
  "total_chars cs = sum_list (map (\<lambda>c. length (ch_text c)) cs)"

text \<open>
  \<open>ChunkingService.chunk\<close> with the injected strategy \<open>split\<close> and its \<open>name\<close>. The result's field
  constraint on the strategy name (1 to 128 characters) is checked at construction.
\<close>

definition chunk_service ::
  "string \<Rightarrow> splitter \<Rightarrow> chunking_limits \<Rightarrow> chunking_request \<Rightarrow> exn + chunking_result" where
  "chunk_service name split limits request =
     bindR (split request (max_chunks limits) (max_output_chars limits)) (\<lambda>chunks.
     bindR (requireR (1 \<le> length name \<and> length name \<le> 128) Validation_error) (\<lambda>_.
     if length chunks > max_chunks limits \<or> total_chars chunks > max_output_chars limits
     then Inl Chunking_limit_exceeded
     else if chunks = [] then Inl Value_error
     else (case check_spans (cr_text request) 0 0 chunks of
             None \<Rightarrow> Inl Value_error
           | Some previous_end \<Rightarrow>
               if previous_end \<noteq> length (cr_text request) then Inl Value_error
               else Inr \<lparr>cs_strategy = name, cs_options = cr_options request, cs_chunks = chunks\<rparr>)))"

text \<open>What the service's caller gets from any strategy, faulty or not.\<close>

lemma chunk_service_InrD:
  assumes "chunk_service name split limits r = Inr res"
  shows "cs_chunks res \<noteq> []"
    and "check_spans (cr_text r) 0 0 (cs_chunks res) = Some (length (cr_text r))"
    and "length (cs_chunks res) \<le> max_chunks limits"
    and "total_chars (cs_chunks res) \<le> max_output_chars limits"
    and "cs_options res = cr_options r"
    and "split r (max_chunks limits) (max_output_chars limits) = Inr (cs_chunks res)"
  using assms by (auto simp: chunk_service_def split: if_splits option.splits)

text \<open>The strategy's contract, and what the service does with a strategy that keeps it.\<close>

locale chunker =
  fixes split :: splitter
  assumes split_spans: "valid_chunking_request r \<Longrightarrow> split r m out = Inr cs \<Longrightarrow>
      cs \<noteq> [] \<and> check_spans (cr_text r) 0 0 cs = Some (length (cr_text r))"
    and split_limits: "valid_chunking_request r \<Longrightarrow> split r m out = Inr cs \<Longrightarrow>
      length cs \<le> m \<and> total_chars cs \<le> out"
    and split_error: "valid_chunking_request r \<Longrightarrow> split r m out = Inl e \<Longrightarrow> e = Chunking_limit_exceeded"
begin

lemma service_eq:
  assumes "valid_chunking_request r" and "1 \<le> length name" and "length name \<le> 128"
  shows "chunk_service name split limits r =
    (case split r (max_chunks limits) (max_output_chars limits) of
       Inl _ \<Rightarrow> Inl Chunking_limit_exceeded
     | Inr cs \<Rightarrow> Inr \<lparr>cs_strategy = name, cs_options = cr_options r, cs_chunks = cs\<rparr>)"
proof (cases "split r (max_chunks limits) (max_output_chars limits)")
  case (Inl e)
  with split_error [OF assms(1) Inl] show ?thesis by (simp add: chunk_service_def)
next
  case (Inr cs)
  with split_spans [OF assms(1) Inr] split_limits [OF assms(1) Inr] assms(2,3)
  show ?thesis by (simp add: chunk_service_def)
qed

end

section \<open>The character-window strategy\<close>

definition window_count :: "nat \<Rightarrow> nat \<Rightarrow> nat \<Rightarrow> nat" where
  "window_count n width step =
     (if n \<le> width then 1 else 1 + (n - width + step - 1) div step)"

text \<open>\<open>CharacterWindowChunker.split\<close>\<close>

definition window_split :: splitter where
  "window_split request mchunks mchars =
     (let len = length (cr_text request);
          width = chunk_size (cr_options request);
          ovl = overlap (cr_options request);
          step = width - ovl;
          count = window_count len width step;
          output_chars = len + (count - 1) * ovl
      in if count > mchunks \<or> output_chars > mchars then Inl Chunking_limit_exceeded
         else mapR (\<lambda>index. let start = index * step; stop = min (start + width) len
                            in make_chunk index (py_slice (cr_text request) start stop) start stop)
                [0..<count])"

text \<open>The \<open>k\<close>-th window, for the proofs.\<close>

definition window :: "ustr \<Rightarrow> nat \<Rightarrow> nat \<Rightarrow> nat \<Rightarrow> text_chunk" where
  "window t width step k =
     \<lparr>ch_index = k, ch_text = py_slice t (k * step) (min (k * step + width) (length t)),
      ch_start = k * step, ch_end = min (k * step + width) (length t)\<rparr>"

lemma window_count_pos: "0 < window_count n width step"
  by (simp add: window_count_def)

text \<open>Every window but the last is full and ends before the text does.\<close>

lemma window_count_before_last:
  assumes "0 < step" and "Suc k < window_count n width step"
  shows "k * step + width < n"
proof -
  have big: "\<not> n \<le> width" and k: "k < (n - width + step - 1) div step"
    using assms(2) by (auto simp: window_count_def split: if_splits)
  have "Suc k * step \<le> ((n - width + step - 1) div step) * step"
    using k by (intro mult_right_mono) auto
  also have "\<dots> \<le> n - width + step - 1" by (rule div_times_less_eq_dividend)
  finally have "k * step + step \<le> n - width + step - 1" by simp
  with assms(1) big show ?thesis by linarith
qed

lemma window_count_last:
  assumes "0 < step"
  shows "n \<le> (window_count n width step - 1) * step + width"
proof (cases "n \<le> width")
  case True
  then show ?thesis by simp
next
  case False
  define q where "q = (n - width + step - 1) div step"
  have "n - width + step - 1 < step + q * step"
    unfolding q_def using assms dividend_less_div_times [of step "n - width + step - 1"] by simp
  with False have "n \<le> q * step + width" by linarith
  with False show ?thesis by (simp add: window_count_def q_def)
qed

lemma window_start_less:
  assumes "0 < n" and "0 < step" and "step \<le> width" and "k < window_count n width step"
  shows "k * step < n"
proof (cases k)
  case 0
  with assms show ?thesis by simp
next
  case (Suc j)
  with assms window_count_before_last [of step j n width] have "j * step + width < n" by simp
  with Suc assms(3) show ?thesis by simp
qed

lemma window_valid:
  assumes "0 < length t" and "length t \<le> 1000000" and "0 < step" and "step \<le> width"
    and "k < window_count (length t) width step"
  shows "valid_chunk (window t width step k)"
proof -
  have "k * step < length t" using assms by (intro window_start_less) auto
  with assms show ?thesis
    by (auto simp: valid_chunk_def window_def length_slice)
qed

lemma window_split_eq:
  assumes "valid_chunking_request r"
  defines "t \<equiv> cr_text r" and "width \<equiv> chunk_size (cr_options r)"
    and "step \<equiv> chunk_size (cr_options r) - overlap (cr_options r)"
  shows "window_split r m out =
    (if window_count (length t) width step > m
        \<or> length t + (window_count (length t) width step - 1) * overlap (cr_options r) > out
     then Inl Chunking_limit_exceeded
     else Inr (map (window t width step) [0..<window_count (length t) width step]))"
proof -
  have dims: "0 < length t" "length t \<le> 1000000" "0 < step" "step \<le> width"
    using assms(1) by (auto simp: t_def width_def step_def valid_chunking_request_def
        valid_text_def valid_options_def)
  have "mapR (\<lambda>index. let start = index * step; stop = min (start + width) (length t)
                 in make_chunk index (py_slice t start stop) start stop) [0..<window_count (length t) width step]
        = Inr (map (window t width step) [0..<window_count (length t) width step])"
  proof (rule mapR_Inr)
    fix k assume "k \<in> set [0..<window_count (length t) width step]"
    then have "valid_chunk (window t width step k)" using dims by (intro window_valid) auto
    then show "(let start = k * step; stop = min (start + width) (length t)
          in make_chunk k (py_slice t start stop) start stop) = Inr (window t width step k)"
      by (simp add: make_chunk_def window_def Let_def)
  qed
  then show ?thesis by (simp add: window_split_def Let_def t_def width_def step_def)
qed

lemma windows_check_spans:
  assumes "0 < n" and "0 < step" and "step \<le> width" and "n = length t" and "k \<le> window_count n width step"
    and "k = 0 \<and> p = 0 \<or> 0 < k \<and> p = min ((k - 1) * step + width) n"
  shows "check_spans t k p (map (window t width step) [k..<window_count n width step]) = Some n"
  using assms(5,6)
proof (induction "window_count n width step - k" arbitrary: k p)
  case 0
  then have k: "k = window_count n width step" by simp
  with window_count_pos have "0 < k" by metis
  with 0 k window_count_last [OF assms(2), of n width] show ?case by auto
next
  case (Suc d)
  then have k: "k < window_count n width step" by simp
  then have up: "[k..<window_count n width step] = k # [Suc k..<window_count n width step]"
    by (rule upt_conv_Cons)
  have start: "k * step < n" using assms k by (intro window_start_less) auto
  have prev: "k * step \<le> p \<and> p < min (k * step + width) n"
  proof (cases k)
    case 0
    with Suc.prems assms(1-3) show ?thesis by auto
  next
    case (Suc j)
    have "j * step + width < n" using k Suc assms(2) by (intro window_count_before_last) auto
    moreover from this Suc Suc.prems have "p = j * step + width" by auto
    ultimately show ?thesis using Suc assms(2,3) by simp
  qed
  have "check_spans t (Suc k) (min (k * step + width) n)
      (map (window t width step) [Suc k..<window_count n width step]) = Some n"
    using Suc k by (intro Suc.hyps(1)) auto
  with prev up assms(4) show ?case by (auto simp: window_def)
qed

lemma windows_total_chars:
  assumes "0 < n" and "o' < width" and "n = length t"
  defines "step \<equiv> width - o'"
  assumes "k < window_count n width step"
  shows "total_chars (map (window t width step) [0..<Suc k])
       = min (k * step + width) n + k * o'"
  using assms(5)
proof (induction k)
  case 0
  then show ?case using assms(3) by (simp add: total_chars_def window_def length_slice)
next
  case (Suc k)
  have st: "0 < step" "step \<le> width" "width = step + o'" using assms(2) by (simp_all add: step_def)
  have before: "k * step + width < n" using Suc.prems st by (intro window_count_before_last) auto
  have start: "Suc k * step < n" using Suc.prems assms(1) st by (intro window_start_less) auto
  have split_up: "[0..<Suc (Suc k)] = [0..<Suc k] @ [Suc k]" by simp
  have IH: "total_chars (map (window t width step) [0..<Suc k]) = k * step + width + k * o'"
    using Suc before by simp
  have last: "length (ch_text (window t width step (Suc k))) = min (Suc k * step + width) n - Suc k * step"
    using assms(3) by (simp add: window_def length_slice)
  have "total_chars (map (window t width step) [0..<Suc (Suc k)])
      = (k * step + width + k * o') + (min (Suc k * step + width) n - Suc k * step)"
    unfolding split_up map_append using IH last by (simp add: total_chars_def del: upt_Suc)
  also have "\<dots> = min (Suc k * step + width) n + Suc k * o'"
    using st start by (simp add: min_def)
  finally show ?case .
qed

text \<open>The number of output characters the strategy computes before it allocates is exact.\<close>

lemma window_total_exact:
  assumes "valid_chunking_request r"
  defines "t \<equiv> cr_text r" and "width \<equiv> chunk_size (cr_options r)" and "o' \<equiv> overlap (cr_options r)"
  defines "count \<equiv> window_count (length t) width (width - o')"
  shows "total_chars (map (window t width (width - o')) [0..<count]) = length t + (count - 1) * o'"
proof -
  have dims: "0 < length t" "o' < width"
    using assms(1) by (auto simp: t_def width_def o'_def valid_chunking_request_def
        valid_text_def valid_options_def)
  have pos: "0 < count" by (simp add: count_def window_count_pos)
  then have up: "[0..<count] = [0..<Suc (count - 1)]" by simp
  have "total_chars (map (window t width (width - o')) [0..<Suc (count - 1)])
      = min ((count - 1) * (width - o') + width) (length t) + (count - 1) * o'"
    using dims pos by (intro windows_total_chars) (auto simp: count_def)
  moreover have "length t \<le> (count - 1) * (width - o') + width"
    unfolding count_def using dims by (intro window_count_last) auto
  ultimately show ?thesis unfolding up by simp
qed

interpretation character_window: chunker window_split
proof unfold_locales
  fix r m out cs
  assume valid: "valid_chunking_request r" and ok: "window_split r m out = Inr cs"
  let ?t = "cr_text r" and ?width = "chunk_size (cr_options r)"
  let ?step = "?width - overlap (cr_options r)"
  let ?count = "window_count (length ?t) ?width ?step"
  have cs: "cs = map (window ?t ?width ?step) [0..<?count]"
    and lim: "?count \<le> m" "length ?t + (?count - 1) * overlap (cr_options r) \<le> out"
    using ok window_split_eq [OF valid, of m out] by (auto split: if_splits)
  have dims: "0 < length ?t" "0 < ?step" "?step \<le> ?width"
    using valid by (auto simp: valid_chunking_request_def valid_text_def valid_options_def)
  have "check_spans ?t 0 0 cs = Some (length ?t)"
    unfolding cs using dims by (intro windows_check_spans) auto
  moreover have "cs \<noteq> []" using window_count_pos [of "length ?t" ?width ?step] by (simp add: cs)
  ultimately show "cs \<noteq> [] \<and> check_spans ?t 0 0 cs = Some (length ?t)" by simp
  show "length cs \<le> m \<and> total_chars cs \<le> out"
    using lim window_total_exact [OF valid] by (simp add: cs)
next
  fix r m out e
  assume "valid_chunking_request r" and "window_split r m out = Inl e"
  then show "e = Chunking_limit_exceeded" using window_split_eq [of r m out] by (auto split: if_splits)
qed

text \<open>\<open>build_character_chunking\<close> with its default limits.\<close>

definition character_chunking :: "chunking_request \<Rightarrow> exn + chunking_result" where
  "character_chunking =
     chunk_service ''character_window_v1'' window_split \<lparr>max_chunks = 1000, max_output_chars = 2000000\<rparr>"

lemma character_chunking_eq:
  "valid_chunking_request r \<Longrightarrow> character_chunking r =
     (case window_split r 1000 2000000 of
        Inl _ \<Rightarrow> Inl Chunking_limit_exceeded
      | Inr cs \<Rightarrow> Inr \<lparr>cs_strategy = ''character_window_v1'', cs_options = cr_options r, cs_chunks = cs\<rparr>)"
  unfolding character_chunking_def by (subst character_window.service_eq) simp_all

end
