(* ===== verification/Documents.thy ===== *)
theory Documents
  imports Chunking "HOL-Library.Word"
begin

text \<open>
  Document sources and snapshots: the UTF-8 plain-text parser (\<open>ingestion/adapters/plain_text.py\<close>),
  document preparation (\<open>ingestion/service.py\<close>) and the ingestion contracts
  (\<open>ingestion/contracts.py\<close>) with the validator of stored snapshots. Text fields declared with
  \<open>strip_whitespace\<close> hold text pydantic has already stripped.
\<close>

section \<open>UTF-8\<close>

text \<open>\<open>str.encode("utf-8")\<close> and \<open>bytes.decode("utf-8-sig", errors="strict")\<close>.\<close>

type_synonym bytes = "8 word list"

definition scalar_value :: "nat \<Rightarrow> bool" where
  "scalar_value c \<longleftrightarrow> c < 1114112 \<and> \<not> (55296 \<le> c \<and> c \<le> 57343)"

definition utf8_bytes :: "nat \<Rightarrow> nat list" where
  "utf8_bytes c =
     (if c < 128 then [c]
      else if c < 2048 then [192 + c div 64, 128 + c mod 64]
      else if c < 65536 then [224 + c div 4096, 128 + (c div 64) mod 64, 128 + c mod 64]
      else [240 + c div 262144, 128 + (c div 4096) mod 64, 128 + (c div 64) mod 64, 128 + c mod 64])"

definition utf8_encode :: "ustr \<Rightarrow> bytes option" where
  "utf8_encode t =
     (if list_all scalar_value t then Some (map word_of_nat (concat (map utf8_bytes t))) else None)"

definition continuation :: "nat \<Rightarrow> bool" where
  "continuation b \<longleftrightarrow> 128 \<le> b \<and> b < 192"

text \<open>One code point: the lead byte decides how many continuation bytes follow.\<close>

definition utf8_step :: "nat list \<Rightarrow> (nat \<times> nat list) option" where
  "utf8_step bs =
     (case bs of
        [] \<Rightarrow> None
      | a # r1 \<Rightarrow>
          if a < 128 then Some (a, r1)
          else (case r1 of
             [] \<Rightarrow> None
           | b # r2 \<Rightarrow>
               if \<not> continuation b then None
               else if 194 \<le> a \<and> a < 224 then Some ((a - 192) * 64 + (b - 128), r2)
               else (case r2 of
                  [] \<Rightarrow> None
                | c # r3 \<Rightarrow>
                    if \<not> continuation c then None
                    else if 224 \<le> a \<and> a < 240 then
                      (let cp = (a - 224) * 4096 + (b - 128) * 64 + (c - 128)
                       in if 2048 \<le> cp \<and> scalar_value cp then Some (cp, r3) else None)
                    else (case r3 of
                       [] \<Rightarrow> None
                     | d # r4 \<Rightarrow>
                         if \<not> continuation d then None
                         else if 240 \<le> a \<and> a < 245 then
                           (let cp = (a - 240) * 262144 + (b - 128) * 4096 + (c - 128) * 64 + (d - 128)
                            in if 65536 \<le> cp \<and> scalar_value cp then Some (cp, r4) else None)
                         else None))))"

lemma utf8_step_shorter: "utf8_step bs = Some (c, r) \<Longrightarrow> length r < length bs"
  by (auto simp: utf8_step_def Let_def split: list.splits if_splits)

function utf8_decode_nat :: "nat list \<Rightarrow> ustr option" where
  "utf8_decode_nat bs =
     (if bs = [] then Some []
      else (case utf8_step bs of
              None \<Rightarrow> None
            | Some (c, r) \<Rightarrow> map_option ((#) c) (utf8_decode_nat r)))"
  by pat_completeness auto
termination
  by (relation "measure length") (auto dest: utf8_step_shorter)

declare utf8_decode_nat.simps [simp del]

text \<open>The signature codec drops one leading byte-order mark.\<close>

definition utf8_sig_decode :: "bytes \<Rightarrow> ustr option" where
  "utf8_sig_decode bs =
     (let ns = map unat bs
      in utf8_decode_nat (if take 3 ns = [239, 187, 191] then drop 3 ns else ns))"

lemma utf8_step_bytes:
  assumes "scalar_value c"
  shows "utf8_step (utf8_bytes c @ r) = Some (c, r)"
proof -
  have c3: "(c div 4096) * 4096 + ((c div 64) mod 64) * 64 + c mod 64 = c"
  proof -
    have "(c div 64) div 64 = c div 4096" by (simp add: div_mult2_eq [symmetric])
    then have "(c div 64) mod 64 + (c div 4096) * 64 = c div 64"
      using mod_div_mult_eq [of "c div 64" 64] by simp
    then show ?thesis using mod_div_mult_eq [of c 64] by linarith
  qed
  have c4: "(c div 262144) * 262144 + ((c div 4096) mod 64) * 4096 + ((c div 64) mod 64) * 64 + c mod 64 = c"
  proof -
    have "(c div 4096) div 64 = c div 262144" by (simp add: div_mult2_eq [symmetric])
    then have "(c div 4096) mod 64 + (c div 262144) * 64 = c div 4096"
      using mod_div_mult_eq [of "c div 4096" 64] by simp
    then show ?thesis using c3 by linarith
  qed
  consider "c < 128" | "128 \<le> c" "c < 2048" | "2048 \<le> c" "c < 65536" | "65536 \<le> c" by linarith
  then show ?thesis
  proof cases
    case 1
    then show ?thesis by (simp add: utf8_step_def utf8_bytes_def)
  next
    case 2
    then have "2 \<le> c div 64" "c div 64 < 32" by (auto simp: less_mult_imp_div_less)
    with 2 mod_div_mult_eq [of c 64] show ?thesis
      by (simp add: utf8_step_def utf8_bytes_def continuation_def add.commute)
  next
    case 3
    then have "c div 4096 < 16" by (auto simp: less_mult_imp_div_less)
    with 3 c3 assms show ?thesis
      by (simp add: utf8_step_def utf8_bytes_def continuation_def)
  next
    case 4
    then have "c div 262144 < 5" using assms by (auto simp: scalar_value_def less_mult_imp_div_less)
    with 4 c4 assms show ?thesis
      by (simp add: utf8_step_def utf8_bytes_def continuation_def)
  qed
qed

lemma utf8_bytes_nonempty: "utf8_bytes c \<noteq> []"
  by (simp add: utf8_bytes_def)

lemma utf8_decode_encode:
  "list_all scalar_value t \<Longrightarrow> utf8_decode_nat (concat (map utf8_bytes t)) = Some t"
proof (induction t)
  case Nil
  then show ?case by (simp add: utf8_decode_nat.simps)
next
  case (Cons c t)
  then show ?case
    by (subst utf8_decode_nat.simps) (simp add: utf8_bytes_nonempty utf8_step_bytes)
qed

lemma utf8_bytes_byte: "scalar_value c \<Longrightarrow> b \<in> set (utf8_bytes c) \<Longrightarrow> b < 256"
proof -
  assume c: "scalar_value c" and b: "b \<in> set (utf8_bytes c)"
  have m: "x mod 64 < 64" for x :: nat by simp
  have "c < 2048 \<Longrightarrow> c div 64 < 32" "c < 65536 \<Longrightarrow> c div 4096 < 16" "c div 262144 < 5"
    using c by (auto simp: scalar_value_def less_mult_imp_div_less)
  with b m [of c] m [of "c div 64"] m [of "c div 4096"] show "b < 256"
    by (auto simp: utf8_bytes_def split: if_splits)
qed

lemma unat_utf8_bytes:
  assumes "list_all scalar_value t"
  shows "map unat (map word_of_nat (concat (map utf8_bytes t)) :: bytes) = concat (map utf8_bytes t)"
proof -
  have "unat (word_of_nat b :: 8 word) = b" if "b \<in> set (concat (map utf8_bytes t))" for b
  proof -
    have "b < 256" using that assms by (auto simp: list_all_iff dest: utf8_bytes_byte)
    then show ?thesis by (simp add: unat_of_nat take_bit_eq_mod)
  qed
  then have "map (\<lambda>b. unat (word_of_nat b :: 8 word)) (concat (map utf8_bytes t)) = concat (map utf8_bytes t)"
    by (intro map_idI) auto
  then show ?thesis by (simp add: comp_def map_concat)
qed

text \<open>Only U+FEFF encodes to bytes that begin with the byte-order mark.\<close>

lemma utf8_bytes_bom:
  assumes "scalar_value c" and "take 3 (utf8_bytes c @ r) = [239, 187, 191]"
  shows "c = 65279"
proof -
  have "utf8_step (utf8_bytes c @ r) = Some (c, r)" using assms(1) by (rule utf8_step_bytes)
  moreover obtain r' where "utf8_bytes c @ r = 239 # 187 # 191 # r'"
    using assms(2) by (metis append_Cons append_Nil append_take_drop_id)
  ultimately show ?thesis
    by (simp add: utf8_step_def continuation_def scalar_value_def)
qed

lemma utf8_sig_decode_encode:
  assumes "utf8_encode t = Some bs"
  shows "utf8_sig_decode bs = Some (if t \<noteq> [] \<and> hd t = 65279 then tl t else t)"
proof -
  have sc: "list_all scalar_value t" and bs: "bs = map word_of_nat (concat (map utf8_bytes t))"
    using assms by (auto simp: utf8_encode_def split: if_splits)
  have ns: "map unat bs = concat (map utf8_bytes t)" unfolding bs by (rule unat_utf8_bytes [OF sc])
  show ?thesis
  proof (cases t)
    case Nil
    with ns show ?thesis by (simp add: utf8_sig_decode_def utf8_decode_nat.simps)
  next
    case (Cons c u)
    show ?thesis
    proof (cases "c = 65279")
      case True
      then have "utf8_bytes c = [239, 187, 191]" by (simp add: utf8_bytes_def)
      with Cons ns sc True utf8_decode_encode [of u] show ?thesis
        by (simp add: utf8_sig_decode_def Let_def)
    next
      case False
      with sc Cons have "take 3 (concat (map utf8_bytes t)) \<noteq> [239, 187, 191]"
        using utf8_bytes_bom [of c "concat (map utf8_bytes u)"] by auto
      with Cons False ns utf8_decode_encode [OF sc] show ?thesis
        by (simp add: utf8_sig_decode_def Let_def)
    qed
  qed
qed

section \<open>The plain-text parser\<close>

text \<open>\<open>PlainTextDocumentParser.__init__\<close> and \<open>parse\<close>\<close>

definition make_plain_text_parser :: "pynum \<Rightarrow> exn + nat" where
  "make_plain_text_parser limit =
     (if positive_int limit then Inr (nat \<lfloor>num_value limit\<rfloor>) else Inl Value_error)"

definition plain_text_parse :: "nat \<Rightarrow> bytes \<Rightarrow> exn + ustr" where
  "plain_text_parse max_source_bytes content =
     (if length content > max_source_bytes then Inl Document_parse_error
      else (case utf8_sig_decode content of None \<Rightarrow> Inl Document_parse_error | Some t \<Rightarrow> Inr t))"

section \<open>Ingestion contracts\<close>

definition valid_title :: "ustr \<Rightarrow> bool" where
  "valid_title t \<longleftrightarrow> 1 \<le> length t \<and> length t \<le> 256"

definition valid_source_ref :: "ustr option \<Rightarrow> bool" where
  "valid_source_ref r \<longleftrightarrow> (case r of None \<Rightarrow> True | Some s \<Rightarrow> 1 \<le> length s \<and> length s \<le> 2048)"

record ingestion_request =
  ir_content :: bytes
  ir_title :: ustr
  ir_source_ref :: "ustr option"

definition valid_ingestion_request :: "ingestion_request \<Rightarrow> bool" where
  "valid_ingestion_request r \<longleftrightarrow>
     1 \<le> length (ir_content r) \<and> length (ir_content r) \<le> 4000000 \<and>
     valid_title (ir_title r) \<and> valid_source_ref (ir_source_ref r)"

text \<open>\<open>DocumentUpdateRequest\<close> extends the ingestion request, as its class does.\<close>

record update_request = ingestion_request +
  ur_document_id :: string
  ur_expected_version :: nat

definition update_source :: "update_request \<Rightarrow> ingestion_request" where
  "update_source u = \<lparr>ir_content = ir_content u, ir_title = ir_title u, ir_source_ref = ir_source_ref u\<rparr>"

definition valid_update_request :: "update_request \<Rightarrow> bool" where
  "valid_update_request u \<longleftrightarrow> valid_ingestion_request (update_source u) \<and> 1 \<le> ur_expected_version u"

record read_request =
  rr_document_id :: string
  rr_version :: "nat option"

definition valid_read_request :: "read_request \<Rightarrow> bool" where
  "valid_read_request r \<longleftrightarrow>
     (case rr_version r of None \<Rightarrow> True | Some v \<Rightarrow> 1 \<le> v \<and> v \<le> 2 ^ 63 - 1)"

record document_input =
  di_title :: ustr
  di_text :: ustr
  di_source_ref :: "ustr option"

definition valid_document_input :: "document_input \<Rightarrow> bool" where
  "valid_document_input d \<longleftrightarrow>
     valid_title (di_title d) \<and> valid_text (di_text d) \<and> valid_source_ref (di_source_ref d)"

record stored_version =
  sv_document_id :: string
  sv_tenant_id :: string
  sv_version :: nat
  sv_created_at :: rat
  sv_document :: document_input
  sv_chunking :: chunking_result

text \<open>\<open>StoredDocumentVersion.validate_saved_chunks\<close>\<close>

definition saved_chunks_ok :: "stored_version \<Rightarrow> bool" where
  "saved_chunks_ok r \<longleftrightarrow>
     cs_chunks (sv_chunking r) \<noteq> [] \<and>
     check_spans (di_text (sv_document r)) 0 0 (cs_chunks (sv_chunking r))
       = Some (length (di_text (sv_document r)))"

definition valid_chunking_result :: "chunking_result \<Rightarrow> bool" where
  "valid_chunking_result c \<longleftrightarrow>
     1 \<le> length (cs_strategy c) \<and> length (cs_strategy c) \<le> 128 \<and>
     valid_options (cs_options c) \<and> list_all valid_chunk (cs_chunks c)"

text \<open>
  Full validation of a snapshot: its own fields, the nested models, and the saved chunks. A record
  that passes is returned unchanged by \<open>model_validate_json(model_dump_json())\<close>.
\<close>

definition valid_stored :: "stored_version \<Rightarrow> bool" where
  "valid_stored r \<longleftrightarrow>
     tenant_pattern (sv_tenant_id r) \<and> 1 \<le> sv_version r \<and>
     valid_document_input (sv_document r) \<and> valid_chunking_result (sv_chunking r) \<and>
     saved_chunks_ok r"

definition validate_stored :: "stored_version \<Rightarrow> exn + stored_version" where
  "validate_stored r = (if valid_stored r then Inr r else Inl Validation_error)"

section \<open>Preparation\<close>

text \<open>\<open>DocumentPreparationService.prepare\<close> with an injected parser\<close>

definition prepare ::
  "(bytes \<Rightarrow> exn + ustr) \<Rightarrow> ingestion_request \<Rightarrow> exn + document_input" where
  "prepare parse r =
     bindR (parse (ir_content r)) (\<lambda>text.
       let d = \<lparr>di_title = ir_title r, di_text = text, di_source_ref = ir_source_ref r\<rparr>
       in if valid_document_input d then Inr d else Inl Validation_error)"

lemma prepare_InrD:
  "prepare parse r = Inr d \<Longrightarrow> valid_document_input d \<and> parse (ir_content r) = Inr (di_text d)
     \<and> di_title d = ir_title r \<and> di_source_ref d = ir_source_ref r"
  by (auto simp: prepare_def Let_def split: if_splits)

text \<open>
  C8. A snapshot that passes validation holds its whole document: the text is recovered from the
  chunks by dropping from each the part that overlaps what came before, the chunk indexes are
  0, 1, 2, ... and every chunk is the exact source span it names.
\<close>

theorem stored_chunks_recover_text:
  assumes "valid_stored r"
  shows "rebuild 0 (cs_chunks (sv_chunking r)) = di_text (sv_document r)
    \<and> map ch_index (cs_chunks (sv_chunking r)) = [0..<length (cs_chunks (sv_chunking r))]
    \<and> (\<forall>c \<in> set (cs_chunks (sv_chunking r)). ch_text c = py_slice (di_text (sv_document r)) (ch_start c) (ch_end c))"
proof -
  have ok: "check_spans (di_text (sv_document r)) 0 0 (cs_chunks (sv_chunking r))
      = Some (length (di_text (sv_document r)))"
    using assms by (simp add: valid_stored_def saved_chunks_ok_def)
  show ?thesis
    using check_spans_rebuild [OF ok] check_spans_index [OF ok] check_spans_text [OF ok]
    by (simp add: py_slice_def)
qed

end
