(* ===== verification/Doc_Store.thy ===== *)
theory Doc_Store
  imports Documents "HOL-Library.List_Lexorder"
begin

text \<open>
  The snapshot table of \<open>ingestion/adapters/sqlite_document_store.py\<close>: append, exact and latest
  reads, deletion and the bounded corpus read, with the job table they share a database with
  (its operations are in \<open>Doc_Jobs\<close>). A transaction returns the new database or raises, which
  rolls it back. The storage contract of \<open>ingestion/document_store.py\<close> is the locale
  \<open>version_store\<close>, stated over the list of versions of each document.
\<close>

section \<open>The database\<close>

text \<open>
  The \<open>snapshot\<close> column holds JSON text; \<open>None\<close> stands for text that does not parse to the fields of
  a snapshot.
\<close>

record version_row =
  vr_tenant :: string
  vr_document_id :: string
  vr_version :: nat
  vr_snapshot :: "stored_version option"

datatype job_operation = Op_create | Op_update

datatype job_state = Job_queued | Job_running | Job_succeeded | Job_failed

text \<open>The job payload: the validated submission, source bytes included.\<close>

datatype doc_request = Create_source ingestion_request | Update_source update_request

record job_row =
  jr_id :: string
  jr_tenant :: string
  jr_document_id :: string
  jr_operation :: job_operation
  jr_key_hash :: string
  jr_fingerprint :: string
  jr_payload :: "doc_request option"
  jr_options :: chunking_options
  jr_state :: job_state
  jr_version :: "nat option"
  jr_error :: "string option"
  jr_attempts :: nat
  jr_token :: "string option"
  jr_lease_until :: "rat option"
  jr_published :: bool
  jr_created :: rat
  jr_updated :: rat

record doc_db =
  db_versions :: "version_row list"
  db_jobs :: "job_row list"

record doc_cfg =
  job_lease_seconds :: rat
  job_max_attempts :: nat

text \<open>\<open>SQLiteDocumentStore.__init__\<close>: the argument checks, before the database is opened.\<close>

definition make_doc_cfg :: "string \<Rightarrow> pynum \<Rightarrow> pynum \<Rightarrow> pynum \<Rightarrow> exn + doc_cfg" where
  "make_doc_cfg path lock_timeout lease attempts =
     (if list_all (\<lambda>c. is_space (of_char c)) path \<or> path = '':memory:'' then Inl Value_error
      else if \<not> positive_number lock_timeout then Inl Value_error
      else if \<not> positive_int attempts \<or> \<not> positive_number lease then Inl Value_error
      else Inr \<lparr>job_lease_seconds = num_value lease, job_max_attempts = nat \<lfloor>num_value attempts\<rfloor>\<rparr>)"

text \<open>
  The opening transaction: a fresh file (application id and user version 0, no table) is
  initialised; any other file must carry the application id and a known schema version.
\<close>

definition application_id :: nat where "application_id = 0x43524453"

definition schema_version :: nat where "schema_version = 2"

definition open_database :: "nat \<Rightarrow> nat \<Rightarrow> string list \<Rightarrow> exn + nat \<times> nat" where
  "open_database app_id user_version tables =
     (let fresh = (app_id = 0 \<and> user_version = 0 \<and> tables = [])
      in if \<not> fresh \<and> (app_id \<noteq> application_id \<or> user_version \<notin> {1, schema_version})
         then Inl Value_error
         else Inr (application_id, schema_version))"

definition empty_doc_db :: doc_db where
  "empty_doc_db = \<lparr>db_versions = [], db_jobs = []\<rparr>"

section \<open>Operations\<close>

definition of_document :: "string \<Rightarrow> string \<Rightarrow> version_row \<Rightarrow> bool" where
  "of_document t d r \<longleftrightarrow> vr_tenant r = t \<and> vr_document_id r = d"

text \<open>\<open>_identity\<close>; the document identity is a UUID by its type.\<close>

definition check_identity :: "string \<Rightarrow> exn + unit" where
  "check_identity t = requireR (tenant_pattern t) Value_error"

text \<open>\<open>SELECT MAX(version) \<dots>\<close> with \<open>latest or 0\<close>\<close>

definition latest_version :: "doc_db \<Rightarrow> string \<Rightarrow> string \<Rightarrow> nat" where
  "latest_version db t d = foldr max (map vr_version (filter (of_document t d) (db_versions db))) 0"

text \<open>\<open>_append\<close>\<close>

definition append_version :: "stored_version \<Rightarrow> (doc_db, exn, unit) tx" where
  "append_version r db =
     bindR (check_identity (sv_tenant_id r)) (\<lambda>_.
     let expected = latest_version db (sv_tenant_id r) (sv_document_id r) + 1
     in if sv_version r \<noteq> expected then Inl Document_version_conflict
        else Inr ((), db\<lparr>db_versions := db_versions db @
               [\<lparr>vr_tenant = sv_tenant_id r, vr_document_id = sv_document_id r,
                 vr_version = sv_version r, vr_snapshot = Some r\<rparr>]\<rparr>))"

text \<open>\<open>create_version\<close>\<close>

definition create_version :: "stored_version \<Rightarrow> (doc_db, exn, stored_version) tx" where
  "create_version r db =
     bindR (validate_stored r) (\<lambda>r.
     bindR (append_version r db) (\<lambda>(_, db'). Inr (r, db')))"

text \<open>\<open>_decode\<close>\<close>

definition decode_version :: "version_row \<Rightarrow> exn + stored_version" where
  "decode_version row =
     (case vr_snapshot row of
        None \<Rightarrow> Inl Document_storage_corruption
      | Some r \<Rightarrow>
          if \<not> valid_stored r then Inl Document_storage_corruption
          else if sv_tenant_id r \<noteq> vr_tenant row \<or> sv_document_id r \<noteq> vr_document_id row
               \<or> sv_version r \<noteq> vr_version row
          then Inl Document_storage_corruption
          else Inr r)"

text \<open>\<open>get\<close>: the exact version, or the row that \<open>ORDER BY version DESC LIMIT 1\<close> gives.\<close>

definition get_version ::
  "string \<Rightarrow> string \<Rightarrow> nat option \<Rightarrow> (doc_db, exn, stored_version) tx" where
  "get_version t d version db =
     bindR (check_identity t) (\<lambda>_.
     bindR (requireR (case version of None \<Rightarrow> True | Some v \<Rightarrow> 1 \<le> v \<and> v \<le> 2 ^ 63 - 1) Value_error) (\<lambda>_.
     let wanted = (case version of None \<Rightarrow> latest_version db t d | Some v \<Rightarrow> v)
     in case select1 (\<lambda>r. of_document t d r \<and> vr_version r = wanted) (db_versions db) of
          None \<Rightarrow> Inl Document_not_found
        | Some row \<Rightarrow> bindR (decode_version row) (\<lambda>r. Inr (r, db))))"

text \<open>The job update of \<open>delete\<close>: in-flight work is fenced, retained payloads are removed.\<close>

definition fence_deleted :: "job_row \<Rightarrow> job_row" where
  "fence_deleted j =
     j\<lparr>jr_payload := None,
       jr_state := (if jr_state j = Job_succeeded then jr_state j else Job_failed),
       jr_error := (if jr_state j = Job_succeeded then jr_error j else Some ''DocumentDeleted''),
       jr_token := None, jr_lease_until := None\<rparr>"

text \<open>\<open>delete\<close>\<close>

definition delete_document :: "string \<Rightarrow> string \<Rightarrow> (doc_db, exn, unit) tx" where
  "delete_document t d db =
     bindR (check_identity t) (\<lambda>_.
     if filter (of_document t d) (db_versions db) = [] then Inl Document_not_found
     else Inr ((), db\<lparr>
       db_versions := filter (\<lambda>r. \<not> of_document t d r) (db_versions db),
       db_jobs := update_where (\<lambda>j. jr_tenant j = t \<and> jr_document_id j = d) fence_deleted (db_jobs db)\<rparr>))"

text \<open>
  \<open>read_latest_documents\<close>. \<open>json_bytes\<close> gives the byte length of a snapshot's stored text; the
  limits are checked on the selection before any row is decoded.
\<close>

definition current_rows :: "doc_db \<Rightarrow> string \<Rightarrow> version_row list" where
  "current_rows db t =
     filter (\<lambda>r. vr_tenant r = t \<and>
       \<not> list_ex (\<lambda>n. vr_tenant n = vr_tenant r \<and> vr_document_id n = vr_document_id r
                        \<and> vr_version n > vr_version r) (db_versions db))
       (db_versions db)"

definition read_latest_documents ::
  "(version_row \<Rightarrow> nat) \<Rightarrow> string \<Rightarrow> pynum \<Rightarrow> pynum \<Rightarrow> (doc_db, exn, stored_version list) tx" where
  "read_latest_documents json_bytes t max_documents max_snapshot_bytes db =
     (if \<not> positive_int max_documents \<or> \<not> positive_int max_snapshot_bytes then Inl Value_error
      else if \<not> tenant_pattern t then Inl Value_error
      else let rows = current_rows db t;
               count = length rows;
               bytes = sum_list (map json_bytes rows)
           in if of_nat count > num_value max_documents \<or> of_nat bytes > num_value max_snapshot_bytes
              then Inl Document_corpus_limit_exceeded
              else bindR (mapR decode_version (sort_key vr_document_id rows)) (\<lambda>rs. Inr (rs, db)))"

section \<open>The table invariant\<close>

text \<open>
  The versions of one document, in insertion order, are numbered 1, 2, 3, ...; every row decodes
  to a snapshot of its own identity.
\<close>

definition versions_of :: "doc_db \<Rightarrow> string \<Rightarrow> string \<Rightarrow> stored_version list" where
  "versions_of db t d =
     map (\<lambda>r. the (vr_snapshot r)) (filter (of_document t d) (db_versions db))"

definition row_ok :: "version_row \<Rightarrow> bool" where
  "row_ok r \<longleftrightarrow> is_ok (decode_version r)"

definition versions_inv :: "doc_db \<Rightarrow> bool" where
  "versions_inv db \<longleftrightarrow>
     (\<forall>r \<in> set (db_versions db). row_ok r) \<and>
     (\<forall>t d. map vr_version (filter (of_document t d) (db_versions db))
             = [1..<Suc (length (filter (of_document t d) (db_versions db)))])"

lemma row_okD:
  "row_ok r \<Longrightarrow> \<exists>s. vr_snapshot r = Some s \<and> valid_stored s \<and> sv_tenant_id s = vr_tenant r \<and>
      sv_document_id s = vr_document_id r \<and> sv_version s = vr_version r \<and> decode_version r = Inr s"
  by (auto simp: row_ok_def decode_version_def is_ok_iff split: option.splits if_splits)

lemma row_ok_decode: "row_ok r \<Longrightarrow> decode_version r = Inr (the (vr_snapshot r))"
  by (auto dest: row_okD)

lemma foldr_max_upt: "foldr max [1..<Suc n] 0 = n"
proof -
  have "foldr max [a..<Suc n] 0 = (if a \<le> n then n else 0)" for a
  proof (induction "Suc n - a" arbitrary: a)
    case 0
    then show ?case by simp
  next
    case (Suc k)
    then have "[a..<Suc n] = a # [Suc a..<Suc n]" by (intro upt_conv_Cons) simp
    with Suc show ?case by (auto simp del: upt_Suc)
  qed
  then show ?thesis by simp
qed

lemma latest_version_eq: "versions_inv db \<Longrightarrow> latest_version db t d = length (versions_of db t d)"
  unfolding versions_inv_def latest_version_def versions_of_def
  using foldr_max_upt by (simp del: upt_Suc)

lemma length_versions_of: "length (versions_of db t d) = length (filter (of_document t d) (db_versions db))"
  by (simp add: versions_of_def)

lemma select1_filter: "select1 (\<lambda>x. p x \<and> q x) xs = select1 q (filter p xs)"
  by (induction xs) auto

lemma select1_upt_index:
  assumes "map k ys = [1..<Suc (length ys)]"
  shows "select1 (\<lambda>y. k y = v) ys = (if 1 \<le> v \<and> v \<le> length ys then Some (ys ! (v - 1)) else None)"
proof (cases "1 \<le> v \<and> v \<le> length ys")
  case True
  have nth: "k (ys ! i) = i + 1" if "i < length ys" for i
    using arg_cong [OF assms, of "\<lambda>l. l ! i"] that by (simp del: upt_Suc)
  have "select1 (\<lambda>y. k y = v) ys = Some (ys ! (v - 1))"
  proof (rule select1_unique [where k = k])
    show "distinct (map k ys)" unfolding assms by simp
    have "v - 1 < length ys" using True by linarith
    then show "ys ! (v - 1) \<in> set ys" by (rule nth_mem)
    have kv: "k (ys ! (v - 1)) = v" using nth [OF \<open>v - 1 < length ys\<close>] True by linarith
    then show "k (ys ! (v - 1)) = v" .
    show "\<And>y. k y = v \<Longrightarrow> k y = k (ys ! (v - 1))" unfolding kv .
  qed
  with True show ?thesis by simp
next
  case False
  have "k y \<noteq> v" if "y \<in> set ys" for y
  proof -
    have "k y \<in> set (map k ys)" using that by simp
    then have "1 \<le> k y \<and> k y \<le> length ys" unfolding assms by auto
    with False show ?thesis by auto
  qed
  then have "select1 (\<lambda>y. k y = v) ys = None" by (auto simp: select1_None_iff)
  with False show ?thesis by auto
qed

text \<open>The reads, in terms of the version list.\<close>

lemma get_version_eq:
  assumes inv: "versions_inv db" and t: "tenant_pattern t"
  shows "get_version t d version db =
    (case version of
       None \<Rightarrow> if versions_of db t d = [] then Inl Document_not_found
               else Inr (last (versions_of db t d), db)
     | Some v \<Rightarrow>
         if \<not> (1 \<le> v \<and> v \<le> 2 ^ 63 - 1) then Inl Value_error
         else if v \<le> length (versions_of db t d) then Inr (versions_of db t d ! (v - 1), db)
         else Inl Document_not_found)"
proof -
  define ys where "ys = filter (of_document t d) (db_versions db)"
  have num: "map vr_version ys = [1..<Suc (length ys)]" and ok: "\<forall>r \<in> set ys. row_ok r"
    using inv by (auto simp: versions_inv_def ys_def)
  have vs: "versions_of db t d = map (\<lambda>r. the (vr_snapshot r)) ys" by (simp add: versions_of_def ys_def)
  have sel: "select1 (\<lambda>r. of_document t d r \<and> vr_version r = w) (db_versions db)
      = (if 1 \<le> w \<and> w \<le> length ys then Some (ys ! (w - 1)) else None)" for w
    unfolding select1_filter ys_def [symmetric] using select1_upt_index [OF num] by simp
  have dec: "decode_version (ys ! i) = Inr (the (vr_snapshot (ys ! i)))" if "i < length ys" for i
    using that ok by (intro row_ok_decode) auto
  have lst: "ys \<noteq> [] \<Longrightarrow> last ys = ys ! (length ys - 1)" by (rule last_conv_nth)
  show ?thesis
    unfolding get_version_def sel
    using t latest_version_eq [OF inv, of t d]
    by (auto simp: check_identity_def vs dec lst last_map Let_def not_le Suc_le_eq split: option.split)
qed

lemma create_version_eq:
  assumes "versions_inv db"
  shows "create_version r db =
    (if \<not> valid_stored r then Inl Validation_error
     else if sv_version r \<noteq> length (versions_of db (sv_tenant_id r) (sv_document_id r)) + 1
     then Inl Document_version_conflict
     else Inr (r, db\<lparr>db_versions := db_versions db @
            [\<lparr>vr_tenant = sv_tenant_id r, vr_document_id = sv_document_id r,
              vr_version = sv_version r, vr_snapshot = Some r\<rparr>]\<rparr>))"
  using latest_version_eq [OF assms]
  by (simp add: create_version_def append_version_def validate_stored_def check_identity_def
      valid_stored_def Let_def)

lemma versions_of_append:
  "versions_of (db\<lparr>db_versions := db_versions db @ [row]\<rparr>) t d =
     versions_of db t d @ (if of_document t d row then [the (vr_snapshot row)] else [])"
  by (simp add: versions_of_def)

lemma versions_inv_append:
  assumes "versions_inv db" and "valid_stored r"
    and "sv_version r = length (versions_of db (sv_tenant_id r) (sv_document_id r)) + 1"
  shows "versions_inv (db\<lparr>db_versions := db_versions db @
            [\<lparr>vr_tenant = sv_tenant_id r, vr_document_id = sv_document_id r,
              vr_version = sv_version r, vr_snapshot = Some r\<rparr>]\<rparr>)"
proof -
  let ?row = "\<lparr>vr_tenant = sv_tenant_id r, vr_document_id = sv_document_id r,
              vr_version = sv_version r, vr_snapshot = Some r\<rparr>"
  have "row_ok ?row" using assms(2) by (simp add: row_ok_def decode_version_def)
  moreover have "map vr_version (filter (of_document t d) (db_versions db @ [?row]))
      = [1..<Suc (length (filter (of_document t d) (db_versions db @ [?row])))]" for t d
    using assms(1,3) by (auto simp: versions_inv_def of_document_def length_versions_of)
  ultimately show ?thesis using assms(1) by (simp add: versions_inv_def)
qed

lemma versions_inv_jobs [simp]: "versions_inv (db\<lparr>db_jobs := js\<rparr>) = versions_inv db"
  by (simp add: versions_inv_def)

lemma versions_of_jobs [simp]: "versions_of (db\<lparr>db_jobs := js\<rparr>) t d = versions_of db t d"
  by (simp add: versions_of_def)

lemma filter_filter_not: "(\<And>x. p x \<Longrightarrow> q x) \<Longrightarrow> filter p (filter q xs) = filter p xs"
  by (induction xs) auto

lemma versions_of_delete:
  "versions_of (db\<lparr>db_versions := filter (\<lambda>r. \<not> of_document t d r) (db_versions db), db_jobs := js\<rparr>) t' d'
     = (if t' = t \<and> d' = d then [] else versions_of db t' d')"
proof (cases "t' = t \<and> d' = d")
  case True
  then show ?thesis by (simp add: versions_of_def)
next
  case False
  then have "filter (of_document t' d') (filter (\<lambda>r. \<not> of_document t d r) (db_versions db))
      = filter (of_document t' d') (db_versions db)"
    by (intro filter_filter_not) (auto simp: of_document_def)
  then show ?thesis unfolding if_not_P [OF False] versions_of_def by (simp del: filter_filter)
qed

lemma versions_inv_delete:
  assumes "versions_inv db"
  shows "versions_inv (db\<lparr>db_versions := filter (\<lambda>r. \<not> of_document t d r) (db_versions db), db_jobs := js\<rparr>)"
proof -
  have "filter (of_document t' d') (filter (\<lambda>r. \<not> of_document t d r) (db_versions db))
      = (if t' = t \<and> d' = d then [] else filter (of_document t' d') (db_versions db))" for t' d'
  proof (cases "t' = t \<and> d' = d")
    case True
    then show ?thesis by simp
  next
    case False
    then have "filter (of_document t' d') (filter (\<lambda>r. \<not> of_document t d r) (db_versions db))
      = filter (of_document t' d') (db_versions db)"
      by (intro filter_filter_not) (auto simp: of_document_def)
    then show ?thesis by (simp only: if_not_P [OF False])
  qed
  with assms show ?thesis by (simp add: versions_inv_def del: filter_filter upt_Suc)
qed

lemma delete_document_eq:
  assumes "tenant_pattern t"
  shows "delete_document t d db =
    (if versions_of db t d = [] then Inl Document_not_found
     else Inr ((), db\<lparr>
       db_versions := filter (\<lambda>r. \<not> of_document t d r) (db_versions db),
       db_jobs := update_where (\<lambda>j. jr_tenant j = t \<and> jr_document_id j = d) fence_deleted (db_jobs db)\<rparr>))"
  using assms by (simp add: delete_document_def check_identity_def versions_of_def)

lemma versions_inv_empty [simp]: "versions_inv empty_doc_db"
  by (simp add: versions_inv_def empty_doc_db_def)

lemma versions_of_versions:
  assumes "versions_inv db" and "i < length (versions_of db t d)"
  shows "sv_version (versions_of db t d ! i) = i + 1 \<and> sv_tenant_id (versions_of db t d ! i) = t
    \<and> sv_document_id (versions_of db t d ! i) = d \<and> valid_stored (versions_of db t d ! i)"
proof -
  define ys where "ys = filter (of_document t d) (db_versions db)"
  have num: "map vr_version ys = [1..<Suc (length ys)]" and ok: "\<forall>r \<in> set ys. row_ok r"
    and key: "\<forall>r \<in> set ys. of_document t d r"
    using assms(1) by (auto simp: versions_inv_def ys_def)
  have i: "i < length ys" using assms(2) by (simp add: length_versions_of ys_def)
  then have "row_ok (ys ! i)" and "of_document t d (ys ! i)" using ok key by auto
  moreover have "vr_version (ys ! i) = i + 1"
    using arg_cong [OF num, of "\<lambda>l. l ! i"] i by (simp del: upt_Suc)
  ultimately show ?thesis using i
    by (auto simp: versions_of_def ys_def [symmetric] of_document_def dest: row_okD)
qed

section \<open>The storage contract\<close>

text \<open>
  \<open>DocumentStoreInterface\<close>: tenant-scoped immutable snapshots. \<open>history s t d\<close> is the list of the
  document's versions, version \<open>n\<close> at position \<open>n - 1\<close>.
\<close>

locale version_store =
  fixes create :: "stored_version \<Rightarrow> ('s, exn, stored_version) tx"
    and fetch :: "string \<Rightarrow> string \<Rightarrow> nat option \<Rightarrow> ('s, exn, stored_version) tx"
    and remove :: "string \<Rightarrow> string \<Rightarrow> ('s, exn, unit) tx"
    and history :: "'s \<Rightarrow> string \<Rightarrow> string \<Rightarrow> stored_version list"
    and invar :: "'s \<Rightarrow> bool"
  assumes create_ok: "invar s \<Longrightarrow> create r s = Inr (r', s') \<Longrightarrow> invar s' \<and> r' = r \<and> valid_stored r \<and>
      sv_version r = length (history s (sv_tenant_id r) (sv_document_id r)) + 1 \<and>
      history s' t d = history s t d @ (if t = sv_tenant_id r \<and> d = sv_document_id r then [r] else [])"
    and create_conflict: "invar s \<Longrightarrow> valid_stored r \<Longrightarrow>
      sv_version r \<noteq> length (history s (sv_tenant_id r) (sv_document_id r)) + 1 \<Longrightarrow>
      create r s = Inl Document_version_conflict"
    and fetch_latest: "invar s \<Longrightarrow> tenant_pattern t \<Longrightarrow>
      fetch t d None s = (if history s t d = [] then Inl Document_not_found
                          else Inr (last (history s t d), s))"
    and fetch_exact: "invar s \<Longrightarrow> tenant_pattern t \<Longrightarrow> 1 \<le> v \<Longrightarrow> v \<le> 2 ^ 63 - 1 \<Longrightarrow>
      fetch t d (Some v) s = (if v \<le> length (history s t d) then Inr (history s t d ! (v - 1), s)
                              else Inl Document_not_found)"
    and remove_ok: "invar s \<Longrightarrow> remove t d s = Inr (u, s') \<Longrightarrow> invar s' \<and>
      history s' t' d' = (if t' = t \<and> d' = d then [] else history s t' d')"
    and history_version: "invar s \<Longrightarrow> i < length (history s t d) \<Longrightarrow>
      sv_version (history s t d ! i) = i + 1"
begin

text \<open>What was appended is what is read, as the latest version and by its number.\<close>

lemma fetch_created:
  assumes "invar s" and "create r s = Inr (r', s')" and "sv_version r \<le> 2 ^ 63 - 1"
  shows "fetch (sv_tenant_id r) (sv_document_id r) None s' = Inr (r, s')"
    and "fetch (sv_tenant_id r) (sv_document_id r) (Some (sv_version r)) s' = Inr (r, s')"
proof -
  have h: "history s' (sv_tenant_id r) (sv_document_id r)
      = history s (sv_tenant_id r) (sv_document_id r) @ [r]"
    and inv: "invar s'" and v: "valid_stored r"
    and n: "sv_version r = length (history s (sv_tenant_id r) (sv_document_id r)) + 1"
    using create_ok [OF assms(1,2), of "sv_tenant_id r" "sv_document_id r"] by simp_all
  have t: "tenant_pattern (sv_tenant_id r)" using v by (simp add: valid_stored_def)
  show "fetch (sv_tenant_id r) (sv_document_id r) None s' = Inr (r, s')"
    using fetch_latest [OF inv t] h by simp
  show "fetch (sv_tenant_id r) (sv_document_id r) (Some (sv_version r)) s' = Inr (r, s')"
    using fetch_exact [OF inv t, of "sv_version r"] h n assms(3) by simp
qed

text \<open>An append never changes what an older version reads as.\<close>

lemma fetch_immutable:
  assumes "invar s" and "create r s = Inr (r', s')" and "tenant_pattern t" and "1 \<le> v" and "v \<le> 2 ^ 63 - 1"
    and "fetch t d (Some v) s = Inr (x, s)"
  shows "fetch t d (Some v) s' = Inr (x, s')"
proof -
  from create_ok [OF assms(1,2), of t d] have inv: "invar s'"
    and h: "\<exists>zs. history s' t d = history s t d @ zs" by auto
  have le: "v \<le> length (history s t d)" and x: "x = history s t d ! (v - 1)"
    using assms(6) fetch_exact [OF assms(1,3-5), of d] by (auto split: if_splits)
  obtain zs where "history s' t d = history s t d @ zs" using h by blast
  with le x assms(4) show ?thesis using fetch_exact [OF inv assms(3-5), of d] by (simp add: nth_append)
qed

text \<open>
  Optimistic concurrency: of two appends that name the same version of the same document, in any
  order and with any store in between that kept the first, the second is a conflict.
\<close>

lemma second_append_conflicts:
  assumes "invar s" and "create r s = Inr (r', s')" and "valid_stored q"
    and "sv_tenant_id q = sv_tenant_id r" and "sv_document_id q = sv_document_id r"
    and "sv_version q = sv_version r"
  shows "create q s' = Inl Document_version_conflict"
proof -
  from create_ok [OF assms(1,2), of "sv_tenant_id r" "sv_document_id r"]
  have "invar s'" and "sv_version q \<noteq> length (history s' (sv_tenant_id q) (sv_document_id q)) + 1"
    using assms(4-6) by simp_all
  with assms(3) show ?thesis by (intro create_conflict) auto
qed

lemma fetch_removed:
  assumes "invar s" and "remove t d s = Inr (u, s')" and "tenant_pattern t"
  shows "fetch t d None s' = Inl Document_not_found"
  using remove_ok [OF assms(1,2), of t d] fetch_latest [of s' t d] assms(3) by simp

end

interpretation sqlite_versions: version_store create_version get_version delete_document versions_of versions_inv
proof unfold_locales
  fix s r r' s' t d
  assume inv: "versions_inv s" and c: "create_version r s = Inr (r', s')"
  let ?row = "\<lparr>vr_tenant = sv_tenant_id r, vr_document_id = sv_document_id r,
              vr_version = sv_version r, vr_snapshot = Some r\<rparr>"
  have v: "valid_stored r" "sv_version r = length (versions_of s (sv_tenant_id r) (sv_document_id r)) + 1"
    and s': "s' = s\<lparr>db_versions := db_versions s @ [?row]\<rparr>" "r' = r"
    using c create_version_eq [OF inv, of r] by (auto split: if_splits)
  show "versions_inv s' \<and> r' = r \<and> valid_stored r \<and>
      sv_version r = length (versions_of s (sv_tenant_id r) (sv_document_id r)) + 1 \<and>
      versions_of s' t d = versions_of s t d @ (if t = sv_tenant_id r \<and> d = sv_document_id r then [r] else [])"
    using v s' versions_inv_append [OF inv v]
    by (auto simp: versions_of_append of_document_def)
next
  fix s r
  assume "versions_inv s" and "valid_stored r"
    and "sv_version r \<noteq> length (versions_of s (sv_tenant_id r) (sv_document_id r)) + 1"
  then show "create_version r s = Inl Document_version_conflict" by (simp add: create_version_eq)
next
  fix s t d
  assume "versions_inv s" and "tenant_pattern t"
  then show "get_version t d None s = (if versions_of s t d = [] then Inl Document_not_found
                          else Inr (last (versions_of s t d), s))"
    by (simp add: get_version_eq)
next
  fix s :: doc_db and t d :: string and v :: nat
  assume "versions_inv s" and "tenant_pattern t" and "1 \<le> v" and "v \<le> 2 ^ 63 - 1"
  then show "get_version t d (Some v) s =
      (if v \<le> length (versions_of s t d) then Inr (versions_of s t d ! (v - 1), s)
       else Inl Document_not_found)"
    by (simp add: get_version_eq)
next
  fix s s' :: doc_db and t d t' d' :: string and u :: unit
  assume inv: "versions_inv s" and del: "delete_document t d s = Inr (u, s')"
  then have "tenant_pattern t" by (auto simp: delete_document_def check_identity_def)
  with del have s': "s' = s\<lparr>db_versions := filter (\<lambda>r. \<not> of_document t d r) (db_versions s),
      db_jobs := update_where (\<lambda>j. jr_tenant j = t \<and> jr_document_id j = d) fence_deleted (db_jobs s)\<rparr>"
    by (auto simp: delete_document_eq split: if_splits)
  show "versions_inv s' \<and> versions_of s' t' d' = (if t' = t \<and> d' = d then [] else versions_of s t' d')"
    unfolding s' by (simp only: versions_inv_delete [OF inv] versions_of_delete simp_thms)
next
  fix s t d i
  assume "versions_inv s" and "i < length (versions_of s t d)"
  then show "sv_version (versions_of s t d ! i) = i + 1" by (simp add: versions_of_versions)
qed

end
