(* ===== verification/Doc_Jobs.thy ===== *)
theory Doc_Jobs
  imports Doc_Store
begin

text \<open>
  The durable job table (\<open>ingestion/adapters/sqlite_document_jobs.py\<close>, with the contracts of
  \<open>ingestion/document_jobs.py\<close>): submission with idempotency keys, leased attempts, the atomic
  commit that appends a snapshot and records the outcome, failure, retry and publication. Every
  reading of \<open>time.time()\<close> and every \<open>uuid4()\<close> is an argument. The digests (SHA-256 of the
  idempotency key, SHA-256 of the operation with the request's canonical JSON) are parameters.
\<close>

section \<open>Receipts\<close>

record doc_job =
  dj_id :: string
  dj_tenant :: string
  dj_document_id :: string
  dj_operation :: job_operation
  dj_state :: job_state
  dj_version :: "nat option"
  dj_attempts :: nat
  dj_error :: "string option"
  dj_published :: bool
  dj_lease_active :: bool
  dj_available :: bool

record doc_submission =
  ds_job :: doc_job
  ds_replayed :: bool

record doc_claim =
  dc_job :: doc_job
  dc_request :: doc_request
  dc_options :: chunking_options
  dc_token :: string

text \<open>The field constraints of \<open>DocumentJob\<close> that its types do not carry.\<close>

definition valid_doc_job :: "doc_job \<Rightarrow> bool" where
  "valid_doc_job j \<longleftrightarrow> tenant_pattern (dj_tenant j) \<and>
     (case dj_version j of None \<Rightarrow> True | Some v \<Rightarrow> 1 \<le> v)"

text \<open>\<open>_job_row\<close>\<close>

definition find_job :: "doc_db \<Rightarrow> string \<Rightarrow> string \<Rightarrow> exn + job_row" where
  "find_job db jid t =
     (case select1 (\<lambda>j. jr_id j = jid \<and> jr_tenant j = t) (db_jobs db) of
        None \<Rightarrow> Inl Document_job_not_found
      | Some row \<Rightarrow> Inr row)"

text \<open>\<open>_job\<close>\<close>

definition view_job :: "doc_db \<Rightarrow> rat \<Rightarrow> job_row \<Rightarrow> exn + doc_job" where
  "view_job db now row =
     (let available = (case jr_version row of
            None \<Rightarrow> False
          | Some v \<Rightarrow> select1 (\<lambda>r. of_document (jr_tenant row) (jr_document_id row) r \<and> vr_version r = v)
                        (db_versions db) \<noteq> None);
          j = \<lparr>dj_id = jr_id row, dj_tenant = jr_tenant row, dj_document_id = jr_document_id row,
               dj_operation = jr_operation row, dj_state = jr_state row, dj_version = jr_version row,
               dj_attempts = jr_attempts row, dj_error = jr_error row, dj_published = jr_published row,
               dj_lease_active = (jr_state row = Job_running \<and>
                 (case jr_lease_until row of None \<Rightarrow> False | Some l \<Rightarrow> l > now)),
               dj_available = available\<rparr>
      in if valid_doc_job j then Inr j else Inl Validation_error)"

text \<open>\<open>row["lease_until"] > time.time()\<close>; comparing \<open>None\<close> with a float raises.\<close>

definition lease_live :: "job_row \<Rightarrow> rat \<Rightarrow> exn + bool" where
  "lease_live row now =
     (case jr_lease_until row of None \<Rightarrow> Inl Type_error | Some l \<Rightarrow> Inr (l > now))"

definition running_live :: "job_row \<Rightarrow> rat \<Rightarrow> exn + bool" where
  "running_live row now = (if jr_state row = Job_running then lease_live row now else Inr False)"

definition update_job :: "string \<Rightarrow> (job_row \<Rightarrow> job_row) \<Rightarrow> doc_db \<Rightarrow> doc_db" where
  "update_job jid f db = db\<lparr>db_jobs := update_where (\<lambda>j. jr_id j = jid) f (db_jobs db)\<rparr>"

section \<open>Operations\<close>

text \<open>\<open>re.fullmatch(r"[A-Za-z0-9._:-]{1,128}", key)\<close>\<close>

definition key_pattern :: "string \<Rightarrow> bool" where
  "key_pattern s \<longleftrightarrow> 1 \<le> length s \<and> length s \<le> 128 \<and>
     list_all (\<lambda>c. is_alpha c \<or> is_digit c \<or> c \<in> {CHR ''.'', CHR ''_'', CHR '':'', CHR ''-''}) s"

text \<open>\<open>model.model_validate(request)\<close> for the model the operation names.\<close>

definition validate_request :: "job_operation \<Rightarrow> doc_request \<Rightarrow> exn + doc_request" where
  "validate_request op r =
     (if (case (op, r) of
            (Op_create, Create_source c) \<Rightarrow> valid_ingestion_request c
          | (Op_update, Update_source u) \<Rightarrow> valid_update_request u
          | _ \<Rightarrow> False)
      then Inr r else Inl Validation_error)"

definition request_target :: "doc_request \<Rightarrow> string option" where
  "request_target r =
     (case r of Create_source _ \<Rightarrow> None | Update_source u \<Rightarrow> Some (ur_document_id u))"

text \<open>The row \<open>submit_job\<close> inserts; the columns it does not name take their defaults.\<close>

definition new_job_row ::
  "string \<Rightarrow> string \<Rightarrow> string \<Rightarrow> job_operation \<Rightarrow> string \<Rightarrow> string \<Rightarrow> doc_request \<Rightarrow>
   chunking_options \<Rightarrow> rat \<Rightarrow> job_row" where
  "new_job_row jid t document_id operation key_hash fingerprint request options now =
     \<lparr>jr_id = jid, jr_tenant = t, jr_document_id = document_id,
      jr_operation = operation, jr_key_hash = key_hash, jr_fingerprint = fingerprint,
      jr_payload = Some request, jr_options = options, jr_state = Job_queued,
      jr_version = None, jr_error = None, jr_attempts = 0, jr_token = None,
      jr_lease_until = None, jr_published = False, jr_created = now, jr_updated = now\<rparr>"

text \<open>\<open>submit_job\<close>\<close>

definition submit_job ::
  "(string \<Rightarrow> string) \<Rightarrow> (job_operation \<Rightarrow> doc_request \<Rightarrow> string) \<Rightarrow> string \<Rightarrow> doc_request \<Rightarrow>
   job_operation \<Rightarrow> chunking_options \<Rightarrow> string \<Rightarrow> string \<Rightarrow> string \<Rightarrow> rat \<Rightarrow> rat \<Rightarrow>
   (doc_db, exn, doc_submission) tx" where
  "submit_job key_digest request_digest t request operation options key new_document new_job now view_now db =
     bindR (requireR (key_pattern key) Value_error) (\<lambda>_.
     bindR (validate_request operation request) (\<lambda>request.
     let fingerprint = request_digest operation request;
         key_hash = key_digest key;
         document_id = (case request_target request of None \<Rightarrow> new_document | Some d \<Rightarrow> d)
     in bindR (check_identity t) (\<lambda>_.
        case select1 (\<lambda>j. jr_tenant j = t \<and> jr_key_hash j = key_hash) (db_jobs db) of
          Some row \<Rightarrow>
            if jr_fingerprint row \<noteq> fingerprint then Inl Document_job_conflict
            else bindR (view_job db view_now row) (\<lambda>j. Inr (\<lparr>ds_job = j, ds_replayed = True\<rparr>, db))
        | None \<Rightarrow>
            if list_ex (\<lambda>j. jr_id j = new_job) (db_jobs db) then Inl Sqlite_error
            else
              let db' = db\<lparr>db_jobs := db_jobs db @ 
                    [new_job_row new_job t document_id operation key_hash fingerprint request options now]\<rparr>
              in bindR (find_job db' new_job t) (\<lambda>row.
                 bindR (view_job db' view_now row) (\<lambda>j. Inr (\<lparr>ds_job = j, ds_replayed = False\<rparr>, db'))))))"

text \<open>\<open>get_job\<close>\<close>

definition get_job :: "string \<Rightarrow> string \<Rightarrow> rat \<Rightarrow> (doc_db, exn, doc_job) tx" where
  "get_job jid t now db =
     bindR (find_job db jid t) (\<lambda>row. bindR (view_job db now row) (\<lambda>j. Inr (j, db)))"

text \<open>\<open>claim_job\<close>: \<open>None\<close> when the job is over, or becomes so because its attempts are used up.\<close>

definition fail_at_limit :: "job_row \<Rightarrow> job_row" where
  "fail_at_limit j = j\<lparr>jr_state := Job_failed, jr_error := Some ''AttemptLimit'', jr_payload := None,
     jr_token := None, jr_lease_until := None\<rparr>"

definition start_attempt :: "string \<Rightarrow> rat \<Rightarrow> rat \<Rightarrow> job_row \<Rightarrow> job_row" where
  "start_attempt token until now j = j\<lparr>jr_state := Job_running, jr_attempts := jr_attempts j + 1,
     jr_token := Some token, jr_lease_until := Some until, jr_updated := now\<rparr>"

definition read_payload :: "job_row \<Rightarrow> exn + doc_request" where
  "read_payload row =
     (case jr_payload row of
        None \<Rightarrow> Inl Document_storage_corruption
      | Some r \<Rightarrow>
          if \<not> is_ok (validate_request (jr_operation row) r) \<or> \<not> valid_options (jr_options row)
          then Inl Document_storage_corruption
          else if (case request_target r of None \<Rightarrow> False | Some d \<Rightarrow> d \<noteq> jr_document_id row)
          then Inl Document_storage_corruption
          else Inr r)"

definition claim_job ::
  "doc_cfg \<Rightarrow> string \<Rightarrow> string \<Rightarrow> string \<Rightarrow> rat \<Rightarrow> rat \<Rightarrow> rat \<Rightarrow> rat \<Rightarrow>
   (doc_db, exn, doc_claim option) tx" where
  "claim_job cfg jid t token now lease_now update_now view_now db =
     bindR (find_job db jid t) (\<lambda>row.
     if jr_state row = Job_succeeded \<or> jr_state row = Job_failed then Inr (None, db)
     else bindR (running_live row now) (\<lambda>live.
     if live then Inl Document_job_conflict
     else if jr_attempts row \<ge> job_max_attempts cfg
     then Inr (None, update_job jid fail_at_limit db)
     else bindR (read_payload row) (\<lambda>request.
       let db' = update_job jid (start_attempt token (lease_now + job_lease_seconds cfg) update_now) db
       in bindR (find_job db' jid t) (\<lambda>row'.
          bindR (view_job db' view_now row') (\<lambda>j.
          Inr (Some \<lparr>dc_job = j, dc_request = request, dc_options = jr_options row, dc_token = token\<rparr>, db'))))))"

text \<open>\<open>commit_job\<close>: the checks on the record precede the transaction that fences, appends and succeeds.\<close>

definition succeed_attempt :: "nat \<Rightarrow> rat \<Rightarrow> job_row \<Rightarrow> job_row" where
  "succeed_attempt version now j = j\<lparr>jr_state := Job_succeeded, jr_version := Some version,
     jr_error := None, jr_payload := None, jr_token := None, jr_lease_until := None, jr_updated := now\<rparr>"

definition record_for_claim :: "doc_claim \<Rightarrow> stored_version \<Rightarrow> exn + stored_version" where
  "record_for_claim claim record =
     bindR (validate_stored record) (\<lambda>record.
     bindR (requireR (sv_tenant_id record = dj_tenant (dc_job claim)) Document_job_conflict) (\<lambda>_.
     bindR (if dj_operation (dc_job claim) = Op_create
            then validate_stored (record\<lparr>sv_document_id := dj_document_id (dc_job claim)\<rparr>)
            else if sv_document_id record \<noteq> dj_document_id (dc_job claim) then Inl Document_job_conflict
            else Inr record) (\<lambda>record.
     bindR (if dj_operation (dc_job claim) = Op_create then Inr 1
            else (case dc_request claim of
                    Update_source u \<Rightarrow> Inr (ur_expected_version u + 1)
                  | Create_source _ \<Rightarrow> Inl (Other_error ''AttributeError''))) (\<lambda>expected.
     if sv_version record \<noteq> expected then Inl Document_job_conflict else Inr record))))"

definition owned_attempt :: "doc_claim \<Rightarrow> job_row \<Rightarrow> rat \<Rightarrow> exn + unit" where
  "owned_attempt claim row now =
     (if jr_state row \<noteq> Job_running \<or> jr_token row \<noteq> Some (dc_token claim) then Inl Document_job_conflict
      else bindR (lease_live row now) (\<lambda>live. requireR live Document_job_conflict))"

definition commit_job ::
  "doc_claim \<Rightarrow> stored_version \<Rightarrow> rat \<Rightarrow> rat \<Rightarrow> (doc_db, exn, stored_version) tx" where
  "commit_job claim record now update_now db =
     bindR (record_for_claim claim record) (\<lambda>record.
     bindR (find_job db (dj_id (dc_job claim)) (dj_tenant (dc_job claim))) (\<lambda>row.
     bindR (owned_attempt claim row now) (\<lambda>_.
     bindR (append_version record db) (\<lambda>(_, db').
     Inr (record, update_job (dj_id (dc_job claim)) (succeed_attempt (sv_version record) update_now) db')))))"

text \<open>\<open>fail_job\<close>: no row is touched unless the claim still owns the attempt.\<close>

definition failure_code_pattern :: "string \<Rightarrow> bool" where
  "failure_code_pattern s \<longleftrightarrow>
     (case s of [] \<Rightarrow> False
      | c # r \<Rightarrow> is_alpha c \<and> length r \<le> 63 \<and> list_all (\<lambda>x. is_alpha x \<or> is_digit x \<or> x = CHR ''_'') r)"

definition fail_attempt :: "doc_cfg \<Rightarrow> string \<Rightarrow> rat \<Rightarrow> job_row \<Rightarrow> job_row" where
  "fail_attempt cfg code now j = j\<lparr>jr_state := Job_failed, jr_error := Some code,
     jr_payload := (if jr_attempts j \<ge> job_max_attempts cfg then None else jr_payload j),
     jr_token := None, jr_lease_until := None, jr_updated := now\<rparr>"

definition fail_job :: "doc_cfg \<Rightarrow> doc_claim \<Rightarrow> string \<Rightarrow> rat \<Rightarrow> (doc_db, exn, unit) tx" where
  "fail_job cfg claim code now db =
     (if \<not> failure_code_pattern code then Inl Value_error
      else Inr ((), db\<lparr>db_jobs := update_where
             (\<lambda>j. jr_id j = dj_id (dc_job claim) \<and> jr_tenant j = dj_tenant (dc_job claim) \<and>
                  jr_token j = Some (dc_token claim) \<and> jr_state j = Job_running)
             (fail_attempt cfg code now) (db_jobs db)\<rparr>))"

text \<open>\<open>retry_job\<close>\<close>

definition requeue :: "rat \<Rightarrow> job_row \<Rightarrow> job_row" where
  "requeue now j = j\<lparr>jr_state := Job_queued, jr_error := None, jr_token := None,
     jr_lease_until := None, jr_published := False, jr_updated := now\<rparr>"

definition retry_job ::
  "doc_cfg \<Rightarrow> string \<Rightarrow> string \<Rightarrow> rat \<Rightarrow> rat \<Rightarrow> rat \<Rightarrow> (doc_db, exn, doc_job) tx" where
  "retry_job cfg jid t now update_now view_now db =
     bindR (find_job db jid t) (\<lambda>row.
     if jr_state row = Job_queued then bindR (view_job db view_now row) (\<lambda>j. Inr (j, db))
     else if jr_state row = Job_succeeded then Inl Document_job_conflict
     else bindR (running_live row now) (\<lambda>live.
     if live \<or> jr_attempts row \<ge> job_max_attempts cfg \<or> jr_payload row = None
     then Inl Document_job_conflict
     else
       let db' = update_job jid (requeue update_now) db
       in bindR (find_job db' jid t) (\<lambda>row'. bindR (view_job db' view_now row') (\<lambda>j. Inr (j, db')))))"

text \<open>\<open>mark_job_published\<close>\<close>

definition mark_job_published :: "string \<Rightarrow> string \<Rightarrow> rat \<Rightarrow> (doc_db, exn, unit) tx" where
  "mark_job_published jid t now db =
     bindR (find_job db jid t) (\<lambda>_.
     Inr ((), update_job jid (\<lambda>j. j\<lparr>jr_published := True, jr_updated := now\<rparr>) db))"

section \<open>The table invariant\<close>

text \<open>
  What a row of each state holds: a queued job has its payload and nothing else, a running one a
  token and a lease, a succeeded one its version and no payload, a failed one its error code.
\<close>

definition job_ok :: "doc_cfg \<Rightarrow> job_row \<Rightarrow> bool" where
  "job_ok cfg j \<longleftrightarrow>
     tenant_pattern (jr_tenant j) \<and> jr_attempts j \<le> job_max_attempts cfg \<and>
     (jr_payload j \<noteq> None \<longrightarrow> is_ok (read_payload j)) \<and>
     (case jr_state j of
        Job_queued \<Rightarrow> jr_token j = None \<and> jr_lease_until j = None \<and> jr_version j = None \<and>
                      jr_error j = None \<and> jr_payload j \<noteq> None
      | Job_running \<Rightarrow> jr_token j \<noteq> None \<and> jr_lease_until j \<noteq> None \<and> jr_version j = None \<and>
                      jr_error j = None \<and> jr_payload j \<noteq> None \<and> 1 \<le> jr_attempts j
      | Job_succeeded \<Rightarrow> jr_token j = None \<and> jr_lease_until j = None \<and>
                      (\<exists>v. jr_version j = Some v \<and> 1 \<le> v) \<and> jr_error j = None \<and> jr_payload j = None
      | Job_failed \<Rightarrow> jr_token j = None \<and> jr_lease_until j = None \<and> jr_version j = None \<and>
                      jr_error j \<noteq> None)"

definition jobs_inv :: "doc_cfg \<Rightarrow> doc_db \<Rightarrow> bool" where
  "jobs_inv cfg db \<longleftrightarrow>
     distinct (map jr_id (db_jobs db)) \<and>
     distinct (map (\<lambda>j. (jr_tenant j, jr_key_hash j)) (db_jobs db)) \<and>
     (\<forall>j \<in> set (db_jobs db). job_ok cfg j)"

text \<open>A job that is over: nothing can make it run again.\<close>

definition job_over :: "job_row \<Rightarrow> bool" where
  "job_over j \<longleftrightarrow> jr_state j = Job_succeeded \<or> jr_state j = Job_failed \<and> jr_payload j = None"

definition keeps_key :: "(job_row \<Rightarrow> job_row) \<Rightarrow> bool" where
  "keeps_key f \<longleftrightarrow> (\<forall>j. jr_id (f j) = jr_id j \<and> jr_tenant (f j) = jr_tenant j \<and>
     jr_key_hash (f j) = jr_key_hash j \<and> jr_document_id (f j) = jr_document_id j \<and>
     jr_fingerprint (f j) = jr_fingerprint j)"

lemma keeps_keyD:
  assumes "keeps_key f"
  shows "jr_id (f j) = jr_id j" "jr_tenant (f j) = jr_tenant j" "jr_key_hash (f j) = jr_key_hash j"
    "jr_document_id (f j) = jr_document_id j" "jr_fingerprint (f j) = jr_fingerprint j"
  using assms by (auto simp: keeps_key_def)

lemma keeps_key [row_simps]:
  "keeps_key fence_deleted" "keeps_key fail_at_limit" "keeps_key (start_attempt tok l n)"
  "keeps_key (succeed_attempt v n)" "keeps_key (fail_attempt cfg c n)" "keeps_key (requeue n)"
  "keeps_key (\<lambda>j. j\<lparr>jr_published := b, jr_updated := n\<rparr>)"
  by (simp_all add: keeps_key_def fence_deleted_def fail_at_limit_def start_attempt_def
      succeed_attempt_def fail_attempt_def requeue_def)

lemma find_job_InrD:
  "find_job db jid t = Inr row \<Longrightarrow> row \<in> set (db_jobs db) \<and> jr_id row = jid \<and> jr_tenant row = t"
  by (auto simp: find_job_def split: option.splits dest: select1_SomeD)

lemma find_job_Inl: "find_job db jid t = Inl e \<Longrightarrow> e = Document_job_not_found"
  by (auto simp: find_job_def split: option.splits)

lemma find_job_row:
  assumes "distinct (map jr_id (db_jobs db))" and "row \<in> set (db_jobs db)"
  shows "find_job db (jr_id row) (jr_tenant row) = Inr row"
proof -
  have "select1 (\<lambda>j. jr_id j = jr_id row \<and> jr_tenant j = jr_tenant row) (db_jobs db) = Some row"
    by (rule select1_unique [where k = jr_id]) (use assms in auto)
  then show ?thesis by (simp add: find_job_def)
qed

lemma find_job_update:
  assumes "keeps_key f"
  shows "find_job (update_job jid f db) jid' t =
    bindR (find_job db jid' t) (\<lambda>row. Inr (if jid' = jid then f row else row))"
proof -
  have "select1 (\<lambda>j. jr_id j = jid' \<and> jr_tenant j = t) (update_where (\<lambda>j. jr_id j = jid) f (db_jobs db))
     = map_option (\<lambda>j. if jr_id j = jid then f j else j)
         (select1 (\<lambda>j. jr_id j = jid' \<and> jr_tenant j = t) (db_jobs db))"
    using assms by (intro select1_update_where) (simp add: keeps_keyD)
  then show ?thesis
    by (auto simp: find_job_def update_job_def split: option.splits dest: select1_SomeD)
qed

lemma update_job_versions [simp]: "db_versions (update_job jid f db) = db_versions db"
  by (simp add: update_job_def)

lemma view_job_versions [simp]: "view_job (update_job jid f db) now = view_job db now"
  by (rule ext) (simp add: view_job_def cong: option.case_cong)

lemma jobs_inv_rows:
  assumes "jobs_inv cfg db" and "keeps_key f"
    and "\<And>j. j \<in> set (db_jobs db) \<Longrightarrow> p j \<Longrightarrow> job_ok cfg (f j)"
  shows "jobs_inv cfg (db\<lparr>db_jobs := update_where p f (db_jobs db)\<rparr>)"
proof -
  have "map jr_id (update_where p f (db_jobs db)) = map jr_id (db_jobs db)"
    and "map (\<lambda>j. (jr_tenant j, jr_key_hash j)) (update_where p f (db_jobs db))
        = map (\<lambda>j. (jr_tenant j, jr_key_hash j)) (db_jobs db)"
    by (intro map_update_where; simp add: keeps_keyD [OF assms(2)])+
  with assms(1,3) show ?thesis by (auto simp: jobs_inv_def dest!: set_update_where)
qed

lemma jobs_inv_update:
  assumes inv: "jobs_inv cfg db" and row: "find_job db jid t = Inr row" and f: "keeps_key f"
    and ok: "job_ok cfg (f row)"
  shows "jobs_inv cfg (update_job jid f db)"
proof -
  have "j = row" if "j \<in> set (db_jobs db)" and "jr_id j = jid" for j
    using inv find_job_InrD [OF row] that by (auto simp: jobs_inv_def distinct_map dest: inj_onD)
  with ok show ?thesis unfolding update_job_def by (intro jobs_inv_rows [OF inv f]) metis
qed

lemma job_ok_row: "jobs_inv cfg db \<Longrightarrow> find_job db jid t = Inr row \<Longrightarrow> job_ok cfg row"
  by (auto simp: jobs_inv_def dest: find_job_InrD)

lemma jobs_inv_versions [simp]: "jobs_inv cfg (db\<lparr>db_versions := vs\<rparr>) = jobs_inv cfg db"
  by (simp add: jobs_inv_def)

text \<open>Under the invariant a row's view is always a valid receipt, and its lease comparison is defined.\<close>

lemma view_job_ok: "job_ok cfg row \<Longrightarrow> \<exists>j. view_job db now row = Inr j \<and> dj_id j = jr_id row \<and>
    dj_tenant j = jr_tenant row \<and> dj_document_id j = jr_document_id row \<and>
    dj_operation j = jr_operation row \<and> dj_state j = jr_state row \<and> dj_version j = jr_version row"
  by (auto simp: job_ok_def view_job_def valid_doc_job_def Let_def split: job_state.splits option.splits)

lemma view_job_InrD: "view_job db now row = Inr j \<Longrightarrow> dj_id j = jr_id row \<and>
    dj_tenant j = jr_tenant row \<and> dj_document_id j = jr_document_id row \<and>
    dj_operation j = jr_operation row \<and> dj_state j = jr_state row \<and> dj_version j = jr_version row \<and>
    dj_attempts j = jr_attempts row"
  by (auto simp: view_job_def Let_def split: if_splits)

lemma running_live_ok:
  "job_ok cfg row \<Longrightarrow> \<exists>b. running_live row now = Inr b"
  by (auto simp: job_ok_def running_live_def lease_live_def split: job_state.splits option.splits)

section \<open>Every operation keeps the invariant\<close>

lemma read_payload_frame [row_simps]:
  "read_payload (start_attempt tok l n j) = read_payload j"
  "read_payload (requeue n j) = read_payload j"
  "read_payload (j\<lparr>jr_published := b, jr_updated := n\<rparr>) = read_payload j"
  by (simp_all add: read_payload_def start_attempt_def requeue_def split: option.split)

lemma job_ok_start:
  "job_ok cfg j \<Longrightarrow> jr_state j = Job_queued \<or> jr_state j = Job_running \<Longrightarrow>
     jr_attempts j < job_max_attempts cfg \<Longrightarrow> job_ok cfg (start_attempt tok l n j)"
  by (auto simp: job_ok_def row_simps) (auto simp: start_attempt_def)

lemma job_ok_limit: "job_ok cfg j \<Longrightarrow> jr_state j = Job_queued \<or> jr_state j = Job_running \<Longrightarrow>
    job_ok cfg (fail_at_limit j)"
  by (auto simp: job_ok_def fail_at_limit_def)

lemma job_ok_succeed: "job_ok cfg j \<Longrightarrow> 1 \<le> v \<Longrightarrow> job_ok cfg (succeed_attempt v n j)"
  by (auto simp: job_ok_def succeed_attempt_def)

lemma job_ok_fail: "job_ok cfg j \<Longrightarrow> jr_state j = Job_running \<Longrightarrow> job_ok cfg (fail_attempt cfg c n j)"
  by (auto simp: job_ok_def fail_attempt_def read_payload_def split: option.splits)

lemma job_ok_requeue:
  "job_ok cfg j \<Longrightarrow> jr_state j \<noteq> Job_succeeded \<Longrightarrow> jr_payload j \<noteq> None \<Longrightarrow> job_ok cfg (requeue n j)"
  by (auto simp: job_ok_def row_simps split: job_state.splits) (auto simp: requeue_def)

lemma job_ok_publish: "job_ok cfg j \<Longrightarrow> job_ok cfg (j\<lparr>jr_published := b, jr_updated := n\<rparr>)"
  by (auto simp: job_ok_def row_simps split: job_state.splits)

lemma job_ok_fence: "job_ok cfg j \<Longrightarrow> job_ok cfg (fence_deleted j)"
  by (auto simp: job_ok_def fence_deleted_def split: job_state.splits)

lemma claim_job_SomeD:
  assumes "jobs_inv cfg db" and "claim_job cfg jid t tok now ls un vn db = Inr (Some c, db')"
  shows "\<exists>row. find_job db jid t = Inr row \<and> (jr_state row = Job_queued \<or> jr_state row = Job_running) \<and>
     running_live row now = Inr False \<and> jr_attempts row < job_max_attempts cfg \<and>
     db' = update_job jid (start_attempt tok (ls + job_lease_seconds cfg) un) db \<and>
     dc_token c = tok \<and> dj_id (dc_job c) = jid \<and> dj_tenant (dc_job c) = t \<and>
     dj_document_id (dc_job c) = jr_document_id row \<and> dj_operation (dc_job c) = jr_operation row \<and>
     read_payload row = Inr (dc_request c) \<and> dc_options c = jr_options row"
proof -
  obtain row where row: "find_job db jid t = Inr row"
    using assms(2) by (cases "find_job db jid t") (auto simp: claim_job_def)
  have st: "jr_state row \<noteq> Job_succeeded" "jr_state row \<noteq> Job_failed"
    using assms(2) row by (auto simp: claim_job_def split: if_splits)
  from assms(2) row st find_job_InrD [OF row] show ?thesis
    by (auto simp: claim_job_def Let_def find_job_update row_simps start_attempt_def
        split: if_splits dest!: view_job_InrD) (metis job_state.exhaust)+
qed

text \<open>The invariant of the whole database.\<close>

definition doc_inv :: "doc_cfg \<Rightarrow> doc_db \<Rightarrow> bool" where
  "doc_inv cfg db \<longleftrightarrow> versions_inv db \<and> jobs_inv cfg db"

lemma versions_inv_update_job [simp]: "versions_inv (update_job jid f db) = versions_inv db"
  by (simp add: update_job_def)

lemma versions_of_update_job [simp]: "versions_of (update_job jid f db) t d = versions_of db t d"
  by (simp add: update_job_def)

lemma latest_version_update_job [simp]: "latest_version (update_job jid f db) t d = latest_version db t d"
  by (simp add: latest_version_def)

lemma append_version_InrD:
  assumes "versions_inv db" and "valid_stored r" and "append_version r db = Inr (u, db')"
  shows "versions_inv db' \<and> db_jobs db' = db_jobs db \<and>
     sv_version r = length (versions_of db (sv_tenant_id r) (sv_document_id r)) + 1 \<and>
     (\<exists>vs. db' = db\<lparr>db_versions := vs\<rparr>) \<and>
     versions_of db' t d = versions_of db t d @ (if t = sv_tenant_id r \<and> d = sv_document_id r then [r] else [])"
proof -
  have "sv_version r = length (versions_of db (sv_tenant_id r) (sv_document_id r)) + 1"
    and db': "db' = db\<lparr>db_versions := db_versions db @
            [\<lparr>vr_tenant = sv_tenant_id r, vr_document_id = sv_document_id r,
              vr_version = sv_version r, vr_snapshot = Some r\<rparr>]\<rparr>"
    using assms(3) latest_version_eq [OF assms(1)]
    by (auto simp: append_version_def Let_def split: if_splits)
  with versions_inv_append [OF assms(1,2)] show ?thesis
    by (auto simp: versions_of_append of_document_def)
qed

lemma record_for_claim_InrD:
  assumes "record_for_claim c r = Inr r'"
  shows "valid_stored r' \<and> sv_tenant_id r' = dj_tenant (dc_job c) \<and>
     sv_document_id r' = dj_document_id (dc_job c) \<and> sv_document r' = sv_document r \<and>
     sv_chunking r' = sv_chunking r \<and> sv_version r' = sv_version r \<and>
     (dj_operation (dc_job c) = Op_create \<longrightarrow> sv_version r = 1) \<and>
     (dj_operation (dc_job c) = Op_update \<longrightarrow>
        (\<exists>u. dc_request c = Update_source u \<and> sv_version r = ur_expected_version u + 1))"
  using assms
  by (cases "dj_operation (dc_job c)")
    (auto simp: record_for_claim_def validate_stored_def split: if_splits doc_request.splits)

lemma owned_attempt_InrD:
  "owned_attempt c row now = Inr u \<Longrightarrow> jr_state row = Job_running \<and> jr_token row = Some (dc_token c) \<and>
     (\<exists>l. jr_lease_until row = Some l \<and> now < l)"
  by (auto simp: owned_attempt_def lease_live_def split: if_splits option.splits)

text \<open>What a commit does, in one step: fence, append, succeed.\<close>

lemma commit_job_InrD:
  assumes inv: "doc_inv cfg db" and ok: "commit_job c r now un db = Inr (r', db')"
  obtains row db1 where "record_for_claim c r = Inr r'"
    and "find_job db (dj_id (dc_job c)) (dj_tenant (dc_job c)) = Inr row"
    and "jr_state row = Job_running" and "jr_token row = Some (dc_token c)"
    and "append_version r' db = Inr ((), db1)"
    and "db' = update_job (dj_id (dc_job c)) (succeed_attempt (sv_version r') un) db1"
  using ok by (auto simp: commit_job_def dest!: owned_attempt_InrD)

lemma doc_inv_commit:
  assumes inv: "doc_inv cfg db" and ok: "commit_job c r now un db = Inr (r', db')"
  shows "doc_inv cfg db'"
proof -
  obtain row db1 where r': "record_for_claim c r = Inr r'"
    and row: "find_job db (dj_id (dc_job c)) (dj_tenant (dc_job c)) = Inr row"
    and app: "append_version r' db = Inr ((), db1)"
    and db': "db' = update_job (dj_id (dc_job c)) (succeed_attempt (sv_version r') un) db1"
    by (rule commit_job_InrD [OF inv ok])
  have v: "valid_stored r'" using record_for_claim_InrD [OF r'] by simp
  then have "1 \<le> sv_version r'" by (simp add: valid_stored_def)
  have db1: "versions_inv db1" "db_jobs db1 = db_jobs db" "\<exists>vs. db1 = db\<lparr>db_versions := vs\<rparr>"
    using append_version_InrD [OF _ v app] inv by (simp_all add: doc_inv_def)
  then have "jobs_inv cfg db1" using inv by (auto simp: doc_inv_def)
  moreover have "find_job db1 (dj_id (dc_job c)) (dj_tenant (dc_job c)) = Inr row"
    using row db1(2) by (simp add: find_job_def)
  ultimately have "jobs_inv cfg db'"
    unfolding db' using \<open>1 \<le> sv_version r'\<close>
    by (intro jobs_inv_update job_ok_succeed) (auto simp: row_simps intro: job_ok_row)
  with db1 db' show ?thesis by (simp add: doc_inv_def)
qed

lemma doc_inv_claim:
  assumes inv: "doc_inv cfg db" and ok: "claim_job cfg jid t tok now ls un vn db = Inr (c, db')"
  shows "doc_inv cfg db'"
proof (cases c)
  case (Some k)
  from claim_job_SomeD [of cfg db jid t tok now ls un vn k db'] inv ok Some
  obtain row where row: "find_job db jid t = Inr row"
    and "jr_state row = Job_queued \<or> jr_state row = Job_running"
    and "jr_attempts row < job_max_attempts cfg"
    and "db' = update_job jid (start_attempt tok (ls + job_lease_seconds cfg) un) db"
    by (auto simp: doc_inv_def)
  with inv show ?thesis
    by (auto simp: doc_inv_def row_simps intro!: jobs_inv_update [OF _ row] job_ok_start
        dest: job_ok_row [OF _ row])
next
  case None
  obtain row where row: "find_job db jid t = Inr row"
    using ok by (cases "find_job db jid t") (auto simp: claim_job_def)
  then consider "db' = db" | "jr_state row = Job_queued \<or> jr_state row = Job_running"
      "db' = update_job jid fail_at_limit db"
    using ok None by (cases "jr_state row") (auto simp: claim_job_def Let_def split: if_splits)
  then show ?thesis
  proof cases
    case 2
    with inv show ?thesis
      by (auto simp: doc_inv_def row_simps intro!: jobs_inv_update [OF _ row] job_ok_limit
        dest: job_ok_row [OF _ row])
  qed (use inv in simp)
qed

lemma doc_inv_fail:
  assumes inv: "doc_inv cfg db" and ok: "fail_job cfg c code now db = Inr (u, db')"
  shows "doc_inv cfg db'"
proof -
  have db': "db' = db\<lparr>db_jobs := update_where
             (\<lambda>j. jr_id j = dj_id (dc_job c) \<and> jr_tenant j = dj_tenant (dc_job c) \<and>
                  jr_token j = Some (dc_token c) \<and> jr_state j = Job_running)
             (fail_attempt cfg code now) (db_jobs db)\<rparr>"
    using ok by (auto simp: fail_job_def split: if_splits)
  have "jobs_inv cfg db'"
    unfolding db' using inv
    by (intro jobs_inv_rows) (auto simp: row_simps doc_inv_def jobs_inv_def intro: job_ok_fail)
  with inv db' show ?thesis by (simp add: doc_inv_def)
qed

lemma doc_inv_retry:
  assumes inv: "doc_inv cfg db" and ok: "retry_job cfg jid t now un vn db = Inr (j, db')"
  shows "doc_inv cfg db'"
proof -
  obtain row where row: "find_job db jid t = Inr row"
    using ok by (cases "find_job db jid t") (auto simp: retry_job_def)
  then consider "db' = db" | "jr_state row \<noteq> Job_succeeded" "jr_payload row \<noteq> None"
      "db' = update_job jid (requeue un) db"
    using ok by (auto simp: retry_job_def Let_def split: if_splits)
  then show ?thesis
  proof cases
    case 2
    with inv show ?thesis
      by (auto simp: doc_inv_def row_simps intro!: jobs_inv_update [OF _ row] job_ok_requeue
          dest: job_ok_row [OF _ row])
  qed (use inv in simp)
qed

lemma doc_inv_publish:
  assumes inv: "doc_inv cfg db" and ok: "mark_job_published jid t now db = Inr (u, db')"
  shows "doc_inv cfg db'"
proof -
  obtain row where row: "find_job db jid t = Inr row"
    and db': "db' = update_job jid (\<lambda>j. j\<lparr>jr_published := True, jr_updated := now\<rparr>) db"
    using ok by (auto simp: mark_job_published_def)
  with inv show ?thesis
    by (auto simp: doc_inv_def row_simps intro!: jobs_inv_update [OF _ row] job_ok_publish
        dest: job_ok_row [OF _ row])
qed

lemma doc_inv_delete:
  assumes inv: "doc_inv cfg db" and ok: "delete_document t d db = Inr (u, db')"
  shows "doc_inv cfg db'"
proof -
  have db': "db' = db\<lparr>
       db_versions := filter (\<lambda>r. \<not> of_document t d r) (db_versions db),
       db_jobs := update_where (\<lambda>j. jr_tenant j = t \<and> jr_document_id j = d) fence_deleted (db_jobs db)\<rparr>"
    using ok by (auto simp: delete_document_def split: if_splits)
  have "jobs_inv cfg (db\<lparr>db_jobs :=
      update_where (\<lambda>j. jr_tenant j = t \<and> jr_document_id j = d) fence_deleted (db_jobs db)\<rparr>)"
    using inv by (intro jobs_inv_rows) (auto simp: row_simps doc_inv_def jobs_inv_def intro: job_ok_fence)
  then have "jobs_inv cfg db'" unfolding db' by (simp add: jobs_inv_def)
  moreover have "versions_inv db'" unfolding db' using inv
    by (intro versions_inv_delete) (simp add: doc_inv_def)
  ultimately show ?thesis by (simp add: doc_inv_def)
qed

lemma doc_inv_create:
  assumes inv: "doc_inv cfg db" and ok: "create_version r db = Inr (r', db')"
  shows "doc_inv cfg db'"
proof -
  have "valid_stored r" and app: "append_version r db = Inr ((), db')"
    using ok by (auto simp: create_version_def validate_stored_def split: if_splits)
  from append_version_InrD [OF _ this] inv have "versions_inv db'" "\<exists>vs. db' = db\<lparr>db_versions := vs\<rparr>"
    by (auto simp: doc_inv_def)
  with inv show ?thesis by (auto simp: doc_inv_def)
qed

lemma submit_job_InrD:
  assumes "submit_job kd rd t req op opts key nd nj now vn db = Inr (s, db')"
  defines "row0 \<equiv> new_job_row nj t (case request_target req of None \<Rightarrow> nd | Some d \<Rightarrow> d) op (kd key)
      (rd op req) req opts now"
  shows "key_pattern key \<and> validate_request op req = Inr req \<and> tenant_pattern t"
    and "(\<exists>row. select1 (\<lambda>j. jr_tenant j = t \<and> jr_key_hash j = kd key) (db_jobs db) = Some row \<and>
             jr_fingerprint row = rd op req \<and> db' = db \<and> view_job db vn row = Inr (ds_job s)) \<or>
         select1 (\<lambda>j. jr_tenant j = t \<and> jr_key_hash j = kd key) (db_jobs db) = None \<and>
           (\<forall>j \<in> set (db_jobs db). jr_id j \<noteq> nj) \<and>
           db' = db\<lparr>db_jobs := db_jobs db @ [row0]\<rparr> \<and>
           (\<exists>row. find_job db' nj t = Inr row \<and> view_job db' vn row = Inr (ds_job s))"
proof -
  have "\<exists>r. validate_request op req = Inr r" using assms(1) by (auto simp: submit_job_def)
  then have req: "validate_request op req = Inr req" by (auto simp: validate_request_def split: if_splits)
  show "key_pattern key \<and> validate_request op req = Inr req \<and> tenant_pattern t"
    using assms(1) by (auto simp: submit_job_def check_identity_def Let_def req)
  show "(\<exists>row. select1 (\<lambda>j. jr_tenant j = t \<and> jr_key_hash j = kd key) (db_jobs db) = Some row \<and>
             jr_fingerprint row = rd op req \<and> db' = db \<and> view_job db vn row = Inr (ds_job s)) \<or>
         select1 (\<lambda>j. jr_tenant j = t \<and> jr_key_hash j = kd key) (db_jobs db) = None \<and>
           (\<forall>j \<in> set (db_jobs db). jr_id j \<noteq> nj) \<and>
           db' = db\<lparr>db_jobs := db_jobs db @ [row0]\<rparr> \<and>
           (\<exists>row. find_job db' nj t = Inr row \<and> view_job db' vn row = Inr (ds_job s))"
    using assms(1) unfolding row0_def
    by (auto simp: submit_job_def Let_def list_ex_iff req split: if_splits option.splits)
qed

lemma doc_inv_submit:
  assumes inv: "doc_inv cfg db" and opts: "valid_options opts"
    and ok: "submit_job kd rd t req op opts key nd nj now vn db = Inr (s, db')"
  shows "doc_inv cfg db'"
  using submit_job_InrD(2) [OF ok]
proof (elim disjE conjE exE)
  let ?row = "new_job_row nj t (case request_target req of None \<Rightarrow> nd | Some d \<Rightarrow> d) op (kd key)
      (rd op req) req opts now"
  assume key: "select1 (\<lambda>j. jr_tenant j = t \<and> jr_key_hash j = kd key) (db_jobs db) = None"
    and new: "\<forall>j \<in> set (db_jobs db). jr_id j \<noteq> nj" and db': "db' = db\<lparr>db_jobs := db_jobs db @ [?row]\<rparr>"
  have "job_ok cfg ?row"
    using submit_job_InrD(1) [OF ok] opts
    by (simp add: job_ok_def new_job_row_def read_payload_def split: option.split)
  moreover have "distinct (map jr_id (db_jobs db @ [?row]))"
    using new inv by (auto simp: new_job_row_def doc_inv_def jobs_inv_def)
  moreover have "distinct (map (\<lambda>j. (jr_tenant j, jr_key_hash j)) (db_jobs db @ [?row]))"
    using key inv by (auto simp: select1_None_iff new_job_row_def doc_inv_def jobs_inv_def)
  ultimately show ?thesis using inv db' by (auto simp: doc_inv_def jobs_inv_def)
qed (use inv in simp)

section \<open>Traces\<close>

text \<open>
  The operations as labelled steps, in any order and by any number of processes: each is one
  transaction. An operation that raises leaves the database as it is and is no step. The claim
  passed to \<open>commit_job\<close> and \<open>fail_job\<close> is arbitrary, so stale and forged claims are covered.
\<close>

datatype job_event = Ev_claimed string string | Ev_committed string string | Ev_other

inductive job_step ::
  "doc_cfg \<Rightarrow> (string \<Rightarrow> string) \<Rightarrow> (job_operation \<Rightarrow> doc_request \<Rightarrow> string) \<Rightarrow> doc_db \<Rightarrow> job_event \<Rightarrow> doc_db \<Rightarrow> bool"
  for cfg kd rd where
  step_submit: "submit_job kd rd t req op opts key nd nj now vn db = Inr (s, db') \<Longrightarrow> valid_options opts \<Longrightarrow>
     job_step cfg kd rd db Ev_other db'"
| step_claim: "claim_job cfg jid t tok now ls un vn db = Inr (Some c, db') \<Longrightarrow>
     job_step cfg kd rd db (Ev_claimed jid tok) db'"
| step_claim_none: "claim_job cfg jid t tok now ls un vn db = Inr (None, db') \<Longrightarrow>
     job_step cfg kd rd db Ev_other db'"
| step_commit: "commit_job c r now un db = Inr (r', db') \<Longrightarrow>
     job_step cfg kd rd db (Ev_committed (dj_id (dc_job c)) (dc_token c)) db'"
| step_fail: "fail_job cfg c code now db = Inr (u, db') \<Longrightarrow> job_step cfg kd rd db Ev_other db'"
| step_retry: "retry_job cfg jid t now un vn db = Inr (j, db') \<Longrightarrow> job_step cfg kd rd db Ev_other db'"
| step_publish: "mark_job_published jid t now db = Inr (u, db') \<Longrightarrow> job_step cfg kd rd db Ev_other db'"
| step_delete: "delete_document t d db = Inr (u, db') \<Longrightarrow> job_step cfg kd rd db Ev_other db'"
| step_create: "create_version r db = Inr (r', db') \<Longrightarrow> job_step cfg kd rd db Ev_other db'"

inductive job_trace ::
  "doc_cfg \<Rightarrow> (string \<Rightarrow> string) \<Rightarrow> (job_operation \<Rightarrow> doc_request \<Rightarrow> string) \<Rightarrow> doc_db \<Rightarrow> job_event list \<Rightarrow> doc_db \<Rightarrow> bool"
  for cfg kd rd where
  trace_start: "job_trace cfg kd rd db [] db"
| trace_step: "job_trace cfg kd rd db evs db1 \<Longrightarrow> job_step cfg kd rd db1 e db2 \<Longrightarrow>
     job_trace cfg kd rd db (evs @ [e]) db2"

lemma job_step_inv: "job_step cfg kd rd db e db' \<Longrightarrow> doc_inv cfg db \<Longrightarrow> doc_inv cfg db'"
  by (induction rule: job_step.induct)
    (blast intro: doc_inv_submit doc_inv_claim doc_inv_commit doc_inv_fail doc_inv_retry
      doc_inv_publish doc_inv_delete doc_inv_create)+

lemma job_trace_inv: "job_trace cfg kd rd db evs db' \<Longrightarrow> doc_inv cfg db \<Longrightarrow> doc_inv cfg db'"
  by (induction rule: job_trace.induct) (auto intro: job_step_inv)

lemma doc_inv_empty [simp]: "doc_inv cfg empty_doc_db"
  by (simp add: doc_inv_def jobs_inv_def empty_doc_db_def versions_inv_def)

text \<open>How one step may change the row with a given job identifier.\<close>

definition row_of :: "doc_db \<Rightarrow> string \<Rightarrow> job_row option" where
  "row_of db jid = select1 (\<lambda>j. jr_id j = jid) (db_jobs db)"

definition same_key :: "job_row \<Rightarrow> job_row \<Rightarrow> bool" where
  "same_key j j' \<longleftrightarrow> jr_id j' = jr_id j \<and> jr_tenant j' = jr_tenant j \<and> jr_key_hash j' = jr_key_hash j \<and>
     jr_document_id j' = jr_document_id j \<and> jr_fingerprint j' = jr_fingerprint j"

definition row_next :: "job_event \<Rightarrow> string \<Rightarrow> job_row option \<Rightarrow> job_row option \<Rightarrow> bool" where
  "row_next e jid r r' \<longleftrightarrow>
     (case r of
        None \<Rightarrow> (\<forall>tok. e \<noteq> Ev_claimed jid tok \<and> e \<noteq> Ev_committed jid tok) \<and>
                (case r' of None \<Rightarrow> True | Some j' \<Rightarrow> jr_token j' = None \<and> jr_attempts j' = 0)
      | Some j \<Rightarrow>
          (case r' of
             None \<Rightarrow> False
           | Some j' \<Rightarrow> same_key j j' \<and> (job_over j \<longrightarrow> job_over j' \<and> jr_state j' = jr_state j) \<and>
               (\<forall>tok. e = Ev_claimed jid tok \<longrightarrow>
                  \<not> job_over j \<and> jr_token j' = Some tok \<and> jr_attempts j' = jr_attempts j + 1) \<and>
               (\<forall>tok. e = Ev_committed jid tok \<longrightarrow>
                  jr_state j = Job_running \<and> jr_token j = Some tok \<and> jr_state j' = Job_succeeded) \<and>
               ((\<forall>tok. e \<noteq> Ev_claimed jid tok) \<longrightarrow>
                  (jr_token j' = jr_token j \<or> jr_token j' = None) \<and> jr_attempts j' = jr_attempts j)))"

lemma row_next_other_refl: "row_next Ev_other jid r r \<longleftrightarrow> (case r of None \<Rightarrow> True | Some _ \<Rightarrow> True)"
  by (simp add: row_next_def same_key_def split: option.split)

lemma row_of_update:
  assumes "keeps_key f"
  shows "row_of (update_job jid f db) jid' = map_option (\<lambda>j. if jid' = jid then f j else j) (row_of db jid')"
proof -
  have "row_of (update_job jid f db) jid' = map_option (\<lambda>j. if jr_id j = jid then f j else j) (row_of db jid')"
    unfolding row_of_def update_job_def
    by (simp, intro select1_update_where) (simp add: keeps_keyD [OF assms])
  moreover have "row_of db jid' = Some j \<Longrightarrow> jr_id j = jid'" for j
    by (auto simp: row_of_def dest: select1_SomeD)
  ultimately show ?thesis by (cases "row_of db jid'") auto
qed

lemma row_of_where:
  assumes "keeps_key f"
  shows "row_of (db\<lparr>db_jobs := update_where p f (db_jobs db)\<rparr>) jid
     = map_option (\<lambda>j. if p j then f j else j) (row_of db jid)"
  unfolding row_of_def by (simp, intro select1_update_where) (simp add: keeps_keyD [OF assms])

lemma row_of_versions [simp]: "row_of (db\<lparr>db_versions := vs\<rparr>) jid = row_of db jid"
  by (simp add: row_of_def)

lemma row_of_find:
  assumes "jobs_inv cfg db" and "find_job db jid t = Inr row"
  shows "row_of db jid = Some row"
proof -
  have "row \<in> set (db_jobs db) \<and> jr_id row = jid" using find_job_InrD [OF assms(2)] by simp
  then show ?thesis unfolding row_of_def
    using assms(1) by (intro select1_unique [where k = jr_id]) (auto simp: jobs_inv_def)
qed

lemma row_next_refl: "row_next Ev_other jid r r"
  by (auto simp: row_next_def same_key_def split: option.split)

lemma row_next_map:
  assumes "\<And>j. r = Some j \<Longrightarrow> row_next Ev_other jid (Some j) (Some (g j))"
  shows "row_next Ev_other jid r (map_option g r)"
  using assms by (cases r) (auto simp: row_next_def)

lemma row_next_other:
  assumes "keeps_key f" and "\<And>j. p j \<Longrightarrow> jr_token (f j) = None \<or> jr_token (f j) = jr_token j"
    and "\<And>j. p j \<Longrightarrow> jr_attempts (f j) = jr_attempts j"
    and "\<And>j. p j \<Longrightarrow> job_over j \<Longrightarrow> job_over (f j) \<and> jr_state (f j) = jr_state j"
  shows "row_next Ev_other jid (Some j) (Some (if p j then f j else j))"
  using assms(2-4) [of j] keeps_keyD [OF assms(1), of j]
  by (cases "p j") (simp_all add: row_next_def same_key_def disj_commute)

lemma job_over_updates [row_simps]:
  "job_over j \<Longrightarrow> job_over (fence_deleted j)" "job_over j \<Longrightarrow> jr_state (fence_deleted j) = jr_state j"
  "job_over (j\<lparr>jr_published := b, jr_updated := n\<rparr>) = job_over j"
  by (auto simp: job_over_def fence_deleted_def)

lemma row_of_delete:
  assumes "delete_document t d db = Inr (u, db')"
  shows "row_of db' jid =
    map_option (\<lambda>j. if jr_tenant j = t \<and> jr_document_id j = d then fence_deleted j else j) (row_of db jid)"
proof -
  have "row_of db' jid = row_of (db\<lparr>db_jobs := update_where (\<lambda>j. jr_tenant j = t \<and> jr_document_id j = d)
      fence_deleted (db_jobs db)\<rparr>) jid"
    using assms by (auto simp: delete_document_def row_of_def split: if_splits)
  then show ?thesis by (simp only: row_of_where [OF keeps_key(1)])
qed

lemma job_step_row:
  assumes "job_step cfg kd rd db e db'" and inv: "doc_inv cfg db"
  shows "row_next e jid (row_of db jid) (row_of db' jid)"
  using assms(1)
proof cases
  case (step_submit t req op opts key nd nj now vn s)
  from submit_job_InrD(2) [OF step_submit(2)] show ?thesis
    unfolding step_submit(1)
  proof (elim disjE conjE exE)
    let ?row = "new_job_row nj t (case request_target req of None \<Rightarrow> nd | Some d \<Rightarrow> d) op (kd key)
      (rd op req) req opts now"
    assume db': "db' = db\<lparr>db_jobs := db_jobs db @ [?row]\<rparr>"
    have "row_of db' jid = (case row_of db jid of Some j \<Rightarrow> Some j | None \<Rightarrow> if jid = nj then Some ?row else None)"
      by (simp add: db' row_of_def select1_append new_job_row_def split: option.split)
    then show "row_next Ev_other jid (row_of db jid) (row_of db' jid)"
      by (auto simp: row_next_def same_key_def new_job_row_def split: option.split)
  qed (simp add: row_next_refl)
next
  case (step_claim jid' t tok now ls un vn c)
  have ji: "jobs_inv cfg db" using inv by (simp add: doc_inv_def)
  from claim_job_SomeD [OF ji step_claim(2)] obtain row where row: "find_job db jid' t = Inr row"
    and st: "jr_state row = Job_queued \<or> jr_state row = Job_running"
    and db': "db' = update_job jid' (start_attempt tok (ls + job_lease_seconds cfg) un) db" by blast
  have "row_of db jid' = Some row" by (rule row_of_find [OF ji row])
  with st show ?thesis
    unfolding db' step_claim(1)
    by (auto simp: row_of_update row_simps row_next_def same_key_def start_attempt_def job_over_def
        split: option.split)
next
  case (step_claim_none jid' t tok now ls un vn)
  have ji: "jobs_inv cfg db" using inv by (simp add: doc_inv_def)
  obtain row where row: "find_job db jid' t = Inr row"
    using step_claim_none by (cases "find_job db jid' t") (auto simp: claim_job_def)
  have r: "row_of db jid' = Some row" by (rule row_of_find [OF ji row])
  from row consider "db' = db" | "jr_state row = Job_queued \<or> jr_state row = Job_running"
      "db' = update_job jid' fail_at_limit db"
    using step_claim_none by (cases "jr_state row") (auto simp: claim_job_def Let_def split: if_splits)
  then show ?thesis
  proof cases
    case 1
    with step_claim_none row_next_refl show ?thesis by simp
  next
    case 2
    have "job_ok cfg row" by (rule job_ok_row [OF ji row])
    with 2 r show ?thesis unfolding 2(2) step_claim_none(1)
      by (auto simp: row_of_update row_simps row_next_def same_key_def fail_at_limit_def job_over_def
          job_ok_def split: option.split)
  qed
next
  case (step_commit c r now un r')
  have ji: "jobs_inv cfg db" using inv by (simp add: doc_inv_def)
  obtain row db1 where r': "record_for_claim c r = Inr r'"
    and row: "find_job db (dj_id (dc_job c)) (dj_tenant (dc_job c)) = Inr row"
    and st: "jr_state row = Job_running" "jr_token row = Some (dc_token c)"
    and app: "append_version r' db = Inr ((), db1)"
    and db': "db' = update_job (dj_id (dc_job c)) (succeed_attempt (sv_version r') un) db1"
    by (rule commit_job_InrD [OF inv step_commit(2)])
  have v: "valid_stored r'" using record_for_claim_InrD [OF r'] by simp
  have "db_jobs db1 = db_jobs db" using append_version_InrD [OF _ v app] inv by (simp add: doc_inv_def)
  then have eq: "row_of db1 j = row_of db j" for j by (simp add: row_of_def)
  have "row_of db (dj_id (dc_job c)) = Some row" by (rule row_of_find [OF ji row])
  with st show ?thesis unfolding db' step_commit(1)
    by (auto simp: row_of_update row_simps eq row_next_def same_key_def succeed_attempt_def job_over_def
        split: option.split)
next
  case (step_fail c code now u)
  then have "db' = db\<lparr>db_jobs := update_where
             (\<lambda>j. jr_id j = dj_id (dc_job c) \<and> jr_tenant j = dj_tenant (dc_job c) \<and>
                  jr_token j = Some (dc_token c) \<and> jr_state j = Job_running)
             (fail_attempt cfg code now) (db_jobs db)\<rparr>" (is "_ = db\<lparr>db_jobs := update_where ?p ?f _\<rparr>")
    by (auto simp: fail_job_def split: if_splits)
  then have "row_of db' jid = map_option (\<lambda>j. if ?p j then ?f j else j) (row_of db jid)"
    by (simp only: row_of_where [OF keeps_key(5)])
  then show ?thesis unfolding step_fail(1)
    by (simp only:, intro row_next_map row_next_other keeps_key)
      (auto simp: fail_attempt_def job_over_def)
next
  case (step_retry jid' t now un vn j)
  have ji: "jobs_inv cfg db" using inv by (simp add: doc_inv_def)
  obtain row where row: "find_job db jid' t = Inr row"
    using step_retry by (cases "find_job db jid' t") (auto simp: retry_job_def)
  have r: "row_of db jid' = Some row" by (rule row_of_find [OF ji row])
  from row consider "db' = db" | "\<not> job_over row" "db' = update_job jid' (requeue un) db"
    using step_retry by (auto simp: retry_job_def Let_def job_over_def split: if_splits)
  then show ?thesis
  proof cases
    case 1
    with step_retry row_next_refl show ?thesis by simp
  next
    case 2
    with r show ?thesis unfolding 2(2) step_retry(1)
      by (auto simp: row_of_update row_simps row_next_def same_key_def requeue_def split: option.split)
  qed
next
  case (step_publish jid' t now u)
  then have "db' = update_job jid' (\<lambda>j. j\<lparr>jr_published := True, jr_updated := now\<rparr>) db"
    by (auto simp: mark_job_published_def)
  then have "row_of db' jid = map_option (\<lambda>j. if jid = jid' then j\<lparr>jr_published := True, jr_updated := now\<rparr> else j) (row_of db jid)"
    by (simp only: row_of_update [OF keeps_key(7)])
  then show ?thesis unfolding step_publish(1)
    by (simp only:, intro row_next_map row_next_other keeps_key) (auto simp: job_over_def)
next
  case (step_delete t d u)
  note row_of_delete [OF step_delete(2), of jid]
  then show ?thesis unfolding step_delete(1)
    by (simp only:, intro row_next_map row_next_other keeps_key) (auto simp: job_over_def fence_deleted_def)
next
  case (step_create r r')
  then have "row_of db' jid = row_of db jid"
    by (auto simp: create_version_def append_version_def Let_def split: if_splits)
  then show ?thesis unfolding step_create(1) by (simp add: row_next_refl)
qed

section \<open>What the traces show\<close>

definition claims_of :: "string \<Rightarrow> job_event list \<Rightarrow> string list" where
  "claims_of jid evs = concat (map (\<lambda>e. case e of Ev_claimed i tok \<Rightarrow> if i = jid then [tok] else [] | _ \<Rightarrow> []) evs)"

definition commits_of :: "string \<Rightarrow> job_event list \<Rightarrow> string list" where
  "commits_of jid evs = concat (map (\<lambda>e. case e of Ev_committed i tok \<Rightarrow> if i = jid then [tok] else [] | _ \<Rightarrow> []) evs)"

lemma claims_of_simps [simp]:
  "claims_of jid [] = []" "commits_of jid [] = []"
  "claims_of jid (evs @ evs') = claims_of jid evs @ claims_of jid evs'"
  "commits_of jid (evs @ evs') = commits_of jid evs @ commits_of jid evs'"
  "claims_of jid [Ev_claimed i tok] = (if i = jid then [tok] else [])"
  "commits_of jid [Ev_committed i tok] = (if i = jid then [tok] else [])"
  "claims_of jid [Ev_committed i tok] = []" "commits_of jid [Ev_claimed i tok] = []"
  "claims_of jid [Ev_other] = []" "commits_of jid [Ev_other] = []"
  by (simp_all add: claims_of_def commits_of_def)

text \<open>The link between a job's row and the trace so far.\<close>

definition row_history :: "string \<Rightarrow> job_event list \<Rightarrow> job_row option \<Rightarrow> bool" where
  "row_history jid evs r \<longleftrightarrow>
     (case r of
        None \<Rightarrow> claims_of jid evs = [] \<and> commits_of jid evs = []
      | Some j \<Rightarrow>
          (jr_token j = None \<or> claims_of jid evs \<noteq> [] \<and> jr_token j = Some (last (claims_of jid evs))) \<and>
          length (claims_of jid evs) = jr_attempts j \<and>
          (commits_of jid evs = [] \<or>
             jr_state j = Job_succeeded \<and> claims_of jid evs \<noteq> [] \<and>
             commits_of jid evs = [last (claims_of jid evs)]))"

lemma row_history_next:
  assumes "row_history jid evs r" and "row_next e jid r r'"
  shows "row_history jid (evs @ [e]) r'"
proof (cases e)
  case (Ev_claimed i tok)
  with assms show ?thesis
    by (cases "i = jid") (auto simp: row_history_def row_next_def job_over_def split: option.splits)
next
  case (Ev_committed i tok)
  with assms show ?thesis
    by (cases "i = jid") (auto simp: row_history_def row_next_def job_over_def split: option.splits)
next
  case Ev_other
  with assms show ?thesis
    by (auto simp: row_history_def row_next_def job_over_def split: option.splits)
qed

lemma job_trace_history:
  "job_trace cfg kd rd db0 evs db \<Longrightarrow> doc_inv cfg db0 \<Longrightarrow> row_history jid [] (row_of db0 jid) \<Longrightarrow>
     row_history jid evs (row_of db jid)"
  by (induction rule: job_trace.induct) (auto intro: row_history_next job_step_row job_trace_inv)

lemma job_trace_same_key:
  assumes "job_trace cfg kd rd db0 evs db" and "doc_inv cfg db0" and "row_of db0 jid = Some j"
  shows "\<exists>j'. row_of db jid = Some j' \<and> same_key j j' \<and>
    (job_over j \<longrightarrow> job_over j' \<and> claims_of jid evs = [] \<and> commits_of jid evs = [])"
  using assms
proof (induction rule: job_trace.induct)
  case (trace_start db)
  then show ?case by (simp add: same_key_def)
next
  case (trace_step db evs db1 e db2)
  then obtain j1 where j1: "row_of db1 jid = Some j1" "same_key j j1"
    and over: "job_over j \<longrightarrow> job_over j1 \<and> claims_of jid evs = [] \<and> commits_of jid evs = []" by blast
  have "doc_inv cfg db1" using trace_step job_trace_inv by blast
  then have nxt: "row_next e jid (Some j1) (row_of db2 jid)"
    using job_step_row [OF trace_step.hyps(2)] j1(1) by metis
  then obtain j2 where j2: "row_of db2 jid = Some j2" and "same_key j1 j2" and "job_over j1 \<longrightarrow> job_over j2"
    by (auto simp: row_next_def split: option.splits)
  moreover have "job_over j1 \<longrightarrow> claims_of jid [e] = [] \<and> commits_of jid [e] = []"
    using nxt j2
    by (cases e) (auto simp: row_next_def job_over_def)
  ultimately show ?case using j1 over by (auto simp: same_key_def)
qed

text \<open>
  C4. Job table invariant. Whatever operations processes run, in any order, with any clock, token
  or claim, the versions of each document stay numbered 1, 2, 3, ..., job identifiers and
  idempotency keys stay unique, and every row holds exactly what its state calls for (a running job
  a token and a lease, a succeeded one a version and no source payload, a failed one an error code).
\<close>

theorem document_jobs_invariant:
  assumes "job_trace cfg kd rd empty_doc_db evs db"
  shows "doc_inv cfg db"
  using assms by (rule job_trace_inv) simp

text \<open>
  C1. Exactly-once processing. In every history of the job table a job commits at most one
  snapshot, through the last claim ever made of it (an attempt whose lease was taken over can no
  longer write), and it is claimed at most \<open>job_max_attempts\<close> times.
\<close>

theorem job_commits_exactly_once:
  assumes "job_trace cfg kd rd empty_doc_db evs db"
  shows "(commits_of jid evs = [] \<or> claims_of jid evs \<noteq> [] \<and> commits_of jid evs = [last (claims_of jid evs)])
     \<and> length (claims_of jid evs) \<le> job_max_attempts cfg"
proof -
  have inv: "doc_inv cfg db" using assms by (rule job_trace_inv) simp
  have hist: "row_history jid evs (row_of db jid)"
    by (rule job_trace_history [OF assms doc_inv_empty])
      (simp add: row_history_def row_of_def empty_doc_db_def)
  have "row_of db jid = Some j \<Longrightarrow> jr_attempts j \<le> job_max_attempts cfg" for j
    using inv by (auto simp: row_of_def doc_inv_def jobs_inv_def job_ok_def dest!: select1_SomeD)
  with hist show ?thesis by (auto simp: row_history_def split: option.splits)
qed


lemma commit_facts:
  assumes inv: "doc_inv cfg db" and ok: "commit_job c r now un db = Inr (r', db')"
  shows "versions_of db' (dj_tenant (dc_job c)) (dj_document_id (dc_job c))
           = versions_of db (dj_tenant (dc_job c)) (dj_document_id (dc_job c)) @ [r']
    \<and> (\<forall>t d. (t, d) \<noteq> (dj_tenant (dc_job c), dj_document_id (dc_job c)) \<longrightarrow> versions_of db' t d = versions_of db t d)
    \<and> get_version (dj_tenant (dc_job c)) (dj_document_id (dc_job c)) None db' = Inr (r', db')
    \<and> (\<exists>row. find_job db' (dj_id (dc_job c)) (dj_tenant (dc_job c)) = Inr row \<and>
          jr_state row = Job_succeeded \<and> jr_version row = Some (sv_version r') \<and> jr_payload row = None)"
proof -
  obtain row db1 where r': "record_for_claim c r = Inr r'"
    and row: "find_job db (dj_id (dc_job c)) (dj_tenant (dc_job c)) = Inr row"
    and app: "append_version r' db = Inr ((), db1)"
    and db': "db' = update_job (dj_id (dc_job c)) (succeed_attempt (sv_version r') un) db1"
    by (rule commit_job_InrD [OF inv ok])
  have v: "valid_stored r'" "sv_tenant_id r' = dj_tenant (dc_job c)" "sv_document_id r' = dj_document_id (dc_job c)"
    using record_for_claim_InrD [OF r'] by simp_all
  have t: "tenant_pattern (dj_tenant (dc_job c))" using v by (simp add: valid_stored_def)
  have vi: "versions_inv db" using inv by (simp add: doc_inv_def)
  note app' = append_version_InrD [OF vi v(1) app]
  have hist: "versions_of db' t' d' = versions_of db t' d' @
      (if t' = dj_tenant (dc_job c) \<and> d' = dj_document_id (dc_job c) then [r'] else [])" for t' d'
    using app' [of t' d'] v by (simp add: db')
  have "versions_inv db'" using app' by (simp add: db')
  then have "get_version (dj_tenant (dc_job c)) (dj_document_id (dc_job c)) None db' = Inr (r', db')"
    using hist sqlite_versions.fetch_latest [OF _ t] by simp
  moreover have "find_job db' (dj_id (dc_job c)) (dj_tenant (dc_job c)) = Inr (succeed_attempt (sv_version r') un row)"
  proof -
    have "find_job db1 (dj_id (dc_job c)) (dj_tenant (dc_job c)) = Inr row"
      using row app' by (simp add: find_job_def)
    then show ?thesis unfolding db' by (simp add: find_job_update row_simps)
  qed
  ultimately show ?thesis using hist by (auto simp: succeed_attempt_def)
qed

text \<open>
  C3. Atomic commit. A commit that returns has appended its snapshot as the latest version of the
  claimed job's document and tenant, left every other document as it was, and recorded the job as
  succeeded with exactly that version, which its status reports as available.
\<close>

theorem commit_is_atomic:
  assumes inv: "doc_inv cfg db" and ok: "commit_job c r now un db = Inr (r', db')"
  shows "versions_of db' (dj_tenant (dc_job c)) (dj_document_id (dc_job c))
           = versions_of db (dj_tenant (dc_job c)) (dj_document_id (dc_job c)) @ [r']
    \<and> (\<forall>t d. (t, d) \<noteq> (dj_tenant (dc_job c), dj_document_id (dc_job c)) \<longrightarrow> versions_of db' t d = versions_of db t d)
    \<and> get_version (dj_tenant (dc_job c)) (dj_document_id (dc_job c)) None db' = Inr (r', db')
    \<and> (\<exists>row. find_job db' (dj_id (dc_job c)) (dj_tenant (dc_job c)) = Inr row \<and>
          jr_state row = Job_succeeded \<and> jr_version row = Some (sv_version r') \<and> jr_payload row = None)"
  using inv ok by (rule commit_facts)

lemma submit_job_row:
  assumes inv: "doc_inv cfg db" and ok: "submit_job kd rd t req op opts key nd nj now vn db = Inr (s, db')"
  shows "\<exists>j. row_of db' (dj_id (ds_job s)) = Some j \<and> jr_tenant j = t \<and> jr_key_hash j = kd key \<and>
     jr_fingerprint j = rd op req"
  using submit_job_InrD(2) [OF ok]
proof (elim disjE conjE exE)
  fix row
  assume sel: "select1 (\<lambda>j. jr_tenant j = t \<and> jr_key_hash j = kd key) (db_jobs db) = Some row"
    and row: "jr_fingerprint row = rd op req" "db' = db" "view_job db vn row = Inr (ds_job s)"
  have "row_of db (jr_id row) = Some row"
    using inv select1_SomeD [OF sel]
    by (intro row_of_find [OF _ find_job_row]) (auto simp: doc_inv_def jobs_inv_def)
  with row select1_SomeD [OF sel] show ?thesis by (auto dest: view_job_InrD)
next
  fix row
  let ?row = "new_job_row nj t (case request_target req of None \<Rightarrow> nd | Some d \<Rightarrow> d) op (kd key)
      (rd op req) req opts now"
  assume new: "\<forall>j \<in> set (db_jobs db). jr_id j \<noteq> nj" and db': "db' = db\<lparr>db_jobs := db_jobs db @ [?row]\<rparr>"
    and row: "find_job db' nj t = Inr row" "view_job db' vn row = Inr (ds_job s)"
  have "select1 (\<lambda>j. jr_id j = nj) (db_jobs db) = None" using new by (simp add: select1_None_iff)
  then have "row_of db' nj = Some ?row" by (simp add: row_of_def db' select1_append new_job_row_def)
  moreover have "dj_id (ds_job s) = nj" using row by (auto dest!: view_job_InrD find_job_InrD)
  ultimately show ?thesis by (simp add: new_job_row_def)
qed

text \<open>
  C5. Idempotent submission. Once a submission has been accepted under a tenant's idempotency key,
  the same submission is answered with the same job, at any later time and whatever happened to that
  job, without changing the database; a different request under that key is refused.
\<close>

theorem submit_idempotent:
  assumes inv: "doc_inv cfg db" and opts: "valid_options opts"
    and ok: "submit_job kd rd t req op opts key nd nj now vn db = Inr (s, db1)"
    and later: "job_trace cfg kd rd db1 evs db2"
  shows "(\<exists>s'. submit_job kd rd t req op opts' key nd' nj' now' vn' db2 = Inr (s', db2) \<and>
      ds_replayed s' \<and> dj_id (ds_job s') = dj_id (ds_job s)) \<and>
    (rd op2 req2 \<noteq> rd op req \<and> is_ok (validate_request op2 req2) \<longrightarrow>
      submit_job kd rd t req2 op2 opts' key nd' nj' now' vn' db2 = Inl Document_job_conflict)"
proof (intro conjI impI)
  have inv1: "doc_inv cfg db1" by (rule doc_inv_submit [OF inv opts ok])
  then have inv2: "doc_inv cfg db2" by (rule job_trace_inv [OF later])
  obtain j where "row_of db1 (dj_id (ds_job s)) = Some j" and j: "jr_tenant j = t" "jr_key_hash j = kd key"
    "jr_fingerprint j = rd op req"
    using submit_job_row [OF inv ok] by blast
  then obtain j' where j': "row_of db2 (dj_id (ds_job s)) = Some j'" and "same_key j j'"
    using job_trace_same_key [OF later inv1] by blast
  then have k: "jr_tenant j' = t" "jr_key_hash j' = kd key" "jr_fingerprint j' = rd op req"
    "jr_id j' = dj_id (ds_job s)" "j' \<in> set (db_jobs db2)"
    using j by (auto simp: same_key_def row_of_def dest: select1_SomeD)
  have sel: "select1 (\<lambda>j. jr_tenant j = t \<and> jr_key_hash j = kd key) (db_jobs db2) = Some j'"
    using inv2 k by (intro select1_unique [where k = "\<lambda>j. (jr_tenant j, jr_key_hash j)"])
      (auto simp: doc_inv_def jobs_inv_def)
  have jok: "job_ok cfg j'" using inv2 k(5) by (simp add: doc_inv_def jobs_inv_def)
  then have t: "tenant_pattern t" using k(1) by (simp add: job_ok_def)
  have kp: "key_pattern key" and vr: "validate_request op req = Inr req"
    using submit_job_InrD(1) [OF ok] by simp_all
  show "\<exists>s'. submit_job kd rd t req op opts' key nd' nj' now' vn' db2 = Inr (s', db2) \<and>
      ds_replayed s' \<and> dj_id (ds_job s') = dj_id (ds_job s)"
    using view_job_ok [OF jok, of db2 vn'] sel k kp vr t
    by (auto simp: submit_job_def check_identity_def Let_def)
  assume other: "rd op2 req2 \<noteq> rd op req \<and> is_ok (validate_request op2 req2)"
  then have "validate_request op2 req2 = Inr req2" by (auto simp: validate_request_def split: if_splits)
  with other sel k kp t show "submit_job kd rd t req2 op2 opts' key nd' nj' now' vn' db2 = Inl Document_job_conflict"
    by (simp add: submit_job_def check_identity_def Let_def)
qed

end
