(* ===== verification/Tenancy.thy ===== *)
theory Tenancy
  imports Exceptions
begin

text \<open>
  Tenant identity (\<open>core/tenant.py\<close>, the tenant settings of \<open>core/config.py\<close> and
  \<open>dtos/tool_execution_context.py\<close>): the queue name, bearer-token authentication and the trusted
  execution context built from server-owned grants.
\<close>

text \<open>\<open>ToolExecutionContext\<close>: metadata supplied by application code, never by the model.\<close>

record tool_context =
  tenant_id :: string
  permissions :: "string set"

text \<open>The settings these functions read; \<open>SecretStr\<close> values are their secret texts.\<close>

record tenant_settings =
  celery_queue_name :: string
  tenant_api_keys :: "string \<rightharpoonup> string"
  tenant_permissions :: "string \<rightharpoonup> string set"

text \<open>\<open>tenant_queue\<close>\<close>

definition tenant_queue :: "tenant_settings \<Rightarrow> string \<Rightarrow> exn + string" where
  "tenant_queue cfg t =
     (if \<not> tenant_pattern t then Inl Value_error
      else Inr (celery_queue_name cfg @ ''.'' @ t))"

text \<open>
  \<open>get_tenant_id\<close>: the credentials are the bearer token, \<open>None\<close> where the header is absent. The
  check of the identifier comes after the token comparison, as in the source.
\<close>

definition get_tenant_id :: "tenant_settings \<Rightarrow> string \<Rightarrow> string option \<Rightarrow> exn + string" where
  "get_tenant_id cfg x_tenant credentials =
     (case credentials of
        None \<Rightarrow> Inl (Http_exception 401)
      | Some token \<Rightarrow>
          (case tenant_api_keys cfg x_tenant of
             None \<Rightarrow> Inl (Http_exception 403)
           | Some expected \<Rightarrow>
               if expected = [] \<or> token \<noteq> expected then Inl (Http_exception 403)
               else (case tenant_queue cfg x_tenant of
                       Inl _ \<Rightarrow> Inl (Http_exception 403)
                     | Inr _ \<Rightarrow> Inr x_tenant)))"

text \<open>
  \<open>get_tool_execution_context\<close>. The field pattern of \<open>ToolExecutionContext.tenant_id\<close> is the
  tenant pattern, so construction raises \<open>ValidationError\<close> outside it.
\<close>

definition make_context :: "string \<Rightarrow> string set \<Rightarrow> exn + tool_context" where
  "make_context t perms =
     (if tenant_pattern t then Inr \<lparr>tenant_id = t, permissions = perms\<rparr> else Inl Validation_error)"

definition get_tool_execution_context :: "tenant_settings \<Rightarrow> string \<Rightarrow> exn + tool_context" where
  "get_tool_execution_context cfg t =
     make_context t (case tenant_permissions cfg t of None \<Rightarrow> {} | Some ps \<Rightarrow> ps)"

text \<open>Authentication followed by the context, as the routes depend on them.\<close>

definition authenticate :: "tenant_settings \<Rightarrow> string \<Rightarrow> string option \<Rightarrow> exn + tool_context" where
  "authenticate cfg x_tenant credentials =
     bindR (get_tenant_id cfg x_tenant credentials) (get_tool_execution_context cfg)"

text \<open>
  The worker side (\<open>document_setup.execute_document_job\<close>): a queue message conveys identity, not
  grants; a tenant whose key is missing or empty has no permission left.
\<close>

definition worker_context :: "tenant_settings \<Rightarrow> string \<Rightarrow> exn + tool_context" where
  "worker_context cfg t =
     make_context t
       (case tenant_api_keys cfg t of
          None \<Rightarrow> {}
        | Some key \<Rightarrow>
            if key = [] then {}
            else (case tenant_permissions cfg t of None \<Rightarrow> {} | Some ps \<Rightarrow> ps))"

lemma get_tenant_id_Inr_iff:
  "get_tenant_id cfg x c = Inr t \<longleftrightarrow>
     t = x \<and> tenant_pattern x \<and> (\<exists>key. tenant_api_keys cfg x = Some key \<and> key \<noteq> [] \<and> c = Some key)"
  by (auto simp: get_tenant_id_def tenant_queue_def split: option.splits if_splits sum.splits)

lemma get_tenant_id_Inl:
  "get_tenant_id cfg x c = Inl e \<Longrightarrow> e = Http_exception 401 \<and> c = None \<or> e = Http_exception 403 \<and> c \<noteq> None"
  by (auto simp: get_tenant_id_def split: option.splits if_splits sum.splits)

lemma make_context_Inr_iff:
  "make_context t ps = Inr ctx \<longleftrightarrow> tenant_pattern t \<and> ctx = \<lparr>tenant_id = t, permissions = ps\<rparr>"
  by (auto simp: make_context_def)

lemma tenant_queue_inj:
  assumes "tenant_queue cfg t = Inr q" and "tenant_queue cfg t' = Inr q"
  shows "t = t'"
  using assms by (auto simp: tenant_queue_def split: if_splits)

text \<open>
  C9. Authentication. A request obtains a trusted context exactly when its bearer token equals the
  nonempty configured key of the tenant it names and that name is a valid tenant identifier; the
  context is then that tenant's, with that tenant's configured permissions and no others.
\<close>

theorem authenticate_iff:
  "authenticate cfg x c = Inr ctx \<longleftrightarrow>
     tenant_pattern x \<and> (\<exists>key. tenant_api_keys cfg x = Some key \<and> key \<noteq> [] \<and> c = Some key) \<and>
     tenant_id ctx = x \<and>
     permissions ctx = (case tenant_permissions cfg x of None \<Rightarrow> {} | Some ps \<Rightarrow> ps)"
  by (cases ctx)
    (auto simp: authenticate_def get_tenant_id_Inr_iff get_tool_execution_context_def
      make_context_Inr_iff)

end
