(* ===== verification/Policy.thy ===== *)
theory Policy
  imports Tenancy
begin

text \<open>
  Action-level authorization: \<open>dtos/policy_decision.py\<close>, \<open>services/permission_policy.py\<close> and
  \<open>services/policy_executor.py\<close>. The executor's contract is the locale \<open>policy_gate\<close>: what the
  facades and handlers of the program rely on, proved once for any policy service and interpreted
  for the permission policy.
\<close>

datatype policy_effect = Allow | Deny

record policy_decision =
  effect :: policy_effect
  reason_code :: string
  policy_version :: string

text \<open>\<open>PermissionPolicyService.evaluate\<close>\<close>

definition permission_evaluate :: "tool_context \<Rightarrow> string \<Rightarrow> exn + policy_decision" where
  "permission_evaluate ctx action =
     (if action \<in> permissions ctx
      then Inr \<lparr>effect = Allow, reason_code = ''permission_granted'', policy_version = ''1''\<rparr>
      else Inr \<lparr>effect = Deny, reason_code = ''permission_missing'', policy_version = ''1''\<rparr>)"

text \<open>
  \<open>PolicyEnforcedExecutor.execute\<close>: the policy service may raise (or return something that is no
  decision, which raises inside the \<open>try\<close>); the operation runs only after an allowing decision.
  \<open>evaluate\<close> is the injected service, \<open>operation\<close> the protected call on the state.
\<close>

definition policy_execute ::
  "(tool_context \<Rightarrow> string \<Rightarrow> exn + policy_decision) \<Rightarrow> tool_context \<Rightarrow> string \<Rightarrow> ('s, exn, 'a) proc \<Rightarrow> ('s, exn, 'a) proc" where
  "policy_execute evaluate ctx action operation =
     (case evaluate ctx action of
        Inl _ \<Rightarrow> raiseP Policy_evaluation_error
      | Inr decision \<Rightarrow>
          if effect decision \<noteq> Allow then raiseP Policy_denied_error else operation)"

text \<open>The contract of an authorization gate.\<close>

locale policy_gate =
  fixes evaluate :: "tool_context \<Rightarrow> string \<Rightarrow> exn + policy_decision"
    and granted :: "tool_context \<Rightarrow> string \<Rightarrow> bool"
  assumes evaluate_allows: "granted ctx a \<Longrightarrow> \<exists>d. evaluate ctx a = Inr d \<and> effect d = Allow"
    and evaluate_denies: "\<not> granted ctx a \<Longrightarrow> \<exists>d. evaluate ctx a = Inr d \<and> effect d \<noteq> Allow"
begin

lemma gate_granted: "granted ctx a \<Longrightarrow> policy_execute evaluate ctx a op = op"
  using evaluate_allows [of ctx a] by (auto simp: policy_execute_def)

lemma gate_denied: "\<not> granted ctx a \<Longrightarrow> policy_execute evaluate ctx a op = raiseP Policy_denied_error"
  using evaluate_denies [of ctx a] by (auto simp: policy_execute_def)

lemma gate_eq:
  "policy_execute evaluate ctx a op = (if granted ctx a then op else raiseP Policy_denied_error)"
  by (simp add: gate_granted gate_denied)

text \<open>Two nested gates need both grants.\<close>

lemma gate_nested:
  "policy_execute evaluate ctx a (policy_execute evaluate ctx b op) =
     (if granted ctx a \<and> granted ctx b then op else raiseP Policy_denied_error)"
  by (simp add: gate_eq)

end

interpretation permission: policy_gate permission_evaluate "\<lambda>ctx a. a \<in> permissions ctx"
  by unfold_locales (auto simp: permission_evaluate_def)

text \<open>The executor the program builds: permission membership decides.\<close>

abbreviation authorized :: "tool_context \<Rightarrow> string \<Rightarrow> ('s, exn, 'a) proc \<Rightarrow> ('s, exn, 'a) proc" where
  "authorized \<equiv> policy_execute permission_evaluate"

lemmas authorized_eq = permission.gate_eq
lemmas authorized_nested = permission.gate_nested

lemma policy_execute_no_evaluation:
  "evaluate ctx a = Inl e \<Longrightarrow> policy_execute evaluate ctx a op = raiseP Policy_evaluation_error"
  by (simp add: policy_execute_def)

lemma preserves_policy_execute [preserves_intro]:
  "preserves I op \<Longrightarrow> preserves I (policy_execute evaluate ctx a op)"
  by (auto simp: policy_execute_def intro: preserves_intro split: sum.split)

end
