(* ===== verification/Ingestion.thy ===== *)
theory Ingestion
  imports Doc_Jobs Policy
begin

text \<open>
  The ingestion pipeline: the coordinator (\<open>ingestion/document_processing_coordinator.py\<close>), the
  authorized facades (\<open>document_ingestion_facade.py\<close>, \<open>document_submission_facade.py\<close>) and the
  worker's job processor (\<open>document_job_processor.py\<close>). The log records of the facades carry
  no decision; \<open>Audit_Trail\<close> adds them and shows that they change nothing here.
\<close>

section \<open>The coordinator\<close>

text \<open>\<open>DocumentStoreInterface\<close>, as the coordinator calls it.\<close>

record 's document_store =
  st_create :: "stored_version \<Rightarrow> ('s, exn, stored_version) proc"
  st_get :: "string \<Rightarrow> string \<Rightarrow> nat option \<Rightarrow> ('s, exn, stored_version) proc"
  st_delete :: "string \<Rightarrow> string \<Rightarrow> ('s, exn, unit) proc"

text \<open>The injected preparation parser, the chunking service and the chunking options.\<close>

record pipeline =
  pl_parse :: "bytes \<Rightarrow> exn + ustr"
  pl_chunk :: "chunking_request \<Rightarrow> exn + chunking_result"
  pl_options :: chunking_options

text \<open>\<open>build_plain_text_ingestion_facade\<close>\<close>

definition plain_text_pipeline :: "chunking_options \<Rightarrow> pipeline" where
  "plain_text_pipeline options =
     \<lparr>pl_parse = plain_text_parse 4000000, pl_chunk = character_chunking, pl_options = options\<rparr>"

text \<open>
  \<open>_prepare_and_store\<close>: preparation, chunking and the construction of the record are pure;
  \<open>created\<close> is the default of \<open>created_at\<close>.
\<close>

definition prepare_record ::
  "pipeline \<Rightarrow> ingestion_request \<Rightarrow> string \<Rightarrow> string \<Rightarrow> nat \<Rightarrow> rat \<Rightarrow> exn + stored_version" where
  "prepare_record pl request t document_id version created =
     bindR (prepare (pl_parse pl) request) (\<lambda>document.
     bindR (make_chunking_request (di_text document) (pl_options pl)) (\<lambda>chunking.
     bindR (pl_chunk pl chunking) (\<lambda>chunks.
     validate_stored \<lparr>sv_document_id = document_id, sv_tenant_id = t, sv_version = version,
       sv_created_at = created, sv_document = document, sv_chunking = chunks\<rparr>)))"

definition prepare_and_store ::
  "pipeline \<Rightarrow> 's document_store \<Rightarrow> ingestion_request \<Rightarrow> string \<Rightarrow> string \<Rightarrow> nat \<Rightarrow> rat \<Rightarrow>
   ('s, exn, stored_version) proc" where
  "prepare_and_store pl st request t document_id version created =
     bindP (liftR (prepare_record pl request t document_id version created)) (st_create st)"

text \<open>\<open>process\<close>; \<open>new_document\<close> is the fresh \<open>uuid4()\<close>.\<close>

definition coordinator_process ::
  "pipeline \<Rightarrow> 's document_store \<Rightarrow> ingestion_request \<Rightarrow> string \<Rightarrow> string \<Rightarrow> rat \<Rightarrow>
   ('s, exn, stored_version) proc" where
  "coordinator_process pl st request t new_document created =
     thenP (requireP (valid_ingestion_request request) Validation_error)
       (prepare_and_store pl st request t new_document 1 created)"

text \<open>\<open>update\<close>\<close>

definition coordinator_update ::
  "pipeline \<Rightarrow> 's document_store \<Rightarrow> update_request \<Rightarrow> string \<Rightarrow> rat \<Rightarrow> ('s, exn, stored_version) proc" where
  "coordinator_update pl st request t created =
     thenP (requireP (valid_update_request request) Validation_error)
     (bindP (st_get st t (ur_document_id request) None) (\<lambda>latest.
      thenP (requireP (sv_version latest = ur_expected_version request) Document_version_conflict)
        (prepare_and_store pl st (update_source request) t (ur_document_id request)
           (ur_expected_version request + 1) created)))"

text \<open>\<open>read\<close> and \<open>delete\<close>\<close>

definition coordinator_read ::
  "'s document_store \<Rightarrow> read_request \<Rightarrow> string \<Rightarrow> ('s, exn, stored_version) proc" where
  "coordinator_read st request t =
     thenP (requireP (valid_read_request request) Validation_error)
       (st_get st t (rr_document_id request) (rr_version request))"

definition coordinator_delete ::
  "'s document_store \<Rightarrow> string \<Rightarrow> string \<Rightarrow> ('s, exn, string) proc" where
  "coordinator_delete st document_id t = bindP (st_delete st t document_id) (\<lambda>_. returnP document_id)"

section \<open>The facades\<close>

definition facade_ingest ::
  "pipeline \<Rightarrow> 's document_store \<Rightarrow> ingestion_request \<Rightarrow> tool_context \<Rightarrow> string \<Rightarrow> rat \<Rightarrow>
   ('s, exn, stored_version) proc" where
  "facade_ingest pl st request ctx new_document created =
     authorized ctx ''document.create'' (coordinator_process pl st request (tenant_id ctx) new_document created)"

definition facade_update ::
  "pipeline \<Rightarrow> 's document_store \<Rightarrow> update_request \<Rightarrow> tool_context \<Rightarrow> rat \<Rightarrow> ('s, exn, stored_version) proc" where
  "facade_update pl st request ctx created =
     authorized ctx ''document.update'' (coordinator_update pl st request (tenant_id ctx) created)"

definition facade_read ::
  "'s document_store \<Rightarrow> read_request \<Rightarrow> tool_context \<Rightarrow> ('s, exn, stored_version) proc" where
  "facade_read st request ctx =
     authorized ctx ''document.read'' (coordinator_read st request (tenant_id ctx))"

definition facade_delete ::
  "'s document_store \<Rightarrow> string \<Rightarrow> tool_context \<Rightarrow> ('s, exn, string) proc" where
  "facade_delete st document_id ctx =
     authorized ctx ''document.delete'' (coordinator_delete st document_id (tenant_id ctx))"

text \<open>
  \<open>DocumentSubmissionFacade\<close>, over the durable job store: \<open>DocumentJobStoreInterface\<close> as the facade
  and the HTTP routes call it.
\<close>

record 's job_store =
  js_submit :: "string \<Rightarrow> doc_request \<Rightarrow> job_operation \<Rightarrow> chunking_options \<Rightarrow> string \<Rightarrow> ('s, exn, doc_submission) proc"
  js_get :: "string \<Rightarrow> string \<Rightarrow> ('s, exn, doc_job) proc"
  js_retry :: "string \<Rightarrow> string \<Rightarrow> ('s, exn, doc_job) proc"
  js_publish :: "string \<Rightarrow> string \<Rightarrow> ('s, exn, unit) proc"

definition action_name :: "job_operation \<Rightarrow> string" where
  "action_name op = (case op of Op_create \<Rightarrow> ''create'' | Op_update \<Rightarrow> ''update'')"

definition facade_submit ::
  "'s job_store \<Rightarrow> chunking_options \<Rightarrow> doc_request \<Rightarrow> job_operation \<Rightarrow> tool_context \<Rightarrow> string \<Rightarrow>
   ('s, exn, doc_submission) proc" where
  "facade_submit st options request op ctx key =
     authorized ctx (''document.'' @ action_name op) (js_submit st (tenant_id ctx) request op options key)"

definition facade_status :: "'s job_store \<Rightarrow> string \<Rightarrow> tool_context \<Rightarrow> ('s, exn, doc_job) proc" where
  "facade_status st jid ctx = authorized ctx ''document.job.read'' (js_get st jid (tenant_id ctx))"

definition facade_retry :: "'s job_store \<Rightarrow> string \<Rightarrow> tool_context \<Rightarrow> ('s, exn, doc_job) proc" where
  "facade_retry st jid ctx =
     authorized ctx ''document.job.retry''
       (bindP (js_get st jid (tenant_id ctx)) (\<lambda>job.
        authorized ctx (''document.'' @ action_name (dj_operation job)) (js_retry st jid (tenant_id ctx))))"

section \<open>Preparation of the standard pipeline\<close>

text \<open>
  The standard pipeline fails only for the reasons a user can cause: undecodable bytes, blank or
  oversized text, or too many chunks. The snapshot it builds always passes its own validation.
\<close>

lemma window_chunks_valid:
  assumes "valid_chunking_request r" and "window_split r m out = Inr cs"
  shows "list_all valid_chunk cs"
proof -
  let ?step = "chunk_size (cr_options r) - overlap (cr_options r)"
  have "cs = map (window (cr_text r) (chunk_size (cr_options r)) ?step)
      [0..<window_count (length (cr_text r)) (chunk_size (cr_options r)) ?step]"
    using assms(2) window_split_eq [OF assms(1), of m out] by (auto split: if_splits)
  with assms(1) show ?thesis
    by (auto simp: list_all_iff valid_chunking_request_def valid_text_def valid_options_def
        intro!: window_valid)
qed

lemma prepare_record_eq:
  assumes opts: "valid_options opts" and req: "valid_ingestion_request r"
    and t: "tenant_pattern t" and v: "1 \<le> v"
  shows "prepare_record (plain_text_pipeline opts) r t d v created =
    (case utf8_sig_decode (ir_content r) of
       None \<Rightarrow> Inl Document_parse_error
     | Some src \<Rightarrow>
         if \<not> valid_text src then Inl Validation_error
         else (case window_split \<lparr>cr_text = src, cr_options = opts\<rparr> 1000 2000000 of
                 Inl _ \<Rightarrow> Inl Chunking_limit_exceeded
               | Inr cs \<Rightarrow> Inr \<lparr>sv_document_id = d, sv_tenant_id = t, sv_version = v, sv_created_at = created,
                   sv_document = \<lparr>di_title = ir_title r, di_text = src, di_source_ref = ir_source_ref r\<rparr>,
                   sv_chunking = \<lparr>cs_strategy = ''character_window_v1'', cs_options = opts, cs_chunks = cs\<rparr>\<rparr>))"
proof (cases "utf8_sig_decode (ir_content r)")
  case None
  then show ?thesis using req
    by (simp add: prepare_record_def plain_text_pipeline_def prepare_def plain_text_parse_def valid_ingestion_request_def)
next
  case (Some src)
  have parse: "plain_text_parse 4000000 (ir_content r) = Inr src"
    using Some req by (simp add: plain_text_parse_def valid_ingestion_request_def)
  let ?doc = "\<lparr>di_title = ir_title r, di_text = src, di_source_ref = ir_source_ref r\<rparr>"
  let ?cr = "\<lparr>cr_text = src, cr_options = opts\<rparr>"
  have doc: "valid_document_input ?doc \<longleftrightarrow> valid_text src"
    using req by (simp add: valid_document_input_def valid_ingestion_request_def)
  show ?thesis
  proof (cases "valid_text src")
    case False
    with Some parse doc show ?thesis
      by (simp add: prepare_record_def plain_text_pipeline_def prepare_def)
  next
    case True
    then have cr: "valid_chunking_request ?cr" using opts by (simp add: valid_chunking_request_def)
    show ?thesis
    proof (cases "window_split ?cr 1000 2000000")
      case (Inl e)
      with Some parse doc True cr show ?thesis
        by (simp add: prepare_record_def plain_text_pipeline_def prepare_def make_chunking_request_def
            character_chunking_eq)
    next
      case (Inr cs)
      have "cs \<noteq> [] \<and> check_spans src 0 0 cs = Some (length src)"
        using character_window.split_spans [OF cr Inr] by simp
      moreover have "list_all valid_chunk cs" by (rule window_chunks_valid [OF cr Inr])
      ultimately have "valid_stored \<lparr>sv_document_id = d, sv_tenant_id = t, sv_version = v, sv_created_at = created,
          sv_document = ?doc,
          sv_chunking = \<lparr>cs_strategy = ''character_window_v1'', cs_options = opts, cs_chunks = cs\<rparr>\<rparr>"
        using t v doc True opts by (simp add: valid_stored_def valid_chunking_result_def saved_chunks_ok_def)
      with Some parse doc True cr Inr show ?thesis
        by (simp add: prepare_record_def plain_text_pipeline_def prepare_def make_chunking_request_def
            character_chunking_eq validate_stored_def)
    qed
  qed
qed

lemma prepare_record_InrD:
  "prepare_record pl r t d v created = Inr rec \<Longrightarrow>
     valid_stored rec \<and> sv_tenant_id rec = t \<and> sv_document_id rec = d \<and> sv_version rec = v"
  by (auto simp: prepare_record_def validate_stored_def split: if_splits)

section \<open>The worker\<close>

text \<open>
  The processor makes one database call after another; between two calls other processes may change
  the database (\<open>dw_env\<close>). Each call reads the clock and draws fresh identifiers of its own.
\<close>

record doc_world =
  dw_db :: doc_db
  dw_calls :: nat
  dw_env :: "nat \<Rightarrow> doc_db \<Rightarrow> doc_db"
  dw_clock :: "nat \<Rightarrow> nat \<Rightarrow> rat"
  dw_fresh :: "nat \<Rightarrow> string"

definition call_db :: "((nat \<Rightarrow> rat) \<Rightarrow> string \<Rightarrow> (doc_db, exn, 'a) tx) \<Rightarrow> (doc_world, exn, 'a) proc" where
  "call_db f w =
     (let k = dw_calls w; db = dw_env w k (dw_db w)
      in case f (dw_clock w k) (dw_fresh w k) db of
           Inl e \<Rightarrow> (Inl e, w\<lparr>dw_db := db, dw_calls := k + 1\<rparr>)
         | Inr (x, db') \<Rightarrow> (Inr x, w\<lparr>dw_db := db', dw_calls := k + 1\<rparr>))"

text \<open>\<open>_ClaimedDocumentStore\<close>\<close>

definition claimed_store :: "doc_claim \<Rightarrow> doc_world document_store" where
  "claimed_store claim =
     \<lparr>st_create = (\<lambda>record. call_db (\<lambda>clk _. commit_job claim record (clk 0) (clk 1))),
      st_get = (\<lambda>t d version. call_db (\<lambda>_ _. get_version t d version)),
      st_delete = (\<lambda>t d. call_db (\<lambda>_ _. delete_document t d))\<rparr>"

definition failure_code :: "exn \<Rightarrow> string" where
  "failure_code e =
     (if e = Policy_denied_error then ''PermissionDenied''
      else if e = Document_version_conflict then ''VersionConflict''
      else if e = Document_not_found then ''NotFound''
      else if e = Document_parse_error \<or> e = Validation_error then ''InvalidDocument''
      else if e = Chunking_limit_exceeded then ''ResourceLimit''
      else if e = Document_job_conflict then ''AttemptLost''
      else ''ProcessingFailed'')"

definition claimed_work ::
  "doc_claim \<Rightarrow> tool_context \<Rightarrow> string \<Rightarrow> rat \<Rightarrow> (doc_world, exn, stored_version) proc" where
  "claimed_work claim ctx new_document created =
     (let pl = plain_text_pipeline (dc_options claim); st = claimed_store claim
      in case (dj_operation (dc_job claim), dc_request claim) of
           (Op_create, Create_source r) \<Rightarrow> facade_ingest pl st r ctx new_document created
         | (Op_create, Update_source _) \<Rightarrow> authorized ctx ''document.create'' (raiseP Validation_error)
         | (Op_update, Update_source u) \<Rightarrow> facade_update pl st u ctx created
         | (Op_update, Create_source _) \<Rightarrow> authorized ctx ''document.update'' (raiseP Validation_error))"

text \<open>\<open>process_document_job\<close>\<close>

definition process_document_job ::
  "doc_cfg \<Rightarrow> string \<Rightarrow> tool_context \<Rightarrow> string \<Rightarrow> rat \<Rightarrow> (doc_world, exn, doc_job) proc" where
  "process_document_job cfg jid ctx new_document created =
     bindP (call_db (\<lambda>clk token. claim_job cfg jid (tenant_id ctx) token (clk 0) (clk 1) (clk 2) (clk 3)))
       (\<lambda>claimed.
        case claimed of
          None \<Rightarrow> call_db (\<lambda>clk _. get_job jid (tenant_id ctx) (clk 0))
        | Some claim \<Rightarrow>
            thenP (tryP (thenP (claimed_work claim ctx new_document created) (returnP ()))
                        (\<lambda>e. call_db (\<lambda>clk _. fail_job cfg claim (failure_code e) (clk 0))))
              (call_db (\<lambda>clk _. get_job jid (tenant_id ctx) (clk 0))))"

text \<open>\<open>execute_document_job\<close>: the context comes from the active configuration, not from the message.\<close>

definition execute_document_job ::
  "doc_cfg \<Rightarrow> tenant_settings \<Rightarrow> string \<Rightarrow> string \<Rightarrow> string \<Rightarrow> rat \<Rightarrow> (doc_world, exn, doc_job) proc" where
  "execute_document_job cfg settings jid t new_document created =
     bindP (liftR (worker_context settings t)) (\<lambda>ctx. process_document_job cfg jid ctx new_document created)"

text \<open>\<open>document_task.run_document_job\<close>: the delivery is bound to its task identity and tenant queue.\<close>

definition run_document_job ::
  "doc_cfg \<Rightarrow> tenant_settings \<Rightarrow> string \<Rightarrow> string option \<Rightarrow> string \<Rightarrow> string \<Rightarrow> string \<Rightarrow> rat \<Rightarrow>
   (doc_world, exn, string \<times> job_state) proc" where
  "run_document_job cfg settings task_id routing_key jid t new_document created =
     thenP (requireP (tenant_pattern t) Validation_error)
     (thenP (requireP (task_id = jid) Value_error)
     (bindP (liftR (tenant_queue settings t)) (\<lambda>queue.
      thenP (requireP (routing_key = Some queue) Value_error)
      (bindP (tryP (execute_document_job cfg settings jid t new_document created)
                (\<lambda>e. if e = Document_job_conflict then raiseP Celery_ignore else raiseP e)) (\<lambda>result.
       returnP (dj_id result, dj_state result))))))"

section \<open>The worker only makes the job table's own steps\<close>

lemma job_trace_append:
  "job_trace cfg kd rd db1 evs' db2 \<Longrightarrow> job_trace cfg kd rd db evs db1 \<Longrightarrow> job_trace cfg kd rd db (evs @ evs') db2"
proof (induction rule: job_trace.induct)
  case (trace_step db1 evs' db2 e db3)
  then show ?case by (metis append.assoc job_trace.trace_step)
qed simp

definition worker_reach ::
  "doc_cfg \<Rightarrow> (string \<Rightarrow> string) \<Rightarrow> (job_operation \<Rightarrow> doc_request \<Rightarrow> string) \<Rightarrow> doc_db \<Rightarrow> doc_world \<Rightarrow> bool" where
  "worker_reach cfg kd rd db0 w \<longleftrightarrow>
     (\<exists>evs. job_trace cfg kd rd db0 evs (dw_db w)) \<and>
     (\<forall>k db. \<exists>evs. job_trace cfg kd rd db evs (dw_env w k db))"

lemma preserves_call_db:
  assumes "\<And>clk fresh db x db'. f clk fresh db = Inr (x, db') \<Longrightarrow>
      db' = db \<or> (\<exists>e. job_step cfg kd rd db e db')"
  shows "preserves (worker_reach cfg kd rd db0) (call_db f)"
proof (rule preservesI)
  fix w assume w: "worker_reach cfg kd rd db0 w"
  let ?k = "dw_calls w" and ?db = "dw_env w (dw_calls w) (dw_db w)"
  obtain evs where tr: "job_trace cfg kd rd db0 evs ?db"
    using w job_trace_append by (metis worker_reach_def)
  have "\<exists>evs. job_trace cfg kd rd db0 evs db'"
    if "f (dw_clock w ?k) (dw_fresh w ?k) ?db = Inr (x, db')" for x db'
    using assms [OF that] tr by (auto intro: trace_step)
  with w tr show "wp (call_db f) (\<lambda>_. worker_reach cfg kd rd db0) (\<lambda>_. worker_reach cfg kd rd db0) w"
    by (auto simp: wp_def call_db_def Let_def worker_reach_def split: sum.split)
qed

lemma preserves_claimed_store:
  "preserves (worker_reach cfg kd rd db0) (st_create (claimed_store c) r)"
  "preserves (worker_reach cfg kd rd db0) (st_get (claimed_store c) t d v)"
  by (auto simp: claimed_store_def get_version_def Let_def split: option.splits
      intro!: preserves_call_db intro: step_commit)

lemma preserves_claimed_work:
  "preserves (worker_reach cfg kd rd db0) (claimed_work c ctx nd created)"
  unfolding claimed_work_def facade_ingest_def facade_update_def coordinator_process_def
    coordinator_update_def prepare_and_store_def Let_def
  by (auto intro!: preserves_intro preserves_claimed_store split: job_operation.split doc_request.split)

lemma preserves_process_document_job:
  "preserves (worker_reach cfg kd rd db0) (process_document_job cfg jid ctx nd created)"
proof -
  have get: "preserves (worker_reach cfg kd rd db0) (call_db (\<lambda>clk _. get_job jid t (clk 0)))" for t
    by (rule preserves_call_db) (auto simp: get_job_def)
  have claim: "preserves (worker_reach cfg kd rd db0)
      (call_db (\<lambda>clk tok. claim_job cfg jid t tok (clk 0) (clk 1) (clk 2) (clk 3)))" for t
  proof (rule preserves_call_db)
    fix clk :: "nat \<Rightarrow> rat" and tok db x db'
    assume "claim_job cfg jid t tok (clk 0) (clk 1) (clk 2) (clk 3) db = Inr (x, db')"
    then show "db' = db \<or> (\<exists>e. job_step cfg kd rd db e db')"
      by (cases x) (auto intro: step_claim step_claim_none)
  qed
  have fail: "preserves (worker_reach cfg kd rd db0) (call_db (\<lambda>clk _. fail_job cfg c code (clk 0)))" for c code
    by (rule preserves_call_db) (auto intro: step_fail)
  show ?thesis unfolding process_document_job_def
    by (intro preserves_bindP preserves_thenP preserves_tryP claim)
      (auto intro!: preserves_intro get fail preserves_claimed_work split: option.split)
qed


section \<open>What a job's outcome is\<close>

text \<open>
  The outcome of a claimed job, computed from its request, the worker's grants and the versions its
  document has; no store, lease or token is involved.
\<close>

definition job_outcome ::
  "doc_db \<Rightarrow> tool_context \<Rightarrow> job_row \<Rightarrow> string \<Rightarrow> rat \<Rightarrow> exn + stored_version" where
  "job_outcome db ctx row new_document created =
     (let t = jr_tenant row; d = jr_document_id row; latest = length (versions_of db t d);
          pl = plain_text_pipeline (jr_options row)
      in case jr_payload row of
           None \<Rightarrow> Inl Document_storage_corruption
         | Some (Create_source r) \<Rightarrow>
             if ''document.create'' \<notin> permissions ctx then Inl Policy_denied_error
             else bindR (prepare_record pl r t new_document 1 created) (\<lambda>rec.
               if latest \<noteq> 0 then Inl Document_version_conflict else Inr (rec\<lparr>sv_document_id := d\<rparr>))
         | Some (Update_source u) \<Rightarrow>
             if ''document.update'' \<notin> permissions ctx then Inl Policy_denied_error
             else if latest = 0 then Inl Document_not_found
             else if latest \<noteq> ur_expected_version u then Inl Document_version_conflict
             else prepare_record pl (update_source u) t d (ur_expected_version u + 1) created)"

lemma failure_code_pattern: "failure_code_pattern (failure_code e)"
  by (simp add: failure_code_def failure_code_pattern_def pattern_defs)

text \<open>A world no other process touches, whose readings of the clock fall within one lease.\<close>

definition quiet :: "doc_cfg \<Rightarrow> doc_world \<Rightarrow> bool" where
  "quiet cfg w \<longleftrightarrow> (\<forall>k db. dw_env w k db = db) \<and>
     (\<forall>k i l j. dw_clock w k i < dw_clock w l j + job_lease_seconds cfg)"

text \<open>The database while the attempt is running.\<close>

definition running_in :: "doc_cfg \<Rightarrow> doc_db \<Rightarrow> doc_claim \<Rightarrow> doc_world \<Rightarrow> bool" where
  "running_in cfg db c w \<longleftrightarrow> quiet cfg w \<and> doc_inv cfg (dw_db w) \<and>
     (\<forall>t d. versions_of (dw_db w) t d = versions_of db t d) \<and>
     (\<exists>row l. find_job (dw_db w) (dj_id (dc_job c)) (dj_tenant (dc_job c)) = Inr row \<and>
        jr_state row = Job_running \<and> jr_token row = Some (dc_token c) \<and> jr_lease_until row = Some l \<and>
        (\<forall>k i. dw_clock w k i < l))"

lemma call_db_quiet:
  "quiet cfg w \<Longrightarrow> call_db f w =
     (case f (dw_clock w (dw_calls w)) (dw_fresh w (dw_calls w)) (dw_db w) of
        Inl e \<Rightarrow> (Inl e, w\<lparr>dw_calls := dw_calls w + 1\<rparr>)
      | Inr (x, db') \<Rightarrow> (Inr x, w\<lparr>dw_db := db', dw_calls := dw_calls w + 1\<rparr>))"
  by (cases w) (simp add: call_db_def quiet_def Let_def split: sum.split)

lemma quiet_frame [simp]:
  "quiet cfg (w\<lparr>dw_calls := n\<rparr>) = quiet cfg w" "quiet cfg (w\<lparr>dw_db := db\<rparr>) = quiet cfg w"
  by (simp_all add: quiet_def)

lemma wp_st_create:
  assumes run: "running_in cfg db c w" and rec: "record_for_claim c r = Inr r'"
  shows "wp (st_create (claimed_store c) r)
     (\<lambda>x w'. x = r' \<and> sv_version r' = length (versions_of db (sv_tenant_id r') (sv_document_id r')) + 1 \<and>
        quiet cfg w' \<and> doc_inv cfg (dw_db w') \<and>
        versions_of (dw_db w') (sv_tenant_id r') (sv_document_id r')
          = versions_of db (sv_tenant_id r') (sv_document_id r') @ [r'] \<and>
        (\<exists>row. find_job (dw_db w') (dj_id (dc_job c)) (dj_tenant (dc_job c)) = Inr row \<and>
          jr_state row = Job_succeeded \<and> jr_version row = Some (sv_version r')))
     (\<lambda>e w'. e = Document_version_conflict \<and> running_in cfg db c w' \<and>
        sv_version r' \<noteq> length (versions_of db (sv_tenant_id r') (sv_document_id r')) + 1) w"
proof -
  obtain row l where q: "quiet cfg w" and inv: "doc_inv cfg (dw_db w)"
    and vs: "\<And>t d. versions_of (dw_db w) t d = versions_of db t d"
    and row: "find_job (dw_db w) (dj_id (dc_job c)) (dj_tenant (dc_job c)) = Inr row"
      "jr_state row = Job_running" "jr_token row = Some (dc_token c)" "jr_lease_until row = Some l"
    and l: "\<And>k i. dw_clock w k i < l"
    using run by (auto simp: running_in_def)
  have v: "valid_stored r'" "sv_tenant_id r' = dj_tenant (dc_job c)" "sv_document_id r' = dj_document_id (dc_job c)"
    using record_for_claim_InrD [OF rec] by simp_all
  have owned: "owned_attempt c row (dw_clock w (dw_calls w) 0) = Inr ()"
    using row l by (simp add: owned_attempt_def lease_live_def)
  have lat: "latest_version (dw_db w) (sv_tenant_id r') (sv_document_id r')
      = length (versions_of db (sv_tenant_id r') (sv_document_id r'))"
    using inv vs by (simp add: doc_inv_def latest_version_eq)
  have t: "tenant_pattern (sv_tenant_id r')" using v by (simp add: valid_stored_def)
  show ?thesis
  proof (cases "commit_job c r (dw_clock w (dw_calls w) 0) (dw_clock w (dw_calls w) 1) (dw_db w)")
    case (Inl e)
    then have "append_version r' (dw_db w) = Inl e"
      using rec row(1) owned by (auto simp: commit_job_def bindR_Inl_iff)
    then have "e = Document_version_conflict \<and>
        sv_version r' \<noteq> length (versions_of db (sv_tenant_id r') (sv_document_id r')) + 1"
      using t by (auto simp: append_version_def check_identity_def lat Let_def split: if_splits)
    with Inl run q show ?thesis
      by (simp add: wp_def claimed_store_def call_db_quiet [OF q] running_in_def)
  next
    case (Inr p)
    obtain x db' where p: "p = (x, db')" by (cases p)
    with Inr have ok: "commit_job c r (dw_clock w (dw_calls w) 0) (dw_clock w (dw_calls w) 1) (dw_db w) = Inr (x, db')"
      by simp
    then have x: "x = r'" using rec by (auto simp: commit_job_def)
    have "append_version r' (dw_db w) \<noteq> Inl Document_version_conflict"
      using ok rec row(1) owned by (auto simp: commit_job_def)
    then have "sv_version r' = length (versions_of db (sv_tenant_id r') (sv_document_id r')) + 1"
      using t by (auto simp: append_version_def check_identity_def lat Let_def split: if_splits)
    moreover have "doc_inv cfg db'" by (rule doc_inv_commit [OF inv ok])
    moreover have "versions_of db' (sv_tenant_id r') (sv_document_id r')
          = versions_of db (sv_tenant_id r') (sv_document_id r') @ [r']"
      and "\<exists>row. find_job db' (dj_id (dc_job c)) (dj_tenant (dc_job c)) = Inr row \<and>
          jr_state row = Job_succeeded \<and> jr_version row = Some (sv_version r')"
      using commit_facts [OF inv ok] x v vs by auto
    ultimately show ?thesis using Inr p q x
      by (simp add: wp_def claimed_store_def call_db_quiet [OF q])
  qed
qed

lemma valid_stored_document [simp]: "valid_stored (r\<lparr>sv_document_id := d\<rparr>) = valid_stored r"
  by (simp add: valid_stored_def saved_chunks_ok_def)

lemma wp_st_get:
  assumes run: "running_in cfg db c w" and t: "tenant_pattern t"
  shows "wp (st_get (claimed_store c) t d None)
     (\<lambda>x w'. versions_of db t d \<noteq> [] \<and> sv_version x = length (versions_of db t d) \<and> running_in cfg db c w')
     (\<lambda>e w'. e = Document_not_found \<and> versions_of db t d = [] \<and> running_in cfg db c w') w"
proof -
  have q: "quiet cfg w" and inv: "versions_inv (dw_db w)"
    and vs: "versions_of (dw_db w) t d = versions_of db t d"
    using run by (auto simp: running_in_def doc_inv_def)
  have "versions_of db t d \<noteq> [] \<Longrightarrow> sv_version (last (versions_of db t d)) = length (versions_of db t d)"
    using versions_of_versions [OF inv, of "length (versions_of db t d) - 1" t d] vs
    by (simp add: last_conv_nth)
  with run show ?thesis
    by (simp add: wp_def claimed_store_def call_db_quiet [OF q] get_version_eq [OF inv t] vs running_in_def)
qed

lemma wp_claimed_work:
  assumes run: "running_in cfg db c w"
    and row: "job_ok cfg row" "jr_payload row = Some req" "read_payload row = Inr (dc_request c)"
    and c: "dj_tenant (dc_job c) = jr_tenant row" "dj_document_id (dc_job c) = jr_document_id row"
      "dj_operation (dc_job c) = jr_operation row" "dc_options c = jr_options row"
    and ctx: "tenant_id ctx = jr_tenant row"
  shows "wp (claimed_work c ctx nd created)
     (\<lambda>x w'. job_outcome db ctx row nd created = Inr x \<and> quiet cfg w' \<and> doc_inv cfg (dw_db w') \<and>
        versions_of (dw_db w') (jr_tenant row) (jr_document_id row)
          = versions_of db (jr_tenant row) (jr_document_id row) @ [x] \<and>
        (\<exists>row'. find_job (dw_db w') (dj_id (dc_job c)) (jr_tenant row) = Inr row' \<and>
          jr_state row' = Job_succeeded \<and> jr_version row' = Some (sv_version x)))
     (\<lambda>e w'. job_outcome db ctx row nd created = Inl e \<and> running_in cfg db c w') w"
proof -
  have req: "dc_request c = req" "is_ok (validate_request (jr_operation row) req)" "valid_options (jr_options row)"
    using row by (auto simp: read_payload_def split: if_splits)
  have t: "tenant_pattern (jr_tenant row)" using row(1) by (simp add: job_ok_def)
  show ?thesis
  proof (cases req)
    case (Create_source r)
    then have op: "jr_operation row = Op_create" and vr: "valid_ingestion_request r"
      using req(2) by (auto simp: validate_request_def split: job_operation.splits if_splits)
    let ?d = "jr_document_id row"
    let ?p = "prepare_record (plain_text_pipeline (jr_options row)) r (jr_tenant row) nd 1 created"
    have store: "wp (st_create (claimed_store c) rec)
        (\<lambda>x w'. x = rec\<lparr>sv_document_id := ?d\<rparr> \<and> versions_of db (jr_tenant row) ?d = [] \<and>
          quiet cfg w' \<and> doc_inv cfg (dw_db w') \<and>
          versions_of (dw_db w') (jr_tenant row) ?d = versions_of db (jr_tenant row) ?d @ [x] \<and>
          (\<exists>row'. find_job (dw_db w') (dj_id (dc_job c)) (jr_tenant row) = Inr row' \<and>
            jr_state row' = Job_succeeded \<and> jr_version row' = Some (sv_version x)))
        (\<lambda>e w'. e = Document_version_conflict \<and> running_in cfg db c w' \<and> versions_of db (jr_tenant row) ?d \<noteq> []) w"
      if "?p = Inr rec" for rec
    proof -
      have r: "valid_stored rec" "sv_tenant_id rec = jr_tenant row" "sv_version rec = 1"
        using prepare_record_InrD [OF that] by simp_all
      then have "record_for_claim c rec = Inr (rec\<lparr>sv_document_id := ?d\<rparr>)"
        using c op by (simp add: record_for_claim_def validate_stored_def)
      from wp_st_create [OF run this] r c(1) show ?thesis by (auto elim!: wp_mono)
    qed
    show ?thesis
    proof (cases ?p)
      case (Inl e)
      with Create_source op vr run c ctx row req show ?thesis
        by (auto simp: claimed_work_def facade_ingest_def authorized_eq coordinator_process_def
            prepare_and_store_def job_outcome_def Let_def wp_rules)
    next
      case (Inr rec)
      with Create_source op vr run c ctx row req store [OF Inr] show ?thesis
        by (auto simp: claimed_work_def facade_ingest_def authorized_eq coordinator_process_def
            prepare_and_store_def job_outcome_def Let_def wp_rules elim!: wp_mono)
    qed
  next
    case (Update_source u)
    then have op: "jr_operation row = Op_update" and vr: "valid_update_request u"
      using req(2) by (auto simp: validate_request_def split: job_operation.splits if_splits)
    have d: "ur_document_id u = jr_document_id row"
      using row Update_source by (auto simp: read_payload_def request_target_def split: if_splits)
    let ?d = "jr_document_id row"
    let ?p = "prepare_record (plain_text_pipeline (jr_options row)) (update_source u) (jr_tenant row) ?d
        (ur_expected_version u + 1) created"
    have store: "wp (st_create (claimed_store c) rec)
        (\<lambda>x w'. x = rec \<and> quiet cfg w' \<and> doc_inv cfg (dw_db w') \<and>
          versions_of (dw_db w') (jr_tenant row) ?d = versions_of db (jr_tenant row) ?d @ [x] \<and>
          (\<exists>row'. find_job (dw_db w') (dj_id (dc_job c)) (jr_tenant row) = Inr row' \<and>
            jr_state row' = Job_succeeded \<and> jr_version row' = Some (sv_version x)))
        (\<lambda>e w'. False) w'"
      if "?p = Inr rec" and run': "running_in cfg db c w'"
        and len: "length (versions_of db (jr_tenant row) ?d) = ur_expected_version u" for rec w'
    proof -
      have r: "valid_stored rec" "sv_tenant_id rec = jr_tenant row" "sv_document_id rec = ?d"
          "sv_version rec = ur_expected_version u + 1"
        using prepare_record_InrD [OF that(1)] by simp_all
      then have "record_for_claim c rec = Inr rec"
        using c op req(1) Update_source by (simp add: record_for_claim_def validate_stored_def)
      from wp_st_create [OF run' this] r c(1) len show ?thesis by (auto elim!: wp_mono)
    qed
    show ?thesis
    proof (cases "''document.update'' \<in> permissions ctx")
      case False
      with Update_source op run c ctx row req show ?thesis
        by (simp add: claimed_work_def facade_update_def authorized_eq job_outcome_def Let_def wp_rules)
    next
      case True
      have "wp (bindP (st_get (claimed_store c) (jr_tenant row) ?d None) (\<lambda>latest.
            thenP (requireP (sv_version latest = ur_expected_version u) Document_version_conflict)
              (prepare_and_store (plain_text_pipeline (jr_options row)) (claimed_store c) (update_source u)
                 (jr_tenant row) ?d (ur_expected_version u + 1) created)))
          (\<lambda>x w'. job_outcome db ctx row nd created = Inr x \<and> quiet cfg w' \<and> doc_inv cfg (dw_db w') \<and>
            versions_of (dw_db w') (jr_tenant row) ?d = versions_of db (jr_tenant row) ?d @ [x] \<and>
            (\<exists>row'. find_job (dw_db w') (dj_id (dc_job c)) (jr_tenant row) = Inr row' \<and>
              jr_state row' = Job_succeeded \<and> jr_version row' = Some (sv_version x)))
          (\<lambda>e w'. job_outcome db ctx row nd created = Inl e \<and> running_in cfg db c w') w"
        unfolding wp_bindP
      proof (rule wp_mono [OF wp_st_get [OF run t, of ?d]])
        fix x w'
        assume x: "versions_of db (jr_tenant row) ?d \<noteq> [] \<and>
            sv_version x = length (versions_of db (jr_tenant row) ?d) \<and> running_in cfg db c w'"
        show "wp (thenP (requireP (sv_version x = ur_expected_version u) Document_version_conflict)
              (prepare_and_store (plain_text_pipeline (jr_options row)) (claimed_store c) (update_source u)
                 (jr_tenant row) ?d (ur_expected_version u + 1) created))
            (\<lambda>x w'. job_outcome db ctx row nd created = Inr x \<and> quiet cfg w' \<and> doc_inv cfg (dw_db w') \<and>
              versions_of (dw_db w') (jr_tenant row) ?d = versions_of db (jr_tenant row) ?d @ [x] \<and>
              (\<exists>row'. find_job (dw_db w') (dj_id (dc_job c)) (jr_tenant row) = Inr row' \<and>
                jr_state row' = Job_succeeded \<and> jr_version row' = Some (sv_version x)))
            (\<lambda>e w'. job_outcome db ctx row nd created = Inl e \<and> running_in cfg db c w') w'"
        proof (cases ?p)
          case (Inl e)
          with x True row(2) Update_source show ?thesis
            by (auto simp: prepare_and_store_def job_outcome_def Let_def wp_rules)
        next
          case (Inr rec)
          with x True row(2) Update_source store [OF Inr, of w'] show ?thesis
            by (auto simp: prepare_and_store_def job_outcome_def Let_def wp_rules elim!: wp_mono)
        qed
      next
        fix e w'
        assume "e = Document_not_found \<and> versions_of db (jr_tenant row) ?d = [] \<and> running_in cfg db c w'"
        with True row(2) Update_source show "job_outcome db ctx row nd created = Inl e \<and> running_in cfg db c w'"
          by (simp add: job_outcome_def Let_def)
      qed
      with True Update_source op vr c ctx req d show ?thesis
        by (simp add: claimed_work_def facade_update_def authorized_eq coordinator_update_def Let_def wp_rules)
    qed
  qed
qed

lemma wp_fail:
  assumes run: "running_in cfg db c w"
  shows "wp (call_db (\<lambda>clk _. fail_job cfg c (failure_code e) (clk 0)))
     (\<lambda>_ w'. quiet cfg w' \<and> doc_inv cfg (dw_db w') \<and> (\<forall>t d. versions_of (dw_db w') t d = versions_of db t d) \<and>
        (\<exists>row'. find_job (dw_db w') (dj_id (dc_job c)) (dj_tenant (dc_job c)) = Inr row' \<and>
          jr_state row' = Job_failed \<and> jr_error row' = Some (failure_code e)))
     (\<lambda>_ _. False) w"
proof -
  obtain row where q: "quiet cfg w" and inv: "doc_inv cfg (dw_db w)"
    and vs: "\<And>t d. versions_of (dw_db w) t d = versions_of db t d"
    and row: "find_job (dw_db w) (dj_id (dc_job c)) (dj_tenant (dc_job c)) = Inr row"
      "jr_state row = Job_running" "jr_token row = Some (dc_token c)"
    using run by (auto simp: running_in_def)
  let ?p = "\<lambda>j. jr_id j = dj_id (dc_job c) \<and> jr_tenant j = dj_tenant (dc_job c) \<and>
                  jr_token j = Some (dc_token c) \<and> jr_state j = Job_running"
  let ?f = "fail_attempt cfg (failure_code e) (dw_clock w (dw_calls w) 0)"
  let ?db' = "(dw_db w)\<lparr>db_jobs := update_where ?p ?f (db_jobs (dw_db w))\<rparr>"
  have ok: "fail_job cfg c (failure_code e) (dw_clock w (dw_calls w) 0) (dw_db w) = Inr ((), ?db')"
    by (simp add: fail_job_def failure_code_pattern)
  have "find_job ?db' (dj_id (dc_job c)) (dj_tenant (dc_job c)) = Inr (?f row)"
  proof -
    have "select1 (\<lambda>j. jr_id j = dj_id (dc_job c) \<and> jr_tenant j = dj_tenant (dc_job c)) (update_where ?p ?f (db_jobs (dw_db w)))
       = map_option (\<lambda>j. if ?p j then ?f j else j)
           (select1 (\<lambda>j. jr_id j = dj_id (dc_job c) \<and> jr_tenant j = dj_tenant (dc_job c)) (db_jobs (dw_db w)))"
      by (intro select1_update_where) (simp add: keeps_keyD [OF keeps_key(5)])
    with row show ?thesis by (auto simp: find_job_def split: option.splits dest: select1_SomeD)
  qed
  moreover have "doc_inv cfg ?db'" by (rule doc_inv_fail [OF inv ok])
  ultimately show ?thesis using ok q vs
    by (simp add: wp_def call_db_quiet [OF q] fail_attempt_def)
qed

lemma wp_get_job:
  assumes "quiet cfg w" and "doc_inv cfg (dw_db w)" and "find_job (dw_db w) jid t = Inr row"
  shows "wp (call_db (\<lambda>clk _. get_job jid t (clk 0)))
     (\<lambda>j w'. dw_db w' = dw_db w \<and> quiet cfg w' \<and> dj_document_id j = jr_document_id row \<and>
        dj_state j = jr_state row \<and> dj_version j = jr_version row \<and> dj_error j = jr_error row)
     (\<lambda>_ _. False) w"
proof -
  obtain j where j: "view_job (dw_db w) (dw_clock w (dw_calls w) 0) row = Inr j"
    using view_job_ok [of cfg row] job_ok_row [OF _ assms(3), of cfg] assms(2) by (auto simp: doc_inv_def)
  then have "dj_document_id j = jr_document_id row" "dj_state j = jr_state row" "dj_version j = jr_version row"
    "dj_error j = jr_error row"
    by (auto simp: view_job_def Let_def split: if_splits)
  with j assms show ?thesis by (simp add: wp_def call_db_quiet [OF assms(1)] get_job_def)
qed

lemma wp_claim:
  assumes q: "quiet cfg w" and inv: "doc_inv cfg (dw_db w)"
    and row: "find_job (dw_db w) jid t = Inr row" "jr_state row = Job_queued"
      "jr_attempts row < job_max_attempts cfg"
  shows "wp (call_db (\<lambda>clk tok. claim_job cfg jid t tok (clk 0) (clk 1) (clk 2) (clk 3)))
     (\<lambda>x w'. \<exists>c. x = Some c \<and> running_in cfg (dw_db w) c w' \<and> dj_id (dc_job c) = jid \<and>
        dj_tenant (dc_job c) = t \<and> dj_document_id (dc_job c) = jr_document_id row \<and>
        dj_operation (dc_job c) = jr_operation row \<and> dc_options c = jr_options row \<and>
        read_payload row = Inr (dc_request c))
     (\<lambda>_ _. False) w"
proof -
  let ?clk = "dw_clock w (dw_calls w)" and ?tok = "dw_fresh w (dw_calls w)"
  let ?f = "start_attempt ?tok (?clk 1 + job_lease_seconds cfg) (?clk 2)"
  let ?db' = "update_job jid ?f (dw_db w)"
  have ji: "jobs_inv cfg (dw_db w)" using inv by (simp add: doc_inv_def)
  have ok: "job_ok cfg row" by (rule job_ok_row [OF ji row(1)])
  have id: "jr_id row = jid" "jr_tenant row = t" using find_job_InrD [OF row(1)] by simp_all
  obtain req where req: "read_payload row = Inr req" using ok row(2) by (auto simp: job_ok_def is_ok_iff)
  have ok': "job_ok cfg (?f row)" using ok row by (intro job_ok_start) auto
  obtain j where j: "view_job (dw_db w) (?clk 3) (?f row) = Inr j"
    using view_job_ok [OF ok'] by blast
  let ?c = "\<lparr>dc_job = j, dc_request = req, dc_options = jr_options row, dc_token = ?tok\<rparr>"
  have found: "find_job ?db' jid t = Inr (?f row)" using row by (simp add: find_job_update row_simps)
  have claim: "claim_job cfg jid t ?tok (?clk 0) (?clk 1) (?clk 2) (?clk 3) (dw_db w) = Inr (Some ?c, ?db')"
    using row j found req by (simp add: claim_job_def running_live_def Let_def)
  have "running_in cfg (dw_db w) ?c (w\<lparr>dw_db := ?db', dw_calls := dw_calls w + 1\<rparr>)"
    using q found doc_inv_claim [OF inv claim] view_job_InrD [OF j] id
    by (auto simp: running_in_def start_attempt_def quiet_def)
  with claim req view_job_InrD [OF j] id show ?thesis
    by (simp add: wp_def call_db_quiet [OF q] start_attempt_def)
qed

lemma process_outcome:
  assumes q: "quiet cfg w" and inv: "doc_inv cfg (dw_db w)"
    and row: "find_job (dw_db w) jid (tenant_id ctx) = Inr row" "jr_state row = Job_queued"
      "jr_attempts row < job_max_attempts cfg"
  shows "wp (process_document_job cfg jid ctx nd created)
     (\<lambda>j w'. (case job_outcome (dw_db w) ctx row nd created of
         Inr rec \<Rightarrow> dj_state j = Job_succeeded \<and> dj_version j = Some (sv_version rec) \<and>
           versions_of (dw_db w') (jr_tenant row) (jr_document_id row)
             = versions_of (dw_db w) (jr_tenant row) (jr_document_id row) @ [rec]
       | Inl e \<Rightarrow> dj_state j = Job_failed \<and> dj_error j = Some (failure_code e) \<and>
           (\<forall>t d. versions_of (dw_db w') t d = versions_of (dw_db w) t d)) \<and>
       quiet cfg w' \<and> doc_inv cfg (dw_db w') \<and>
       (\<exists>row'. find_job (dw_db w') jid (tenant_id ctx) = Inr row' \<and> dj_document_id j = jr_document_id row'))
     (\<lambda>_ _. False) w" (is "wp _ ?Q _ _")
proof -
  have ji: "jobs_inv cfg (dw_db w)" using inv by (simp add: doc_inv_def)
  have ok: "job_ok cfg row" by (rule job_ok_row [OF ji row(1)])
  obtain req where req: "jr_payload row = Some req" using ok row(2) by (auto simp: job_ok_def)
  have t: "jr_tenant row = tenant_id ctx" using find_job_InrD [OF row(1)] by simp
  show ?thesis
    unfolding process_document_job_def wp_bindP
  proof (rule wp_mono [OF wp_claim [OF q inv row]])
    fix x w1
    assume "\<exists>c. x = Some c \<and> running_in cfg (dw_db w) c w1 \<and> dj_id (dc_job c) = jid \<and>
        dj_tenant (dc_job c) = tenant_id ctx \<and> dj_document_id (dc_job c) = jr_document_id row \<and>
        dj_operation (dc_job c) = jr_operation row \<and> dc_options c = jr_options row \<and>
        read_payload row = Inr (dc_request c)"
    then obtain c where x: "x = Some c" and run: "running_in cfg (dw_db w) c w1"
      and c: "dj_id (dc_job c) = jid" "dj_tenant (dc_job c) = jr_tenant row"
        "dj_document_id (dc_job c) = jr_document_id row" "dj_operation (dc_job c) = jr_operation row"
        "dc_options c = jr_options row" "read_payload row = Inr (dc_request c)"
      using t by auto
    have "wp (thenP (tryP (thenP (claimed_work c ctx nd created) (returnP ()))
              (\<lambda>e. call_db (\<lambda>clk _. fail_job cfg c (failure_code e) (clk 0))))
            (call_db (\<lambda>clk _. get_job jid (tenant_id ctx) (clk 0)))) ?Q (\<lambda>_ _. False) w1"
      unfolding wp_rules
    proof (rule wp_mono [OF wp_claimed_work [OF run ok req c(6) c(2-5) t [symmetric], of nd created]], goal_cases)
      case (1 rec w2)
      then obtain row' where "find_job (dw_db w2) jid (tenant_id ctx) = Inr row'"
        "jr_state row' = Job_succeeded" "jr_version row' = Some (sv_version rec)" using c t by auto
      with 1 show ?case by (auto intro: wp_mono [OF wp_get_job])
    next
      case (2 e w2)
      then have run2: "running_in cfg (dw_db w) c w2" by simp
      show ?case
      proof (rule wp_mono [OF wp_fail [OF run2, of e]], goal_cases)
        case (1 u w3)
        then obtain row' where "find_job (dw_db w3) jid (tenant_id ctx) = Inr row'"
          "jr_state row' = Job_failed" "jr_error row' = Some (failure_code e)" using c t by auto
        with 1 2 show ?case by (auto intro: wp_mono [OF wp_get_job])
      qed simp
    qed
    with x show "wp (case x of None \<Rightarrow> call_db (\<lambda>clk _. get_job jid (tenant_id ctx) (clk 0))
        | Some claim \<Rightarrow>
            thenP (tryP (thenP (claimed_work claim ctx nd created) (returnP ()))
                        (\<lambda>e. call_db (\<lambda>clk _. fail_job cfg claim (failure_code e) (clk 0))))
              (call_db (\<lambda>clk _. get_job jid (tenant_id ctx) (clk 0)))) ?Q (\<lambda>_ _. False) w1" by simp
  qed simp
qed

text \<open>
  C2. What the worker does with a queued job. Undisturbed and within its lease, processing a queued
  job returns its receipt: succeeded, with the one snapshot the request calls for appended to the
  document, when the pipeline, the worker's grants and the document's revision allow it; otherwise
  failed under the code of the exception, with every document as it was.
\<close>

theorem worker_outcome:
  assumes q: "quiet cfg w" and inv: "doc_inv cfg (dw_db w)"
    and row: "find_job (dw_db w) jid (tenant_id ctx) = Inr row" "jr_state row = Job_queued"
      "jr_attempts row < job_max_attempts cfg"
  shows "\<exists>j w'. process_document_job cfg jid ctx nd created w = (Inr j, w') \<and>
    (case job_outcome (dw_db w) ctx row nd created of
       Inr rec \<Rightarrow> dj_state j = Job_succeeded \<and> dj_version j = Some (sv_version rec) \<and>
         versions_of (dw_db w') (jr_tenant row) (jr_document_id row)
           = versions_of (dw_db w) (jr_tenant row) (jr_document_id row) @ [rec]
     | Inl e \<Rightarrow> dj_state j = Job_failed \<and> dj_error j = Some (failure_code e) \<and>
         (\<forall>t d. versions_of (dw_db w') t d = versions_of (dw_db w) t d))"
  using process_outcome [OF assms, of nd created] by (auto simp: wp_def split: prod.splits sum.splits)

end
