(* ===== verification/Examples.thy ===== *)
theory Examples
  imports Ingestion
begin

text \<open>
  Concrete runs: values on which the properties of the components are applied.
\<close>

section \<open>Documents and jobs\<close>

lemmas eval_simps = pattern_defs ucs_def is_ok_def requireR_def Let_def

definition demo_source :: ingestion_request where
  "demo_source = \<lparr>ir_content = [104, 105], ir_title = [116], ir_source_ref = None\<rparr>"

definition demo_stored :: stored_version where
  "demo_stored =
     \<lparr>sv_document_id = ''d1'', sv_tenant_id = ''acme'', sv_version = 1, sv_created_at = 0,
      sv_document = \<lparr>di_title = [116], di_text = [104, 105], di_source_ref = None\<rparr>,
      sv_chunking = \<lparr>cs_strategy = ''character_window_v1'', cs_options = default_options,
        cs_chunks = [\<lparr>ch_index = 0, ch_text = [104, 105], ch_start = 0, ch_end = 2\<rparr>]\<rparr>\<rparr>"

lemma valid_demo_stored: "valid_stored demo_stored"
  by (simp add: demo_stored_def valid_stored_def valid_document_input_def valid_title_def valid_text_def
      py_strip_Nil_iff is_space_def valid_source_ref_def valid_chunking_result_def valid_options_def
      default_options_def valid_chunk_def saved_chunks_ok_def py_slice_def eval_simps)

lemma stored_chunks_recover_text_witness:
  "rebuild 0 (cs_chunks (sv_chunking demo_stored)) = [104, 105]"
  using stored_chunks_recover_text [OF valid_demo_stored] by (simp add: demo_stored_def)

definition demo_cfg :: doc_cfg where
  "demo_cfg = \<lparr>job_lease_seconds = 180, job_max_attempts = 3\<rparr>"

text \<open>A digest that separates sources by their length.\<close>

definition demo_digest :: "job_operation \<Rightarrow> doc_request \<Rightarrow> string" where
  "demo_digest op r = (case r of Create_source c \<Rightarrow> replicate (length (ir_content c)) (CHR ''x'') | Update_source _ \<Rightarrow> [])"

definition demo_job :: job_row where
  "demo_job = new_job_row ''j1'' ''acme'' ''d1'' Op_create ''k'' ''xx'' (Create_source demo_source) default_options 0"

definition demo_queued :: doc_db where
  "demo_queued = \<lparr>db_versions = [], db_jobs = [demo_job]\<rparr>"

definition demo_running :: doc_db where
  "demo_running = \<lparr>db_versions = [], db_jobs = [start_attempt ''t1'' 180 0 demo_job]\<rparr>"

definition demo_done :: doc_db where
  "demo_done = \<lparr>db_versions = [\<lparr>vr_tenant = ''acme'', vr_document_id = ''d1'', vr_version = 1, vr_snapshot = Some demo_stored\<rparr>],
     db_jobs = [succeed_attempt 1 0 (start_attempt ''t1'' 180 0 demo_job)]\<rparr>"

definition demo_deleted :: doc_db where
  "demo_deleted = \<lparr>db_versions = [], db_jobs = [fence_deleted (succeed_attempt 1 0 (start_attempt ''t1'' 180 0 demo_job))]\<rparr>"

definition demo_receipt :: "job_state \<Rightarrow> nat option \<Rightarrow> nat \<Rightarrow> bool \<Rightarrow> bool \<Rightarrow> doc_job" where
  "demo_receipt s v n lease avail =
     \<lparr>dj_id = ''j1'', dj_tenant = ''acme'', dj_document_id = ''d1'', dj_operation = Op_create,
      dj_state = s, dj_version = v, dj_attempts = n, dj_error = None, dj_published = False,
      dj_lease_active = lease, dj_available = avail\<rparr>"

definition demo_claim :: doc_claim where
  "demo_claim = \<lparr>dc_job = demo_receipt Job_running None 1 True False, dc_request = Create_source demo_source,
     dc_options = default_options, dc_token = ''t1''\<rparr>"

lemmas demo_defs = demo_source_def demo_cfg_def demo_digest_def demo_job_def demo_queued_def demo_running_def
  demo_done_def demo_deleted_def demo_receipt_def demo_claim_def new_job_row_def start_attempt_def
  succeed_attempt_def default_options_def

lemma demo_request_valid: "validate_request Op_create (Create_source demo_source) = Inr (Create_source demo_source)"
  by (simp add: demo_source_def validate_request_def valid_ingestion_request_def valid_title_def valid_source_ref_def)

lemma demo_submit:
  "submit_job id demo_digest ''acme'' (Create_source demo_source) Op_create default_options ''k'' ''d1'' ''j1'' 0 0 empty_doc_db
     = Inr (\<lparr>ds_job = demo_receipt Job_queued None 0 False False, ds_replayed = False\<rparr>, demo_queued)"
  unfolding submit_job_def demo_request_valid
  by (simp add: demo_defs key_pattern_def check_identity_def empty_doc_db_def request_target_def
      find_job_def view_job_def valid_doc_job_def eval_simps)

lemma demo_claimed:
  "claim_job demo_cfg ''j1'' ''acme'' ''t1'' 0 0 0 0 demo_queued = Inr (Some demo_claim, demo_running)"
  using demo_request_valid
  by (simp add: claim_job_def demo_defs find_job_def running_live_def read_payload_def valid_options_def
      request_target_def update_job_def update_where_def view_job_def valid_doc_job_def eval_simps)

lemma demo_committed:
  "commit_job demo_claim demo_stored 0 0 demo_running = Inr (demo_stored, demo_done)"
proof -
  have "record_for_claim demo_claim demo_stored = Inr demo_stored"
    using valid_demo_stored
    by (simp add: record_for_claim_def validate_stored_def demo_claim_def demo_receipt_def demo_stored_def)
  then show ?thesis
    by (simp add: commit_job_def demo_defs demo_stored_def find_job_def owned_attempt_def lease_live_def
      append_version_def check_identity_def latest_version_def update_job_def update_where_def eval_simps)
qed

lemma demo_delete: "delete_document ''acme'' ''d1'' demo_done = Inr ((), demo_deleted)"
  by (simp add: delete_document_def demo_defs check_identity_def of_document_def update_where_def eval_simps)

lemma demo_options: "valid_options default_options"
  by (simp add: valid_options_def default_options_def)

lemma demo_invariants:
  "doc_inv demo_cfg demo_queued" "doc_inv demo_cfg demo_running" "doc_inv demo_cfg demo_done"
proof -
  show q: "doc_inv demo_cfg demo_queued" by (rule doc_inv_submit [OF doc_inv_empty demo_options demo_submit])
  then show r: "doc_inv demo_cfg demo_running" by (rule doc_inv_claim [OF _ demo_claimed])
  then show "doc_inv demo_cfg demo_done" by (rule doc_inv_commit [OF _ demo_committed])
qed

lemma demo_later:
  "job_trace demo_cfg id demo_digest demo_queued [Ev_claimed ''j1'' ''t1'', Ev_committed ''j1'' ''t1''] demo_done"
proof -
  note s2 = trace_step [OF trace_start step_claim [OF demo_claimed], of id demo_digest]
  note s3 = trace_step [OF s2 step_commit [OF demo_committed]]
  from s3 show ?thesis by (simp add: demo_claim_def demo_receipt_def)
qed

lemma demo_trace:
  "job_trace demo_cfg id demo_digest empty_doc_db [Ev_other, Ev_claimed ''j1'' ''t1'', Ev_committed ''j1'' ''t1''] demo_done"
proof -
  note s1 = trace_step [OF trace_start step_submit [OF demo_submit demo_options], of demo_cfg]
  note s2 = trace_step [OF s1 step_claim [OF demo_claimed]]
  note s3 = trace_step [OF s2 step_commit [OF demo_committed]]
  from s3 show ?thesis by (simp add: demo_claim_def demo_receipt_def)
qed

lemma document_jobs_invariant_witness: "doc_inv demo_cfg demo_done"
  by (rule document_jobs_invariant [OF demo_trace])

lemma job_commits_exactly_once_witness:
  "commits_of ''j1'' [Ev_other, Ev_claimed ''j1'' ''t1'', Ev_committed ''j1'' ''t1''] = [''t1'']"
  using job_commits_exactly_once [OF demo_trace, of "''j1''"] by (simp add: claims_of_def commits_of_def)

lemma demo_deleted_trace: "job_trace demo_cfg id demo_digest demo_deleted [Ev_other] demo_deleted"
proof -
  have "claim_job demo_cfg ''j1'' ''acme'' ''t2'' 0 0 0 0 demo_deleted = Inr (None, demo_deleted)"
    by (simp add: claim_job_def demo_defs find_job_def fence_deleted_def)
  then show ?thesis using trace_step [OF trace_start step_claim_none] by fastforce
qed


lemma commit_is_atomic_witness:
  "versions_of demo_done ''acme'' ''d1'' = [demo_stored] \<and>
   get_version ''acme'' ''d1'' None demo_done = Inr (demo_stored, demo_done)"
  using commit_is_atomic [OF demo_invariants(2) demo_committed]
  by (simp add: demo_claim_def demo_receipt_def versions_of_def demo_running_def)

lemma submit_idempotent_witness:
  "\<exists>s'. submit_job id demo_digest ''acme'' (Create_source demo_source) Op_create default_options ''k'' ''d9'' ''j9'' 7 7 demo_done
      = Inr (s', demo_done) \<and> ds_replayed s' \<and> dj_id (ds_job s') = ''j1''"
proof -
  from submit_idempotent [OF doc_inv_empty demo_options demo_submit demo_later, of default_options "''d9''" "''j9''" 7 7]
  show ?thesis by (simp add: demo_receipt_def)
qed

definition demo_world :: doc_world where
  "demo_world = \<lparr>dw_db = demo_queued, dw_calls = 0, dw_env = (\<lambda>_ db. db), dw_clock = (\<lambda>_ _. 0), dw_fresh = (\<lambda>_. ''t1'')\<rparr>"

definition demo_worker :: tool_context where
  "demo_worker = \<lparr>tenant_id = ''acme'', permissions = {''document.create''}\<rparr>"


lemma demo_outcome: "job_outcome demo_queued demo_worker demo_job ''d7'' 0 = Inr demo_stored"
proof -
  have "utf8_sig_decode [104, 105] = Some [104, 105]"
    by (simp add: utf8_sig_decode_def Let_def utf8_decode_nat.simps utf8_step_def)
  moreover have "valid_text [104, 105]" by (simp add: valid_text_def py_strip_Nil_iff is_space_def)
  moreover have "window_split \<lparr>cr_text = [104, 105], cr_options = default_options\<rparr> 1000 2000000
      = Inr [\<lparr>ch_index = 0, ch_text = [104, 105], ch_start = 0, ch_end = 2\<rparr>]"
    by (simp add: window_split_def default_options_def window_count_def make_chunk_def valid_chunk_def
        py_slice_def Let_def)
  moreover note demo_options
  moreover have "valid_ingestion_request demo_source"
    by (simp add: demo_source_def valid_ingestion_request_def valid_title_def valid_source_ref_def)
  moreover have "tenant_pattern ''acme''" by (simp add: pattern_defs)
  ultimately show ?thesis
    by (simp add: job_outcome_def prepare_record_eq demo_job_def new_job_row_def demo_worker_def
        demo_stored_def versions_of_def demo_queued_def demo_source_def Let_def)
qed

lemma worker_outcome_witness:
  "\<exists>j w'. process_document_job demo_cfg ''j1'' demo_worker ''d7'' 0 demo_world = (Inr j, w') \<and>
     dj_state j = Job_succeeded \<and> versions_of (dw_db w') ''acme'' ''d1'' = [demo_stored]"
proof -
  have q: "quiet demo_cfg demo_world" by (simp add: quiet_def demo_world_def demo_cfg_def)
  have row: "find_job (dw_db demo_world) ''j1'' (tenant_id demo_worker) = Inr demo_job"
    by (simp add: find_job_def demo_world_def demo_defs demo_worker_def)
  have inv: "doc_inv demo_cfg (dw_db demo_world)" using demo_invariants(1) by (simp add: demo_world_def)
  have "jr_state demo_job = Job_queued" "jr_attempts demo_job < job_max_attempts demo_cfg"
    by (simp_all add: demo_defs)
  from worker_outcome [OF q inv row this, of "''d7''" 0] show ?thesis
    using demo_outcome by (auto simp: demo_world_def demo_job_def new_job_row_def versions_of_def demo_queued_def)
qed

end
