(* ===== verification/Decisions.thy ===== *)
theory Decisions
  imports Documents
begin

text \<open>
  Model proposals and their deterministic checks: the decision, answer and review contracts
  (\<open>dtos/model_decision.py\<close>, \<open>dtos/document_answer.py\<close>, \<open>dtos/document_review.py\<close>,
  \<open>dtos/source_reference.py\<close>, \<open>retrieval/search_contracts.py\<close>), the citation rules
  (\<open>services/citation_validation.py\<close>, \<open>services/document_answer_validation.py\<close>) and the evidence
  review gate with its recovery receipt (\<open>services/document_review_validation.py\<close>).
  \<open>str.isalnum\<close> on a code point (\<open>alnum\<close>) and the digest of a review request (\<open>digest\<close>) are
  parameters.
\<close>

section \<open>Contracts\<close>

record source_reference =
  sr_document_id :: string
  sr_version :: nat
  sr_chunk :: nat

text \<open>\<open>JsonValue\<close>: the arguments of a tool call as the model supplies them.\<close>

datatype json = J_null | J_bool bool | J_int int | J_float rat | J_str ustr
  | J_list "json list" | J_object "(string \<times> json) list"

type_synonym arguments = "(string \<times> json) list"

datatype document_answer =
    Answered ustr "source_reference list"
  | Insufficient_evidence ustr

datatype decision =
    Tool_call ustr arguments
  | Final_answer ustr "source_reference list"
  | Document_final document_answer

datatype answer_mode = General | Document

definition valid_citations :: "source_reference list \<Rightarrow> bool" where
  "valid_citations cs \<longleftrightarrow> length cs \<le> 20 \<and> distinct cs"

definition valid_document_answer :: "document_answer \<Rightarrow> bool" where
  "valid_document_answer a \<longleftrightarrow>
     (case a of
        Answered t cs \<Rightarrow> 1 \<le> length t \<and> length t \<le> 8192 \<and> cs \<noteq> [] \<and> valid_citations cs
      | Insufficient_evidence e \<Rightarrow> 1 \<le> length e \<and> length e \<le> 2048)"

definition valid_decision :: "decision \<Rightarrow> bool" where
  "valid_decision d \<longleftrightarrow>
     (case d of
        Tool_call name _ \<Rightarrow> 1 \<le> length name
      | Final_answer t cs \<Rightarrow> 1 \<le> length t \<and> valid_citations cs
      | Document_final a \<Rightarrow> valid_document_answer a)"

text \<open>The variants of \<open>ModelDecision\<close> and of \<open>DocumentModelDecision\<close>.\<close>

definition mode_allows :: "answer_mode \<Rightarrow> decision \<Rightarrow> bool" where
  "mode_allows m d \<longleftrightarrow>
     (case d of Tool_call _ _ \<Rightarrow> True | Final_answer _ _ \<Rightarrow> m = General | Document_final _ \<Rightarrow> m = Document)"

text \<open>
  \<open>TypeAdapter.validate_python\<close>: an instance of an allowed variant is accepted as it is, anything
  else that is no mapping is refused (\<open>None\<close>); a stored mapping is validated in full.
\<close>

definition validate_decision :: "answer_mode \<Rightarrow> decision option \<Rightarrow> exn + decision" where
  "validate_decision m out =
     (case out of
        None \<Rightarrow> Inl Validation_error
      | Some d \<Rightarrow> if mode_allows m d then Inr d else Inl Validation_error)"

definition validate_stored_decision :: "answer_mode \<Rightarrow> decision \<Rightarrow> exn + decision" where
  "validate_stored_decision m d =
     (if mode_allows m d \<and> valid_decision d then Inr d else Inl Validation_error)"

record passage =
  pa_document_id :: string
  pa_version :: nat
  pa_title :: ustr
  pa_source_ref :: "ustr option"
  pa_chunk :: text_chunk

definition valid_passage :: "passage \<Rightarrow> bool" where
  "valid_passage p \<longleftrightarrow> 1 \<le> pa_version p \<and> valid_title (pa_title p) \<and>
     valid_source_ref (pa_source_ref p) \<and> valid_chunk (pa_chunk p)"

text \<open>\<open>source_key\<close>\<close>

definition source_key :: "passage \<Rightarrow> source_reference" where
  "source_key p = \<lparr>sr_document_id = pa_document_id p, sr_version = pa_version p,
     sr_chunk = ch_index (pa_chunk p)\<rparr>"

record retrieval_request =
  rq_query :: ustr
  rq_top_k :: nat

definition valid_retrieval_request :: "retrieval_request \<Rightarrow> bool" where
  "valid_retrieval_request r \<longleftrightarrow> 1 \<le> length (rq_query r) \<and> length (rq_query r) \<le> 2048 \<and>
     1 \<le> rq_top_k r \<and> rq_top_k r \<le> 20"

record retrieval_result =
  rs_strategy :: string
  rs_passages :: "passage list"

text \<open>\<open>[a-z][a-z0-9_]{0,63}\<close>\<close>

definition strategy_pattern :: "string \<Rightarrow> bool" where
  "strategy_pattern s \<longleftrightarrow>
     (case s of [] \<Rightarrow> False
      | c # r \<Rightarrow> is_lower c \<and> length r \<le> 63 \<and> list_all (\<lambda>x. is_lower x \<or> is_digit x \<or> x = CHR ''_'') r)"

definition valid_retrieval_result :: "retrieval_result \<Rightarrow> bool" where
  "valid_retrieval_result r \<longleftrightarrow> strategy_pattern (rs_strategy r) \<and> length (rs_passages r) \<le> 20 \<and>
     list_all valid_passage (rs_passages r) \<and> distinct (map source_key (rs_passages r))"

section \<open>Citations\<close>

text \<open>\<open>validate_answer_citations\<close>\<close>

definition validate_answer_citations ::
  "source_reference list \<Rightarrow> source_reference set \<Rightarrow> exn + unit" where
  "validate_answer_citations citations observed =
     (if list_ex (\<lambda>r. r \<notin> observed) citations then Inl Unobserved_citation_error else Inr ())"

text \<open>\<open>validate_document_answer\<close>\<close>

definition validate_document_answer ::
  "document_answer \<Rightarrow> source_reference set \<Rightarrow> bool \<Rightarrow> exn + unit" where
  "validate_document_answer a observed search_completed =
     (if \<not> search_completed then Inl Document_answer_error
      else (case a of
              Answered _ citations \<Rightarrow> validate_answer_citations citations observed
            | Insufficient_evidence _ \<Rightarrow> Inr ()))"

lemma validate_answer_citations_ok [simp]:
  "validate_answer_citations cs obs = Inr u \<longleftrightarrow> set cs \<subseteq> obs"
  by (auto simp: validate_answer_citations_def list_ex_iff)

lemma validate_document_answer_ok:
  "validate_document_answer a obs sc = Inr u \<longleftrightarrow>
     sc \<and> (case a of Answered _ cs \<Rightarrow> set cs \<subseteq> obs | Insufficient_evidence _ \<Rightarrow> True)"
  by (auto simp: validate_document_answer_def split: document_answer.splits)

section \<open>The evidence review\<close>

datatype claim_verdict = Claim_supported | Claim_unsupported | Claim_contradicted | Claim_uncertain

datatype review_verdict = Supported | Unsupported | Conflicting | Uncertain
  | Appropriate_abstention | Unnecessary_abstention

datatype answerability = Answerable | Insufficient | Conflicting_evidence | Undecided

record excerpt =
  ex_source :: source_reference
  ex_quote :: ustr

record claim_review =
  cl_claim :: ustr
  cl_verdict :: claim_verdict
  cl_excerpts :: "excerpt list"

record review_request =
  rr_question :: ustr
  rr_answer :: document_answer
  rr_passages :: "passage list"

record document_review =
  rv_verdict :: review_verdict
  rv_reason :: ustr
  rv_answerability :: answerability
  rv_covers_all_claims :: bool
  rv_addresses_question :: bool
  rv_evidence_conflict :: bool
  rv_claims :: "claim_review list"

definition review_text :: "ustr \<Rightarrow> bool" where
  "review_text t \<longleftrightarrow> 1 \<le> length t \<and> length t \<le> 2048"

definition valid_claim_review :: "claim_review \<Rightarrow> bool" where
  "valid_claim_review c \<longleftrightarrow> review_text (cl_claim c) \<and> length (cl_excerpts c) \<le> 10 \<and>
     list_all (\<lambda>e. review_text (ex_quote e)) (cl_excerpts c)"

definition valid_review :: "document_review \<Rightarrow> bool" where
  "valid_review r \<longleftrightarrow> review_text (rv_reason r) \<and> length (rv_claims r) \<le> 20 \<and>
     list_all valid_claim_review (rv_claims r)"

definition make_review_request :: "ustr \<Rightarrow> document_answer \<Rightarrow> passage list \<Rightarrow> exn + review_request" where
  "make_review_request question answer passages =
     (if 1 \<le> length question \<and> length question \<le> 32768 \<and> length passages \<le> 100
      then Inr \<lparr>rr_question = question, rr_answer = answer, rr_passages = passages\<rparr>
      else Inl Validation_error)"

text \<open>
  The \<open>while start >= 0\<close> loop: every occurrence of the claim, from \<open>start\<close> on, adds its positions.
\<close>

lemma find_sub_le: "find_sub a c s = Some i \<Longrightarrow> s \<le> i \<and> i \<le> length a"
  by (auto simp: occurs_at_def dest: find_sub_SomeD)

function cover_occurrences :: "ustr \<Rightarrow> ustr \<Rightarrow> nat option \<Rightarrow> nat set \<Rightarrow> nat set" where
  "cover_occurrences answer claim start covered =
     (case start of
        None \<Rightarrow> covered
      | Some i \<Rightarrow> cover_occurrences answer claim (find_sub answer claim (i + 1))
                    (covered \<union> set [i..<i + length claim]))"
  by pat_completeness auto
termination
proof (relation "measure (\<lambda>(answer, _, start, _).
    case start of None \<Rightarrow> 0 | Some i \<Rightarrow> Suc (length answer + 2 - i))", simp)
  fix answer claim :: ustr and start :: "nat option" and covered :: "nat set" and i
  assume "start = Some i"
  then show "((answer, claim, find_sub answer claim (i + 1), covered \<union> set [i..<i + length claim]),
      answer, claim, start, covered) \<in> measure (\<lambda>(answer, _, start, _).
        case start of None \<Rightarrow> 0 | Some i \<Rightarrow> Suc (length answer + 2 - i))"
    by (auto split: option.split dest: find_sub_le)
qed

declare cover_occurrences.simps [simp del]

text \<open>\<open>passages.get(source)\<close> on the mapping built from the passages; a later one overrides.\<close>

definition passage_of :: "passage list \<Rightarrow> source_reference \<Rightarrow> passage option" where
  "passage_of ps source = select1 (\<lambda>p. source_key p = source) (rev ps)"

definition excerpt_ok :: "passage list \<Rightarrow> source_reference list \<Rightarrow> excerpt \<Rightarrow> bool" where
  "excerpt_ok ps citations e \<longleftrightarrow>
     ex_source e \<in> set citations \<and>
     (case passage_of ps (ex_source e) of
        None \<Rightarrow> False
      | Some p \<Rightarrow> contains_sub (ch_text (pa_chunk p)) (ex_quote e))"

text \<open>The loop over the review's claims: the positions of the answer they cover, or the refusal.\<close>

fun review_claims ::
  "passage list \<Rightarrow> ustr \<Rightarrow> source_reference list \<Rightarrow> claim_review list \<Rightarrow> nat set \<Rightarrow> exn + nat set" where
  "review_claims ps answer citations [] covered = Inr covered"
| "review_claims ps answer citations (claim # claims) covered =
     (case find_sub answer (cl_claim claim) 0 of
        None \<Rightarrow> Inl Document_review_error
      | Some start \<Rightarrow>
          let covered' = cover_occurrences answer (cl_claim claim) (Some start) covered
          in if cl_verdict claim \<noteq> Claim_supported \<or> cl_excerpts claim = [] then Inl Document_review_error
             else if list_ex (\<lambda>e. \<not> excerpt_ok ps citations e) (cl_excerpts claim)
             then Inl Document_review_error
             else review_claims ps answer citations claims covered')"

text \<open>\<open>validate_document_review\<close>\<close>

definition validate_document_review ::
  "(nat \<Rightarrow> bool) \<Rightarrow> review_request \<Rightarrow> document_review \<Rightarrow> exn + unit" where
  "validate_document_review alnum request review =
     (case rr_answer request of
        Answered answer citations \<Rightarrow>
          if rv_verdict review \<noteq> Supported \<or> rv_answerability review \<noteq> Answerable
             \<or> \<not> rv_covers_all_claims review \<or> \<not> rv_addresses_question review
             \<or> rv_evidence_conflict review \<or> rv_claims review = []
          then Inl Document_review_error
          else bindR (review_claims (rr_passages request) answer citations (rv_claims review) {}) (\<lambda>covered.
            if list_ex (\<lambda>i. alnum (answer ! i) \<and> i \<notin> covered) [0..<length answer]
            then Inl Document_review_error else Inr ())
      | Insufficient_evidence _ \<Rightarrow>
          if rv_verdict review \<noteq> Appropriate_abstention
             \<or> rv_answerability review \<notin> {Insufficient, Conflicting_evidence}
             \<or> rv_claims review \<noteq> [] \<or> \<not> rv_addresses_question review
          then Inl Document_review_error else Inr ())"

section \<open>What an accepted review establishes\<close>

lemma cover_occurrences_eq:
  "cover_occurrences a c start covered =
     covered \<union> {j. \<exists>i k. start = Some k \<and> (i = k \<or> k < i \<and> occurs_at c a i) \<and> i \<le> j \<and> j < i + length c}"
proof (induction a c start covered rule: cover_occurrences.induct)
  case (1 a c start covered)
  show ?case
  proof (cases start)
    case None
    then show ?thesis by (simp add: cover_occurrences.simps)
  next
    case (Some k)
    have IH: "cover_occurrences a c (find_sub a c (k + 1)) (covered \<union> set [k..<k + length c]) =
      covered \<union> set [k..<k + length c] \<union> {j. \<exists>i k'. find_sub a c (k + 1) = Some k' \<and>
        (i = k' \<or> k' < i \<and> occurs_at c a i) \<and> i \<le> j \<and> j < i + length c}"
      using 1 Some by simp
    have "(\<exists>k'. find_sub a c (k + 1) = Some k' \<and> (i = k' \<or> k' < i \<and> occurs_at c a i))
        \<longleftrightarrow> k < i \<and> occurs_at c a i" for i
    proof (cases "find_sub a c (k + 1)")
      case None
      then show ?thesis using find_sub_NoneD [of a c "k + 1" i] by auto
    next
      case (Some m)
      have "m \<le> i" if "k < i" and "occurs_at c a i"
        using find_sub_least [OF Some, of i] that by linarith
      with Some show ?thesis using find_sub_SomeD [OF Some] by (auto simp: le_less)
    qed
    then have "{j. \<exists>i k'. find_sub a c (k + 1) = Some k' \<and>
        (i = k' \<or> k' < i \<and> occurs_at c a i) \<and> i \<le> j \<and> j < i + length c}
      = {j. \<exists>i. k < i \<and> occurs_at c a i \<and> i \<le> j \<and> j < i + length c}" by blast
    with IH Some show ?thesis by (subst cover_occurrences.simps) auto
  qed
qed

lemma cover_all_occurrences:
  assumes "find_sub a c 0 = Some k"
  shows "cover_occurrences a c (Some k) covered =
       covered \<union> {j. \<exists>i. occurs_at c a i \<and> i \<le> j \<and> j < i + length c}"
proof -
  have "k \<le> i" if "occurs_at c a i" for i using find_sub_least [OF assms, of i] that by linarith
  then have "(i = k \<or> k < i \<and> occurs_at c a i) \<longleftrightarrow> occurs_at c a i" for i
    using find_sub_SomeD [OF assms] by (auto simp: le_less)
  then show ?thesis by (simp add: cover_occurrences_eq)
qed

definition claim_ok :: "passage list \<Rightarrow> ustr \<Rightarrow> source_reference list \<Rightarrow> claim_review \<Rightarrow> bool" where
  "claim_ok ps answer citations c \<longleftrightarrow>
     (\<exists>i. occurs_at (cl_claim c) answer i) \<and> cl_verdict c = Claim_supported \<and> cl_excerpts c \<noteq> [] \<and>
     (\<forall>e \<in> set (cl_excerpts c). excerpt_ok ps citations e)"

lemma review_claims_Inr_iff:
  "review_claims ps answer cites cs covered = Inr out \<longleftrightarrow>
     (\<forall>c \<in> set cs. claim_ok ps answer cites c) \<and>
     out = covered \<union> {j. \<exists>c \<in> set cs. \<exists>i. occurs_at (cl_claim c) answer i \<and> i \<le> j \<and> j < i + length (cl_claim c)}"
proof (induction cs arbitrary: covered)
  case (Cons c cs)
  show ?case
  proof (cases "find_sub answer (cl_claim c) 0")
    case None
    then show ?thesis using find_sub_NoneD [OF None] by (auto simp: claim_ok_def)
  next
    case (Some k)
    then have "\<exists>i. occurs_at (cl_claim c) answer i" by (auto dest: find_sub_SomeD)
    with Some show ?thesis
      by (auto simp: Cons.IH claim_ok_def cover_all_occurrences [OF Some] list_ex_iff Let_def)
  qed
qed auto

text \<open>
  C10. The evidence gate. A review is accepted for a document answer exactly when its verdicts are
  favourable, every claim it lists is a literal span of the answer judged supported by at least one
  excerpt, every excerpt is a verbatim quote of a passage the answer cites, and every letter and
  digit of the answer lies in an occurrence of some claim; for an abstention, exactly when it is
  judged appropriate on insufficient or conflicting evidence, without claims.
\<close>

theorem document_review_accepted_iff:
  "validate_document_review alnum request review = Inr () \<longleftrightarrow>
     (case rr_answer request of
        Answered answer citations \<Rightarrow>
          rv_verdict review = Supported \<and> rv_answerability review = Answerable \<and>
          rv_covers_all_claims review \<and> rv_addresses_question review \<and> \<not> rv_evidence_conflict review \<and>
          rv_claims review \<noteq> [] \<and>
          (\<forall>c \<in> set (rv_claims review).
             (\<exists>i. occurs_at (cl_claim c) answer i) \<and> cl_verdict c = Claim_supported \<and> cl_excerpts c \<noteq> [] \<and>
             (\<forall>e \<in> set (cl_excerpts c). ex_source e \<in> set citations \<and>
                (\<exists>p i. passage_of (rr_passages request) (ex_source e) = Some p \<and>
                   occurs_at (ex_quote e) (ch_text (pa_chunk p)) i))) \<and>
          (\<forall>j < length answer. alnum (answer ! j) \<longrightarrow>
             (\<exists>c \<in> set (rv_claims review). \<exists>i. occurs_at (cl_claim c) answer i \<and> i \<le> j \<and> j < i + length (cl_claim c)))
      | Insufficient_evidence _ \<Rightarrow>
          rv_verdict review = Appropriate_abstention \<and>
          rv_answerability review \<in> {Insufficient, Conflicting_evidence} \<and>
          rv_claims review = [] \<and> rv_addresses_question review)"
proof (cases "rr_answer request")
  case (Answered answer citations)
  have ex: "excerpt_ok ps citations e \<longleftrightarrow> ex_source e \<in> set citations \<and>
      (\<exists>p i. passage_of ps (ex_source e) = Some p \<and> occurs_at (ex_quote e) (ch_text (pa_chunk p)) i)" for ps e
    by (auto simp: excerpt_ok_def contains_sub_iff split: option.splits)
  have cover: "list_ex (\<lambda>i. alnum (answer ! i) \<and> i \<notin> S) [0..<length answer] \<longleftrightarrow>
      \<not> (\<forall>j < length answer. alnum (answer ! j) \<longrightarrow> j \<in> S)" for S
    by (auto simp: list_ex_iff)
  show ?thesis unfolding Answered
    by (auto simp: validate_document_review_def Answered review_claims_Inr_iff claim_ok_def ex cover) blast+
qed (auto simp: validate_document_review_def)

section \<open>Review receipts\<close>

text \<open>
  A receipt as a checkpoint holds it: the fields \<open>.get\<close> reads; a \<open>review\<close> that is absent or does not
  validate is \<open>None\<close>.
\<close>

record review_receipt =
  rc_policy_version :: "string option"
  rc_digest :: "string option"
  rc_review :: "document_review option"

definition validation_policy_version :: string where
  "validation_policy_version = ''document_support_gate_v3''"

definition empty_receipt :: review_receipt where
  "empty_receipt = \<lparr>rc_policy_version = None, rc_digest = None, rc_review = None\<rparr>"

text \<open>\<open>review_receipt\<close> and \<open>validate_review_receipt\<close>\<close>

definition make_review_receipt ::
  "(nat \<Rightarrow> bool) \<Rightarrow> (review_request \<Rightarrow> string) \<Rightarrow> review_request \<Rightarrow> document_review \<Rightarrow> exn + review_receipt" where
  "make_review_receipt alnum digest request review =
     bindR (validate_document_review alnum request review) (\<lambda>_.
     Inr \<lparr>rc_policy_version = Some validation_policy_version, rc_digest = Some (digest request),
          rc_review = Some review\<rparr>)"

definition validate_review_receipt ::
  "(nat \<Rightarrow> bool) \<Rightarrow> (review_request \<Rightarrow> string) \<Rightarrow> review_request \<Rightarrow> review_receipt \<Rightarrow> exn + unit" where
  "validate_review_receipt alnum digest request receipt =
     (if rc_policy_version receipt \<noteq> Some validation_policy_version
         \<or> rc_digest receipt \<noteq> Some (digest request)
      then Inl Document_review_error
      else (case rc_review receipt of
              None \<Rightarrow> Inl Validation_error
            | Some review \<Rightarrow>
                if \<not> valid_review review then Inl Validation_error
                else validate_document_review alnum request review))"

lemma receipt_replays:
  assumes "make_review_receipt alnum digest request review = Inr receipt" and "valid_review review"
  shows "validate_review_receipt alnum digest request receipt = Inr ()"
  using assms by (auto simp: make_review_receipt_def validate_review_receipt_def)


end
