(* ===== verification/Run_Store.thy ===== *)
theory Run_Store
  imports Decisions
begin

text \<open>
  The durable run table (\<open>infrastructure/run_store.py\<close>, with the exceptions and the boundary of
  \<open>application/interfaces/run_store.py\<close>): registration with idempotency keys, leased attempts,
  checkpoints, terminal states, cancellation and resumption. The checkpoint is the run-local state
  that \<open>ExecutionControl\<close> persists. \<open>clk i\<close> is the reading of \<open>time.time()\<close> at an operation's \<open>i\<close>-th call
  of it, counted in the order of the source.
\<close>

section \<open>Jobs, messages and checkpoints\<close>

text \<open>\<open>AgentRunJob\<close>\<close>

record run_job =
  jb_run_id :: string
  jb_tenant :: string
  jb_message :: ustr
  jb_max_decisions :: nat
  jb_mode :: answer_mode

definition valid_run_job :: "run_job \<Rightarrow> bool" where
  "valid_run_job j \<longleftrightarrow> tenant_pattern (jb_tenant j) \<and> 1 \<le> length (jb_message j) \<and>
     length (jb_message j) \<le> 32768 \<and> 1 \<le> jb_max_decisions j"

text \<open>
  What a tool returns: a retrieval result, a task lookup (outcome and identifier, with the status of
  a task that was found), or another model.
\<close>

datatype tool_result = Search_result retrieval_result | Task_result "string option" ustr | Other_result

text \<open>
  \<open>DecisionMessage\<close>. The JSON texts the loop renders (a decision, a tool's result, a tool's failure)
  are kept as the values they render.
\<close>

datatype role = System_role | User_role | Assistant_role | Tool_role

datatype content = Text ustr | Decision_text decision | Result_text ustr tool_result | Error_text ustr

record message =
  msg_role :: role
  msg_content :: content

record run_limits =
  lim_max_tokens :: nat
  lim_max_cost :: "rat option"
  lim_max_recoveries :: nat

text \<open>
  The state dictionary of \<open>ExecutionControl\<close>: a key that \<open>.get\<close> reads with a default holds that
  default where the source has no entry; a key whose presence is tested is an option.
\<close>

record checkpoint =
  cp_history :: "message list option"
  cp_decisions :: nat
  cp_tool_calls :: nat
  cp_tools_completed :: nat
  cp_pending :: "decision option"
  cp_replay_safe :: bool
  cp_answer_mode :: "answer_mode option"
  cp_search_completed :: bool
  cp_question :: "ustr option"
  cp_passages :: "passage list"
  cp_sources :: "source_reference list"
  cp_review :: "review_receipt option"
  cp_final :: "decision option"
  cp_limits :: "run_limits option"
  cp_reserved_tokens :: nat
  cp_reserved_cost :: rat
  cp_pricing_configured :: bool
  cp_reported_input :: nat
  cp_reported_output :: nat
  cp_recoveries :: nat

definition empty_checkpoint :: checkpoint where
  "empty_checkpoint =
     \<lparr>cp_history = None, cp_decisions = 0, cp_tool_calls = 0, cp_tools_completed = 0,
      cp_pending = None, cp_replay_safe = False, cp_answer_mode = None, cp_search_completed = False,
      cp_question = None, cp_passages = [], cp_sources = [], cp_review = None, cp_final = None,
      cp_limits = None, cp_reserved_tokens = 0, cp_reserved_cost = 0, cp_pricing_configured = False,
      cp_reported_input = 0, cp_reported_output = 0, cp_recoveries = 0\<rparr>"

text \<open>\<open>cp.get("pending") and not cp.get("replay_safe")\<close>\<close>

definition unsafe_pending :: "checkpoint \<Rightarrow> bool" where
  "unsafe_pending cp \<longleftrightarrow> cp_pending cp \<noteq> None \<and> \<not> cp_replay_safe cp"

section \<open>The tables\<close>

datatype run_state = Queued | Running | Succeeded | Failed | Cancelled | Exhausted | Needs_review

datatype attempt_state = Attempt run_state | Attempt_expired

record run_row =
  ru_id :: string
  ru_tenant :: string
  ru_job :: run_job
  ru_state :: run_state
  ru_created :: rat
  ru_updated :: rat
  ru_attempts :: nat
  ru_token :: "string option"
  ru_lease_until :: "rat option"
  ru_deadline :: "rat option"
  ru_duration :: rat
  ru_checkpoint :: checkpoint
  ru_result :: "decision option"
  ru_error :: "string option"
  ru_cancel :: bool
  ru_idem_key :: "string option"
  ru_published :: bool

record attempt_row =
  at_token :: string
  at_run :: string
  at_number :: nat
  at_state :: attempt_state
  at_started :: rat
  at_ended :: "rat option"
  at_error :: "string option"

record run_db =
  db_runs :: "run_row list"
  db_attempts :: "attempt_row list"

record run_cfg =
  lease_seconds :: rat
  max_attempts :: nat

text \<open>\<open>SQLiteRunStore.__init__\<close>\<close>

definition make_run_cfg :: "string \<Rightarrow> pynum \<Rightarrow> pynum \<Rightarrow> nat \<Rightarrow> exn + run_cfg" where
  "make_run_cfg path lease attempts user_version =
     (if path = '':memory:'' \<or> \<not> is_finite_num lease \<or> num_value lease \<le> 0 \<or> \<not> positive_int attempts
      then Inl Value_error
      else if user_version \<notin> {0, 1} then Inl Value_error
      else Inr \<lparr>lease_seconds = num_value lease, max_attempts = nat \<lfloor>num_value attempts\<rfloor>\<rparr>)"

definition empty_run_db :: run_db where
  "empty_run_db = \<lparr>db_runs = [], db_attempts = []\<rparr>"

text \<open>\<open>TERMINAL\<close>\<close>

definition terminal :: "run_state \<Rightarrow> bool" where
  "terminal s \<longleftrightarrow> s \<in> {Succeeded, Cancelled, Exhausted, Needs_review}"

text \<open>\<open>_row\<close>\<close>

definition find_run :: "run_db \<Rightarrow> string \<Rightarrow> string \<Rightarrow> exn + run_row" where
  "find_run db rid t =
     (case select1 (\<lambda>r. ru_id r = rid \<and> ru_tenant r = t) (db_runs db) of
        None \<Rightarrow> Inl Run_not_found
      | Some row \<Rightarrow> Inr row)"

definition update_run :: "string \<Rightarrow> (run_row \<Rightarrow> run_row) \<Rightarrow> run_db \<Rightarrow> run_db" where
  "update_run rid f db = db\<lparr>db_runs := update_where (\<lambda>r. ru_id r = rid) f (db_runs db)\<rparr>"

text \<open>\<open>UPDATE agent_attempts SET \<dots> WHERE token=?\<close>; a NULL token matches no row.\<close>

definition update_attempt :: "string option \<Rightarrow> (attempt_row \<Rightarrow> attempt_row) \<Rightarrow> run_db \<Rightarrow> run_db" where
  "update_attempt tok f db = db\<lparr>db_attempts := update_where (\<lambda>a. Some (at_token a) = tok) f (db_attempts db)\<rparr>"

text \<open>\<open>row["lease_until"] <= now\<close> and \<open>row["deadline"] <= now\<close>; \<open>None\<close> is not comparable.\<close>

definition until_passed :: "rat option \<Rightarrow> rat \<Rightarrow> exn + bool" where
  "until_passed until now = (case until of None \<Rightarrow> Inl Type_error | Some l \<Rightarrow> Inr (l \<le> now))"

section \<open>Operations\<close>

text \<open>\<open>create\<close>; \<open>key_digest\<close> is the SHA-256 of the idempotency key.\<close>

definition same_submission :: "run_job \<Rightarrow> run_job \<Rightarrow> bool" where
  "same_submission a b \<longleftrightarrow> a\<lparr>jb_run_id := []\<rparr> = b\<lparr>jb_run_id := []\<rparr>"

definition new_run :: "run_job \<Rightarrow> rat \<Rightarrow> rat \<Rightarrow> string option \<Rightarrow> run_row" where
  "new_run job now duration key =
     \<lparr>ru_id = jb_run_id job, ru_tenant = jb_tenant job, ru_job = job, ru_state = Queued,
      ru_created = now, ru_updated = now, ru_attempts = 0, ru_token = None, ru_lease_until = None,
      ru_deadline = None, ru_duration = duration, ru_checkpoint = empty_checkpoint,
      ru_result = None, ru_error = None, ru_cancel = False, ru_idem_key = key, ru_published = False\<rparr>"

definition create_run ::
  "(string \<Rightarrow> string) \<Rightarrow> run_job \<Rightarrow> pynum \<Rightarrow> string option \<Rightarrow> (nat \<Rightarrow> rat) \<Rightarrow> (run_db, exn, run_row) tx" where
  "create_run key_digest job duration idempotency_key clk db =
     (if \<not> is_finite_num duration \<or> num_value duration \<le> 0 then Inl Value_error
      else
        let key = (case idempotency_key of None \<Rightarrow> None | Some k \<Rightarrow> if k = [] then None else Some (key_digest k));
            existing = (case key of
                None \<Rightarrow> None
              | Some k \<Rightarrow> select1 (\<lambda>r. ru_tenant r = jb_tenant job \<and> ru_idem_key r = Some k) (db_runs db))
        in case existing of
             Some row \<Rightarrow> if \<not> same_submission (ru_job row) job then Inl Run_conflict else Inr (row, db)
           | None \<Rightarrow>
               if list_ex (\<lambda>r. ru_id r = jb_run_id job) (db_runs db) then Inl Sqlite_error
               else
                 let db' = db\<lparr>db_runs := db_runs db @ [new_run job (clk 0) (num_value duration) key]\<rparr>
                 in bindR (find_run db' (jb_run_id job) (jb_tenant job)) (\<lambda>row. Inr (row, db')))"

text \<open>\<open>get\<close>: the three lazy transitions of a run whose lease has expired, then the record and its attempts.\<close>

definition end_attempt :: "attempt_state \<Rightarrow> rat \<Rightarrow> attempt_row \<Rightarrow> attempt_row" where
  "end_attempt s now a = a\<lparr>at_state := s, at_ended := Some now\<rparr>"

definition end_attempt_error :: "attempt_state \<Rightarrow> rat \<Rightarrow> string option \<Rightarrow> attempt_row \<Rightarrow> attempt_row" where
  "end_attempt_error s now e a = a\<lparr>at_state := s, at_ended := Some now, at_error := e\<rparr>"

definition close_run :: "run_state \<Rightarrow> rat \<Rightarrow> run_row \<Rightarrow> run_row" where
  "close_run s now r = r\<lparr>ru_state := s, ru_token := None, ru_lease_until := None, ru_updated := now\<rparr>"

definition close_run_error :: "run_state \<Rightarrow> string \<Rightarrow> rat \<Rightarrow> run_row \<Rightarrow> run_row" where
  "close_run_error s e now r = (close_run s now r)\<lparr>ru_error := Some e\<rparr>"

definition reap_cancelled :: "run_row \<Rightarrow> (nat \<Rightarrow> rat) \<Rightarrow> run_db \<Rightarrow> exn + run_db" where
  "reap_cancelled row clk db =
     (if ru_state row = Running \<and> ru_cancel row then
        bindR (until_passed (ru_lease_until row) (clk 0)) (\<lambda>expired.
          Inr (if expired
               then update_attempt (ru_token row) (end_attempt (Attempt Cancelled) (clk 2))
                      (update_run (ru_id row) (close_run Cancelled (clk 1)) db)
               else db))
      else Inr db)"

definition reap_unsafe :: "run_row \<Rightarrow> (nat \<Rightarrow> rat) \<Rightarrow> run_db \<Rightarrow> exn + run_db" where
  "reap_unsafe row clk db =
     (if ru_state row = Running \<and> \<not> ru_cancel row then
        bindR (until_passed (ru_lease_until row) (clk 3)) (\<lambda>expired.
          Inr (if expired \<and> unsafe_pending (ru_checkpoint row)
               then update_attempt (ru_token row)
                      (end_attempt_error (Attempt Needs_review) (clk 5) (Some ''UnsafeReplay''))
                      (update_run (ru_id row) (close_run_error Needs_review ''UnsafeReplay'' (clk 4)) db)
               else db))
      else Inr db)"

definition reap_exhausted :: "run_row \<Rightarrow> (nat \<Rightarrow> rat) \<Rightarrow> run_db \<Rightarrow> exn + run_db" where
  "reap_exhausted current clk db =
     (if ru_state current = Running then
        bindR (until_passed (ru_lease_until current) (clk 6)) (\<lambda>expired.
          if \<not> expired then Inr db
          else bindR (until_passed (ru_deadline current) (clk 7)) (\<lambda>over.
            Inr (if over
                 then update_attempt (ru_token current)
                        (end_attempt_error (Attempt Exhausted) (clk 9) (Some ''AgentDeadlineExceeded''))
                        (update_run (ru_id current)
                          (close_run_error Exhausted ''AgentDeadlineExceeded'' (clk 8)) db)
                 else db)))
      else Inr db)"

definition get_run ::
  "string \<Rightarrow> string \<Rightarrow> (nat \<Rightarrow> rat) \<Rightarrow> (run_db, exn, run_row \<times> attempt_row list) tx" where
  "get_run rid t clk db =
     bindR (find_run db rid t) (\<lambda>row.
     bindR (reap_cancelled row clk db) (\<lambda>db1.
     bindR (reap_unsafe row clk db1) (\<lambda>db2.
     bindR (find_run db2 rid t) (\<lambda>current.
     bindR (reap_exhausted current clk db2) (\<lambda>db3.
     bindR (find_run db3 rid t) (\<lambda>data.
     Inr ((data, sort_key at_number (filter (\<lambda>a. at_run a = rid) (db_attempts db3))), db3)))))))"

text \<open>\<open>mark_published\<close>\<close>

definition mark_published :: "string \<Rightarrow> string \<Rightarrow> (nat \<Rightarrow> rat) \<Rightarrow> (run_db, exn, unit) tx" where
  "mark_published rid t clk db =
     bindR (find_run db rid t) (\<lambda>_.
     Inr ((), update_run rid (\<lambda>r. r\<lparr>ru_published := True, ru_updated := clk 0\<rparr>) db))"

text \<open>\<open>claim\<close>: a succeeded run returns its record, a runnable one a record that owns a fresh lease.\<close>

definition start_run :: "run_cfg \<Rightarrow> string \<Rightarrow> rat \<Rightarrow> run_row \<Rightarrow> run_row" where
  "start_run cfg token now r =
     r\<lparr>ru_state := Running, ru_attempts := ru_attempts r + 1, ru_token := Some token,
       ru_lease_until := Some (now + lease_seconds cfg),
       ru_deadline := (case ru_deadline r of None \<Rightarrow> Some (now + ru_duration r) | Some d \<Rightarrow> Some d),
       ru_updated := now\<rparr>"

definition new_attempt :: "string \<Rightarrow> run_row \<Rightarrow> rat \<Rightarrow> attempt_row" where
  "new_attempt token row now =
     \<lparr>at_token = token, at_run = ru_id row, at_number = ru_attempts row + 1,
      at_state = Attempt Running, at_started = now, at_ended = None, at_error = None\<rparr>"

definition claim_run :: "run_cfg \<Rightarrow> run_job \<Rightarrow> string \<Rightarrow> (nat \<Rightarrow> rat) \<Rightarrow> (run_db, exn, run_row) tx" where
  "claim_run cfg job token clk db =
     (let now = clk 0 in
      bindR (find_run db (jb_run_id job) (jb_tenant job)) (\<lambda>row.
      if ru_job row \<noteq> job then Inl Run_conflict
      else if ru_state row = Succeeded then Inr (row, db)
      else if ru_cancel row \<or> ru_state row = Cancelled then Inl Run_cancelled
      else if terminal (ru_state row) then Inl Run_conflict
      else if ru_state row = Failed then Inl Run_conflict
      else bindR (if ru_state row = Running then until_passed (ru_lease_until row) now else Inr True) (\<lambda>expired.
      if \<not> expired then Inl Run_conflict
      else if unsafe_pending (ru_checkpoint row) then Inl Unsafe_replay
      else if ru_attempts row \<ge> max_attempts cfg then Inl Run_conflict
      else if list_ex (\<lambda>a. at_token a = token) (db_attempts db) then Inl Sqlite_error
      else
        let db1 = update_attempt (ru_token row) (end_attempt Attempt_expired now) db;
            db2 = db1\<lparr>db_attempts := db_attempts db1 @ [new_attempt token row now]\<rparr>;
            db3 = update_run (ru_id row) (start_run cfg token now) db2
        in bindR (find_run db3 (ru_id row) (ru_tenant row)) (\<lambda>row'. Inr (row', db3)))))"

text \<open>\<open>_owned_attempt\<close>\<close>

definition owned_run :: "run_db \<Rightarrow> string \<Rightarrow> string \<Rightarrow> string \<Rightarrow> rat \<Rightarrow> exn + run_row" where
  "owned_run db rid t token now =
     bindR (find_run db rid t) (\<lambda>row.
     if ru_state row \<noteq> Running \<or> ru_token row \<noteq> Some token then Inl Run_lease_lost
     else bindR (until_passed (ru_lease_until row) now) (\<lambda>expired.
     if expired then Inl Run_lease_lost else Inr row))"

text \<open>\<open>guard\<close>: renews the lease and returns what is left of the run's duration.\<close>

definition guard_run ::
  "run_cfg \<Rightarrow> string \<Rightarrow> string \<Rightarrow> string \<Rightarrow> (nat \<Rightarrow> rat) \<Rightarrow> (run_db, exn, rat) tx" where
  "guard_run cfg rid t token clk db =
     bindR (owned_run db rid t token (clk 0)) (\<lambda>row.
     if ru_cancel row then Inl Run_cancelled
     else
       let now = clk 1
       in (case ru_deadline row of
             None \<Rightarrow> Inl Type_error
           | Some deadline \<Rightarrow>
               Inr (deadline - now, update_run rid (\<lambda>r. r\<lparr>ru_lease_until := Some (now + lease_seconds cfg)\<rparr>) db)))"

text \<open>\<open>checkpoint\<close>\<close>

definition checkpoint_run ::
  "run_cfg \<Rightarrow> string \<Rightarrow> string \<Rightarrow> string \<Rightarrow> checkpoint \<Rightarrow> (nat \<Rightarrow> rat) \<Rightarrow> (run_db, exn, unit) tx" where
  "checkpoint_run cfg rid t token cp clk db =
     bindR (owned_run db rid t token (clk 0)) (\<lambda>row.
     if ru_cancel row then Inl Run_cancelled
     else Inr ((), update_run rid (\<lambda>r. r\<lparr>ru_checkpoint := cp, ru_updated := clk 1,
            ru_lease_until := Some (clk 2 + lease_seconds cfg)\<rparr>) db))"

text \<open>\<open>finish\<close>\<close>

definition finish_run ::
  "string \<Rightarrow> string \<Rightarrow> string \<Rightarrow> run_state \<Rightarrow> decision option \<Rightarrow> string option \<Rightarrow> (nat \<Rightarrow> rat) \<Rightarrow> (run_db, exn, unit) tx" where
  "finish_run rid t token state result error clk db =
     (if state \<notin> {Succeeded, Failed, Cancelled, Exhausted, Needs_review} then Inl Value_error
      else bindR (owned_run db rid t token (clk 0)) (\<lambda>row.
        let (state, result, error) =
              (if ru_cancel row then (Cancelled, None, Some ''cancelled'') else (state, result, error))
        in Inr ((), update_run rid
             (\<lambda>r. (close_run state (clk 2) r)\<lparr>ru_result := result, ru_error := error\<rparr>)
             (update_attempt (Some token) (end_attempt_error (Attempt state) (clk 1) error) db))))"

text \<open>\<open>cancel\<close>\<close>

definition cancel_run :: "string \<Rightarrow> string \<Rightarrow> (nat \<Rightarrow> rat) \<Rightarrow> (run_db, exn, run_row) tx" where
  "cancel_run rid t clk db =
     bindR (find_run db rid t) (\<lambda>row.
     bindR (if terminal (ru_state row) then Inr db
            else bindR (if ru_state row = Running then until_passed (ru_lease_until row) (clk 0) else Inr True) (\<lambda>expired.
              Inr (update_run rid (\<lambda>r. r\<lparr>ru_cancel := True,
                     ru_state := (if ru_state row = Running \<and> \<not> expired then Running else Cancelled),
                     ru_updated := clk 1\<rparr>) db))) (\<lambda>db'.
     bindR (find_run db' rid t) (\<lambda>row'. Inr (row', db'))))"

text \<open>\<open>resume\<close>\<close>

definition resume_run :: "run_cfg \<Rightarrow> string \<Rightarrow> string \<Rightarrow> (nat \<Rightarrow> rat) \<Rightarrow> (run_db, exn, run_row) tx" where
  "resume_run cfg rid t clk db =
     bindR (find_run db rid t) (\<lambda>row.
     if ru_cancel row \<or> terminal (ru_state row) then Inl Run_conflict
     else bindR (if ru_state row = Running then until_passed (ru_lease_until row) (clk 0) else Inr True) (\<lambda>expired.
     if \<not> expired then Inl Run_conflict
     else if ru_attempts row \<ge> max_attempts cfg then Inl Run_conflict
     else if unsafe_pending (ru_checkpoint row) then Inl Unsafe_replay
     else if (case ru_deadline row of None \<Rightarrow> False | Some d \<Rightarrow> d \<le> clk 1) then Inl Run_conflict
     else
       let db' = update_run rid (\<lambda>r. r\<lparr>ru_state := Queued, ru_token := None, ru_lease_until := None,
             ru_published := False, ru_updated := clk 2\<rparr>) db
       in bindR (find_run db' rid t) (\<lambda>row'. Inr (row', db'))))"

section \<open>The table invariant\<close>

definition run_ok :: "run_cfg \<Rightarrow> run_row \<Rightarrow> bool" where
  "run_ok cfg r \<longleftrightarrow>
     ru_id r = jb_run_id (ru_job r) \<and> ru_tenant r = jb_tenant (ru_job r) \<and>
     ru_attempts r \<le> max_attempts cfg \<and>
     (ru_state r = Running \<longrightarrow> ru_token r \<noteq> None \<and> ru_lease_until r \<noteq> None \<and> ru_deadline r \<noteq> None \<and> 1 \<le> ru_attempts r) \<and>
     (ru_cancel r \<longrightarrow> ru_state r \<in> {Running, Cancelled, Exhausted}) \<and>
     (ru_state r \<in> {Queued, Succeeded, Failed, Exhausted, Needs_review} \<longrightarrow> ru_token r = None)"

definition run_inv :: "run_cfg \<Rightarrow> run_db \<Rightarrow> bool" where
  "run_inv cfg db \<longleftrightarrow>
     distinct (map ru_id (db_runs db)) \<and> distinct (map at_token (db_attempts db)) \<and>
     (\<forall>r \<in> set (db_runs db). run_ok cfg r)"

definition keeps_run :: "(run_row \<Rightarrow> run_row) \<Rightarrow> bool" where
  "keeps_run f \<longleftrightarrow> (\<forall>r. ru_id (f r) = ru_id r \<and> ru_tenant (f r) = ru_tenant r \<and> ru_job (f r) = ru_job r \<and>
     ru_duration (f r) = ru_duration r \<and> ru_idem_key (f r) = ru_idem_key r)"

lemma keeps_runD:
  assumes "keeps_run f"
  shows "ru_id (f r) = ru_id r" "ru_tenant (f r) = ru_tenant r" "ru_job (f r) = ru_job r"
    "ru_duration (f r) = ru_duration r" "ru_idem_key (f r) = ru_idem_key r"
  using assms by (auto simp: keeps_run_def)

lemma keeps_run [row_simps]:
  "keeps_run (close_run s n)" "keeps_run (close_run_error s e n)" "keeps_run (start_run cfg tok n)"
  "keeps_run (\<lambda>r. (close_run s n r)\<lparr>ru_result := res, ru_error := e'\<rparr>)"
  "keeps_run (\<lambda>r. r\<lparr>ru_published := b, ru_updated := n\<rparr>)"
  "keeps_run (\<lambda>r. r\<lparr>ru_lease_until := l\<rparr>)"
  "keeps_run (\<lambda>r. r\<lparr>ru_checkpoint := cp, ru_updated := n, ru_lease_until := l\<rparr>)"
  "keeps_run (\<lambda>r. r\<lparr>ru_cancel := b, ru_state := g r, ru_updated := n\<rparr>)"
  "keeps_run (\<lambda>r. r\<lparr>ru_state := s, ru_token := k, ru_lease_until := l, ru_published := b, ru_updated := n\<rparr>)"
  by (simp_all add: keeps_run_def close_run_def close_run_error_def start_run_def)

lemma find_run_InrD:
  "find_run db rid t = Inr row \<Longrightarrow> row \<in> set (db_runs db) \<and> ru_id row = rid \<and> ru_tenant row = t"
  by (auto simp: find_run_def split: option.splits dest: select1_SomeD)

lemma find_run_attempts [simp]:
  "find_run (update_attempt k f db) rid t = find_run db rid t"
  "find_run (db\<lparr>db_attempts := as\<rparr>) rid t = find_run db rid t"
  by (simp_all add: find_run_def update_attempt_def)

lemma find_run_update:
  assumes "keeps_run f"
  shows "find_run (update_run rid f db) rid' t =
    bindR (find_run db rid' t) (\<lambda>row. Inr (if rid' = rid then f row else row))"
proof -
  have "select1 (\<lambda>r. ru_id r = rid' \<and> ru_tenant r = t) (update_where (\<lambda>r. ru_id r = rid) f (db_runs db))
     = map_option (\<lambda>r. if ru_id r = rid then f r else r)
         (select1 (\<lambda>r. ru_id r = rid' \<and> ru_tenant r = t) (db_runs db))"
    using assms by (intro select1_update_where) (simp add: keeps_runD)
  then show ?thesis
    by (auto simp: find_run_def update_run_def split: option.splits dest: select1_SomeD)
qed

text \<open>The row of a run identifier, and what updates do to it.\<close>

definition run_of :: "run_db \<Rightarrow> string \<Rightarrow> run_row option" where
  "run_of db rid = select1 (\<lambda>r. ru_id r = rid) (db_runs db)"

lemma run_of_update:
  assumes "keeps_run f"
  shows "run_of (update_run rid f db) rid' = map_option (\<lambda>r. if rid' = rid then f r else r) (run_of db rid')"
proof -
  have "run_of (update_run rid f db) rid' = map_option (\<lambda>r. if ru_id r = rid then f r else r) (run_of db rid')"
    unfolding run_of_def update_run_def
    by (simp, intro select1_update_where) (simp add: keeps_runD [OF assms])
  moreover have "run_of db rid' = Some r \<Longrightarrow> ru_id r = rid'" for r
    by (auto simp: run_of_def dest: select1_SomeD)
  ultimately show ?thesis by (cases "run_of db rid'") auto
qed

lemma run_of_attempts [simp]:
  "run_of (update_attempt k f db) rid = run_of db rid"
  "run_of (db\<lparr>db_attempts := as\<rparr>) rid = run_of db rid"
  by (simp_all add: run_of_def update_attempt_def)

lemma run_of_find:
  assumes "run_inv cfg db" and "find_run db rid t = Inr row"
  shows "run_of db rid = Some row"
proof -
  have "row \<in> set (db_runs db) \<and> ru_id row = rid" using find_run_InrD [OF assms(2)] by simp
  then show ?thesis unfolding run_of_def
    using assms(1) by (intro select1_unique [where k = ru_id]) (auto simp: run_inv_def)
qed

lemma run_ok_row: "run_inv cfg db \<Longrightarrow> find_run db rid t = Inr row \<Longrightarrow> run_ok cfg row"
  by (auto simp: run_inv_def dest: find_run_InrD)

lemma run_inv_update:
  assumes inv: "run_inv cfg db" and row: "find_run db rid t = Inr row" and f: "keeps_run f"
    and ok: "run_ok cfg (f row)"
  shows "run_inv cfg (update_run rid f db)"
proof -
  have uniq: "r = row" if "r \<in> set (db_runs db)" and "ru_id r = rid" for r
    using inv find_run_InrD [OF row] that by (auto simp: run_inv_def distinct_map dest: inj_onD)
  have "map ru_id (update_where (\<lambda>r. ru_id r = rid) f (db_runs db)) = map ru_id (db_runs db)"
    by (intro map_update_where) (simp add: keeps_runD [OF f])
  moreover have "run_ok cfg r" if "r \<in> set (update_where (\<lambda>r. ru_id r = rid) f (db_runs db))" for r
    using set_update_where [OF that] uniq ok inv by (auto simp: run_inv_def)
  ultimately show ?thesis using inv by (simp add: run_inv_def update_run_def)
qed

lemma run_inv_attempt:
  assumes "run_inv cfg db" and "\<And>a. at_token (f a) = at_token a"
  shows "run_inv cfg (update_attempt k f db)"
proof -
  have "map at_token (update_where (\<lambda>a. Some (at_token a) = k) f (db_attempts db)) = map at_token (db_attempts db)"
    by (intro map_update_where) (simp add: assms(2))
  with assms(1) show ?thesis by (simp add: run_inv_def update_attempt_def)
qed

lemma end_attempt_token [simp]:
  "at_token (end_attempt s n a) = at_token a" "at_token (end_attempt_error s n e a) = at_token a"
  by (simp_all add: end_attempt_def end_attempt_error_def)

section \<open>Steps and traces\<close>

datatype run_event = Ev_claim string string | Ev_write string string | Ev_finish string string run_state
  | Ev_silent

text \<open>
  The operations as labelled steps, by any number of processes; an operation that raises is no step.
  A claim that returns the stored result of a succeeded run is silent.
\<close>

inductive run_step :: "run_cfg \<Rightarrow> (string \<Rightarrow> string) \<Rightarrow> run_db \<Rightarrow> run_event \<Rightarrow> run_db \<Rightarrow> bool"
  for cfg kd where
  run_create: "create_run kd job duration key clk db = Inr (row, db') \<Longrightarrow> run_step cfg kd db Ev_silent db'"
| run_get: "get_run rid t clk db = Inr (x, db') \<Longrightarrow> run_step cfg kd db Ev_silent db'"
| run_publish: "mark_published rid t clk db = Inr (u, db') \<Longrightarrow> run_step cfg kd db Ev_silent db'"
| run_claim: "claim_run cfg job tok clk db = Inr (row, db') \<Longrightarrow> ru_state row \<noteq> Succeeded \<Longrightarrow>
     run_step cfg kd db (Ev_claim (jb_run_id job) tok) db'"
| run_replay: "claim_run cfg job tok clk db = Inr (row, db') \<Longrightarrow> ru_state row = Succeeded \<Longrightarrow>
     run_step cfg kd db Ev_silent db'"
| run_guard: "guard_run cfg rid t tok clk db = Inr (x, db') \<Longrightarrow> run_step cfg kd db (Ev_write rid tok) db'"
| run_checkpoint: "checkpoint_run cfg rid t tok cp clk db = Inr (u, db') \<Longrightarrow>
     run_step cfg kd db (Ev_write rid tok) db'"
| run_finish: "finish_run rid t tok s res e clk db = Inr (u, db') \<Longrightarrow> run_of db' rid = Some row \<Longrightarrow>
     run_step cfg kd db (Ev_finish rid tok (ru_state row)) db'"
| run_cancel: "cancel_run rid t clk db = Inr (row, db') \<Longrightarrow> run_step cfg kd db Ev_silent db'"
| run_resume: "resume_run cfg rid t clk db = Inr (row, db') \<Longrightarrow> run_step cfg kd db Ev_silent db'"

inductive run_trace :: "run_cfg \<Rightarrow> (string \<Rightarrow> string) \<Rightarrow> run_db \<Rightarrow> run_event list \<Rightarrow> run_db \<Rightarrow> bool"
  for cfg kd where
  run_start: "run_trace cfg kd db [] db"
| run_snoc: "run_trace cfg kd db evs db1 \<Longrightarrow> run_step cfg kd db1 e db2 \<Longrightarrow> run_trace cfg kd db (evs @ [e]) db2"

text \<open>How one step may change the row of a run.\<close>

definition same_run :: "run_row \<Rightarrow> run_row \<Rightarrow> bool" where
  "same_run r r' \<longleftrightarrow> ru_id r' = ru_id r \<and> ru_tenant r' = ru_tenant r \<and> ru_job r' = ru_job r \<and>
     ru_duration r' = ru_duration r \<and> ru_idem_key r' = ru_idem_key r"

definition frozen_run :: "run_row \<Rightarrow> run_row \<Rightarrow> bool" where
  "frozen_run r r' \<longleftrightarrow> ru_state r' = ru_state r \<and> ru_result r' = ru_result r \<and> ru_error r' = ru_error r \<and>
     ru_checkpoint r' = ru_checkpoint r \<and> ru_attempts r' = ru_attempts r \<and> ru_cancel r' = ru_cancel r"

text \<open>The steps that are no claim, write or finish of the run \<open>rid\<close>.\<close>

fun about_run :: "string \<Rightarrow> run_event \<Rightarrow> bool" where
  "about_run rid (Ev_claim i _) = (i = rid)"
| "about_run rid (Ev_write i _) = (i = rid)"
| "about_run rid (Ev_finish i _ _) = (i = rid)"
| "about_run rid Ev_silent = False"

definition run_changes :: "run_cfg \<Rightarrow> run_event \<Rightarrow> string \<Rightarrow> run_row \<Rightarrow> run_row \<Rightarrow> bool" where
  "run_changes cfg e rid r r' \<longleftrightarrow>
     same_run r r' \<and>
     (terminal (ru_state r) \<longrightarrow> frozen_run r r' \<and> \<not> about_run rid e) \<and>
     (ru_deadline r \<noteq> None \<longrightarrow> ru_deadline r' = ru_deadline r) \<and>
     (ru_cancel r \<longrightarrow> ru_cancel r') \<and>
     (\<forall>tok. e = Ev_claim rid tok \<longrightarrow>
        ru_token r' = Some tok \<and> ru_state r' = Running \<and> \<not> ru_cancel r \<and>
        \<not> unsafe_pending (ru_checkpoint r) \<and> ru_attempts r' = ru_attempts r + 1 \<and>
        ru_checkpoint r' = ru_checkpoint r) \<and>
     ((\<forall>tok. e \<noteq> Ev_claim rid tok) \<longrightarrow>
        (ru_token r' = ru_token r \<or> ru_token r' = None) \<and> ru_attempts r' = ru_attempts r) \<and>
     (\<forall>tok. e = Ev_write rid tok \<longrightarrow>
        ru_state r = Running \<and> ru_token r = Some tok \<and> \<not> ru_cancel r \<and> ru_state r' = Running) \<and>
     (\<forall>tok s. e = Ev_finish rid tok s \<longrightarrow>
        ru_state r = Running \<and> ru_token r = Some tok \<and> s = ru_state r' \<and> s \<notin> {Running, Queued} \<and>
        (ru_cancel r \<longrightarrow> s = Cancelled) \<and> ru_token r' = None) \<and>
     (\<not> about_run rid e \<longrightarrow> ru_checkpoint r' = ru_checkpoint r \<and>
        (ru_state r' \<noteq> ru_state r \<longrightarrow> ru_state r' \<in> {Queued, Cancelled, Exhausted, Needs_review}))"

definition run_next :: "run_cfg \<Rightarrow> run_event \<Rightarrow> string \<Rightarrow> run_row option \<Rightarrow> run_row option \<Rightarrow> bool" where
  "run_next cfg e rid r r' \<longleftrightarrow>
     (case r of
        None \<Rightarrow> \<not> about_run rid e \<and>
          (case r' of None \<Rightarrow> True
           | Some n \<Rightarrow> ru_token n = None \<and> ru_attempts n = 0 \<and> ru_state n = Queued)
      | Some old \<Rightarrow> (case r' of None \<Rightarrow> False | Some new \<Rightarrow> run_changes cfg e rid old new))"

lemma run_next_refl: "\<not> about_run rid e \<Longrightarrow> run_next cfg e rid r r"
  by (auto simp: run_next_def run_changes_def same_run_def frozen_run_def split: option.split)

text \<open>A step that updates one row.\<close>

lemma run_next_update:
  assumes inv: "run_inv cfg db" and row: "find_run db i t = Inr row" and f: "keeps_run f"
    and other: "\<And>j. j \<noteq> i \<Longrightarrow> \<not> about_run j e" and ch: "run_changes cfg e i row (f row)"
    and db': "\<And>j. run_of db' j = run_of (update_run i f db) j"
  shows "run_next cfg e rid (run_of db rid) (run_of db' rid)"
proof (cases "rid = i")
  case True
  with run_of_find [OF inv row] ch show ?thesis by (simp add: db' run_of_update [OF f] run_next_def)
next
  case False
  then have "run_of db' rid = run_of db rid" by (cases "run_of db rid") (simp_all add: db' run_of_update [OF f])
  with False other show ?thesis by (simp add: run_next_refl)
qed

section \<open>Every operation\<close>

lemma get_run_InrD:
  assumes "get_run rid t clk db = Inr (x, db')"
  obtains row where "find_run db rid t = Inr row" and "db' = db"
  | row f k g where "find_run db rid t = Inr row" and "ru_state row = Running" and "keeps_run f"
      and "\<And>a. at_token (g a) = at_token a" and "db' = update_attempt k g (update_run rid f db)"
      and "f = close_run Cancelled (clk 1) \<or> f = close_run_error Needs_review ''UnsafeReplay'' (clk 4) \<and> \<not> ru_cancel row
        \<or> f = close_run_error Exhausted ''AgentDeadlineExceeded'' (clk 8)"
proof -
  obtain row db1 db2 cur where row: "find_run db rid t = Inr row"
    and 1: "reap_cancelled row clk db = Inr db1" and 2: "reap_unsafe row clk db1 = Inr db2"
    and cur: "find_run db2 rid t = Inr cur" and 3: "reap_exhausted cur clk db2 = Inr db'"
    using assms by (auto simp: get_run_def)
  have id: "ru_id row = rid" using find_run_InrD [OF row] by simp
  have idc: "ru_id cur = rid" using find_run_InrD [OF cur] by simp
  show thesis
  proof (cases "db1 = db")
    case False
    then have c: "ru_state row = Running" "ru_cancel row"
      and db1: "db1 = update_attempt (ru_token row) (end_attempt (Attempt Cancelled) (clk 2))
                      (update_run rid (close_run Cancelled (clk 1)) db)"
      using 1 id by (auto simp: reap_cancelled_def split: if_splits)
    have "db2 = db1" using 2 c by (simp add: reap_unsafe_def)
    then have "cur = close_run Cancelled (clk 1) row"
      using cur row db1 by (simp add: find_run_update row_simps)
    then have "db' = db1" using 3 \<open>db2 = db1\<close> by (simp add: reap_exhausted_def close_run_def)
    with that(2) [OF row c(1) keeps_run(1) _ db1 [folded \<open>db' = db1\<close>]] show ?thesis by simp
  next
    case db1: True
    show ?thesis
    proof (cases "db2 = db")
      case False
      then have c: "ru_state row = Running" "\<not> ru_cancel row"
        and db2: "db2 = update_attempt (ru_token row)
                      (end_attempt_error (Attempt Needs_review) (clk 5) (Some ''UnsafeReplay''))
                      (update_run rid (close_run_error Needs_review ''UnsafeReplay'' (clk 4)) db)"
        using 2 id db1 by (auto simp: reap_unsafe_def split: if_splits)
      have "cur = close_run_error Needs_review ''UnsafeReplay'' (clk 4) row"
        using cur row db2 by (simp add: find_run_update row_simps)
      then have "db' = db2" using 3 by (simp add: reap_exhausted_def close_run_error_def close_run_def)
      with that(2) [OF row c(1) keeps_run(2) _ db2 [folded \<open>db' = db2\<close>]] c show ?thesis by simp
    next
      case db2: True
      with cur row have "cur = row" by simp
      show ?thesis
      proof (cases "db' = db")
        case True
        with that(1) row show ?thesis by blast
      next
        case False
        then have c: "ru_state row = Running"
          and db': "db' = update_attempt (ru_token row)
                        (end_attempt_error (Attempt Exhausted) (clk 9) (Some ''AgentDeadlineExceeded''))
                        (update_run rid (close_run_error Exhausted ''AgentDeadlineExceeded'' (clk 8)) db)"
          using 3 id db2 \<open>cur = row\<close> by (auto simp: reap_exhausted_def split: if_splits)
        with that(2) [OF row c keeps_run(2) _ db'] show ?thesis by simp
      qed
    qed
  qed
qed

lemma owned_run_InrD:
  "owned_run db rid t tok now = Inr row \<Longrightarrow> find_run db rid t = Inr row \<and> ru_state row = Running \<and>
     ru_token row = Some tok \<and> (\<exists>l. ru_lease_until row = Some l \<and> now < l)"
  by (auto simp: owned_run_def until_passed_def split: if_splits option.splits)

lemma claim_run_InrD:
  assumes "claim_run cfg job tok clk db = Inr (row', db')"
  obtains "find_run db (jb_run_id job) (jb_tenant job) = Inr row'" and "ru_state row' = Succeeded"
      and "db' = db" and "ru_job row' = job"
  | row where "find_run db (jb_run_id job) (jb_tenant job) = Inr row" and "ru_job row = job"
      and "\<not> terminal (ru_state row)" and "ru_state row \<noteq> Failed" and "\<not> ru_cancel row"
      and "\<not> unsafe_pending (ru_checkpoint row)" and "ru_attempts row < max_attempts cfg"
      and "\<not> list_ex (\<lambda>a. at_token a = tok) (db_attempts db)"
      and "row' = start_run cfg tok (clk 0) row"
      and "db' = update_run (jb_run_id job) (start_run cfg tok (clk 0))
             ((update_attempt (ru_token row) (end_attempt Attempt_expired (clk 0)) db)
              \<lparr>db_attempts := db_attempts (update_attempt (ru_token row) (end_attempt Attempt_expired (clk 0)) db)
                 @ [new_attempt tok row (clk 0)]\<rparr>)"
proof -
  obtain row where row: "find_run db (jb_run_id job) (jb_tenant job) = Inr row"
    using assms by (auto simp: claim_run_def Let_def)
  note id = find_run_InrD [OF row]
  show thesis
  proof (cases "ru_state row = Succeeded")
    case True
    with assms row that(1) show ?thesis by (auto simp: claim_run_def Let_def split: if_splits)
  next
    case False
    from assms row False id show ?thesis
      by (intro that(2) [of row])
        (auto simp: claim_run_def Let_def find_run_update row_simps terminal_def split: if_splits)
  qed
qed

lemma finish_run_InrD:
  assumes "finish_run rid t tok s res e clk db = Inr (u, db')"
  obtains row s' r' e' where "find_run db rid t = Inr row" and "ru_state row = Running"
    and "ru_token row = Some tok" and "s' \<in> {Succeeded, Failed, Cancelled, Exhausted, Needs_review}"
    and "(s', r', e') = (if ru_cancel row then (Cancelled, None, Some ''cancelled'') else (s, res, e))"
    and "db' = update_run rid (\<lambda>r. (close_run s' (clk 2) r)\<lparr>ru_result := r', ru_error := e'\<rparr>)
             (update_attempt (Some tok) (end_attempt_error (Attempt s') (clk 1) e') db)"
proof -
  obtain row where "owned_run db rid t tok (clk 0) = Inr row" and s: "s \<in> {Succeeded, Failed, Cancelled, Exhausted, Needs_review}"
    using assms by (auto simp: finish_run_def split: if_splits)
  with assms that [of row] show thesis
    by (cases "ru_cancel row") (auto simp: finish_run_def dest!: owned_run_InrD)
qed

lemma run_step_inv:
  assumes "run_step cfg kd db e db'" and inv: "run_inv cfg db"
  shows "run_inv cfg db'"
  using assms(1)
proof cases
  case (run_create job duration key clk row)
  then consider "db' = db" | k where "db' = db\<lparr>db_runs := db_runs db @ [new_run job (clk 0) (num_value duration) k]\<rparr>"
      "\<not> list_ex (\<lambda>r. ru_id r = jb_run_id job) (db_runs db)"
    by (auto simp: create_run_def Let_def split: if_splits option.splits)
  then show ?thesis
  proof cases
    case 2
    then show ?thesis using inv by (auto simp: run_inv_def new_run_def run_ok_def list_ex_iff)
  qed (use inv in simp)
next
  case (run_get rid t clk x)
  from run_get(2) show ?thesis
  proof (cases rule: get_run_InrD)
    case (2 row f k g)
    have "run_ok cfg (f row)"
      using 2 run_ok_row [OF inv 2(1)] by (auto simp: run_ok_def close_run_def close_run_error_def)
    with 2 inv show ?thesis by (auto intro!: run_inv_attempt run_inv_update)
  qed (use inv in simp)
next
  case (run_publish rid t clk u)
  then obtain row where "find_run db rid t = Inr row"
    and "db' = update_run rid (\<lambda>r. r\<lparr>ru_published := True, ru_updated := clk 0\<rparr>) db"
    by (auto simp: mark_published_def)
  with run_ok_row [OF inv] show ?thesis
    by (auto intro!: run_inv_update [OF inv] simp: row_simps) (auto simp: run_ok_def)
next
  case (run_claim job tok clk row)
  from run_claim(2) show ?thesis
  proof (cases rule: claim_run_InrD)
    case (2 old)
    have "run_inv cfg ((update_attempt (ru_token old) (end_attempt Attempt_expired (clk 0)) db)
              \<lparr>db_attempts := db_attempts (update_attempt (ru_token old) (end_attempt Attempt_expired (clk 0)) db)
                 @ [new_attempt tok old (clk 0)]\<rparr>)"
    proof -
      have tok: "map at_token (db_attempts (update_attempt (ru_token old) (end_attempt Attempt_expired (clk 0)) db))
          = map at_token (db_attempts db)"
        by (simp add: update_attempt_def map_update_where)
      have "tok \<notin> set (map at_token (db_attempts db))" using 2(8) by (auto simp: list_ex_iff)
      moreover have "db_runs (update_attempt k g db) = db_runs db" for k g by (simp add: update_attempt_def)
      ultimately show ?thesis using inv tok
        by (simp add: run_inv_def new_attempt_def del: set_map) 
    qed
    moreover have "run_ok cfg (start_run cfg tok (clk 0) old)"
      using run_ok_row [OF inv 2(1)] 2 by (auto simp: run_ok_def start_run_def split: option.split)
    ultimately show ?thesis using 2 by (auto intro!: run_inv_update simp: row_simps)
  qed (use run_claim in simp)
next
  case (run_replay job tok clk row)
  from run_replay(2) show ?thesis
    by (cases rule: claim_run_InrD) (use inv run_replay(3) in \<open>auto simp: start_run_def\<close>)
next
  case (run_guard rid t tok clk x)
  then obtain row where row: "find_run db rid t = Inr row" "ru_state row = Running"
    and "db' = update_run rid (\<lambda>r. r\<lparr>ru_lease_until := Some (clk 1 + lease_seconds cfg)\<rparr>) db"
    by (auto simp: guard_run_def Let_def split: if_splits option.splits dest!: owned_run_InrD)
  with run_ok_row [OF inv row(1)] show ?thesis
    by (auto intro!: run_inv_update [OF inv] simp: row_simps) (auto simp: run_ok_def)
next
  case (run_checkpoint rid t tok cp clk u)
  then obtain row where row: "find_run db rid t = Inr row" "ru_state row = Running"
    and "db' = update_run rid (\<lambda>r. r\<lparr>ru_checkpoint := cp, ru_updated := clk 1,
            ru_lease_until := Some (clk 2 + lease_seconds cfg)\<rparr>) db"
    by (auto simp: checkpoint_run_def split: if_splits dest!: owned_run_InrD)
  with run_ok_row [OF inv row(1)] show ?thesis
    by (auto intro!: run_inv_update [OF inv] simp: row_simps) (auto simp: run_ok_def)
next
  case (run_finish rid t tok s res e' clk u row)
  from run_finish(2) obtain old s' r' e2 where old: "find_run db rid t = Inr old"
    and s: "s' \<in> {Succeeded, Failed, Cancelled, Exhausted, Needs_review}"
    and c: "(s', r', e2) = (if ru_cancel old then (Cancelled, None, Some ''cancelled'') else (s, res, e'))"
    and db': "db' = update_run rid (\<lambda>r. (close_run s' (clk 2) r)\<lparr>ru_result := r', ru_error := e2\<rparr>)
             (update_attempt (Some tok) (end_attempt_error (Attempt s') (clk 1) e2) db)"
    by (rule finish_run_InrD)
  have "run_inv cfg (update_attempt (Some tok) (end_attempt_error (Attempt s') (clk 1) e2) db)"
    by (rule run_inv_attempt [OF inv]) simp
  moreover have "run_ok cfg ((close_run s' (clk 2) old)\<lparr>ru_result := r', ru_error := e2\<rparr>)"
    using run_ok_row [OF inv old] s c by (auto simp: run_ok_def close_run_def split: if_splits)
  ultimately show ?thesis unfolding db' using old by (auto intro!: run_inv_update simp: row_simps)
next
  case (run_cancel rid t clk row)
  then obtain old where old: "find_run db rid t = Inr old" by (auto simp: cancel_run_def)
  with run_cancel consider "db' = db" | b where "\<not> terminal (ru_state old)"
      "ru_state old = Running \<longrightarrow> until_passed (ru_lease_until old) (clk 0) = Inr b"
      "db' = update_run rid (\<lambda>r. r\<lparr>ru_cancel := True,
                     ru_state := (if ru_state old = Running \<and> \<not> b then Running else Cancelled),
                     ru_updated := clk 1\<rparr>) db"
    by (auto simp: cancel_run_def split: if_splits)
  then show ?thesis
  proof cases
    case 2
    with run_ok_row [OF inv old] old show ?thesis
      by (auto intro!: run_inv_update [OF inv] simp: row_simps) (auto simp: run_ok_def)
  qed (use inv in simp)
next
  case (run_resume rid t clk row)
  then obtain old where "find_run db rid t = Inr old" "\<not> ru_cancel old"
    and "db' = update_run rid (\<lambda>r. r\<lparr>ru_state := Queued, ru_token := None, ru_lease_until := None,
             ru_published := False, ru_updated := clk 2\<rparr>) db"
    by (auto simp: resume_run_def Let_def split: if_splits)
  with run_ok_row [OF inv] show ?thesis
    by (auto intro!: run_inv_update [OF inv] simp: row_simps) (auto simp: run_ok_def)
qed

lemma run_step_next:
  assumes "run_step cfg kd db e db'" and inv: "run_inv cfg db"
  shows "run_next cfg e rid (run_of db rid) (run_of db' rid)"
  using assms(1)
proof cases
  case (run_create job duration key clk row)
  then consider "db' = db" | k where "db' = db\<lparr>db_runs := db_runs db @ [new_run job (clk 0) (num_value duration) k]\<rparr>"
    by (auto simp: create_run_def Let_def split: if_splits option.splits)
  then show ?thesis
  proof cases
    case (2 k)
    have "run_of db' rid = (case run_of db rid of Some r \<Rightarrow> Some r
        | None \<Rightarrow> if rid = jb_run_id job then Some (new_run job (clk 0) (num_value duration) k) else None)"
      by (simp add: 2 run_of_def select1_append new_run_def split: option.split)
    with run_create(1) show ?thesis
      by (auto simp: run_next_def run_changes_def same_run_def frozen_run_def new_run_def split: option.split)
  qed (simp add: run_create(1) run_next_refl)
next
  case (run_get i t clk x)
  from run_get(2) show ?thesis
  proof (cases rule: get_run_InrD)
    case (2 row f k g)
    then have "run_changes cfg e i row (f row)"
      using run_get(1)
      by (auto simp: run_changes_def same_run_def close_run_def close_run_error_def terminal_def)
    with 2 run_get(1) show ?thesis by (intro run_next_update [OF inv 2(1) 2(3)]) auto
  qed (simp add: run_get(1) run_next_refl)
next
  case (run_publish i t clk u)
  then obtain row where "find_run db i t = Inr row"
    and "db' = update_run i (\<lambda>r. r\<lparr>ru_published := True, ru_updated := clk 0\<rparr>) db"
    by (auto simp: mark_published_def)
  with run_publish(1) show ?thesis
    by (intro run_next_update [OF inv]) (auto simp: row_simps run_changes_def same_run_def frozen_run_def)
next
  case (run_claim job tok clk row)
  from run_claim(2) show ?thesis
  proof (cases rule: claim_run_InrD)
    case (2 old)
    have "run_changes cfg e (jb_run_id job) old (start_run cfg tok (clk 0) old)"
      using 2 run_claim(1) by (auto simp: run_changes_def same_run_def start_run_def split: option.split)
    with 2 run_claim(1) show ?thesis
      by (intro run_next_update [OF inv 2(1) keeps_run(3)]) (auto simp: run_of_update row_simps)
  qed (use run_claim in simp)
next
  case (run_replay job tok clk row)
  from run_replay(2) show ?thesis
    by (cases rule: claim_run_InrD) (use run_replay(1,3) in \<open>auto simp: start_run_def run_next_refl\<close>)
next
  case (run_guard i t tok clk x)
  then obtain row where row: "find_run db i t = Inr row" "ru_state row = Running" "ru_token row = Some tok"
      "\<not> ru_cancel row"
    and "db' = update_run i (\<lambda>r. r\<lparr>ru_lease_until := Some (clk 1 + lease_seconds cfg)\<rparr>) db"
    by (auto simp: guard_run_def Let_def split: if_splits option.splits dest!: owned_run_InrD)
  with run_guard(1) show ?thesis
    by (intro run_next_update [OF inv row(1)]) (auto simp: row_simps run_changes_def same_run_def terminal_def)
next
  case (run_checkpoint i t tok cp clk u)
  then obtain row where row: "find_run db i t = Inr row" "ru_state row = Running" "ru_token row = Some tok"
      "\<not> ru_cancel row"
    and "db' = update_run i (\<lambda>r. r\<lparr>ru_checkpoint := cp, ru_updated := clk 1,
            ru_lease_until := Some (clk 2 + lease_seconds cfg)\<rparr>) db"
    by (auto simp: checkpoint_run_def split: if_splits dest!: owned_run_InrD)
  with run_checkpoint(1) show ?thesis
    by (intro run_next_update [OF inv row(1)]) (auto simp: row_simps run_changes_def same_run_def terminal_def)
next
  case (run_finish i t tok s res e' clk u row)
  from run_finish(2) obtain old s' r' e2 where old: "find_run db i t = Inr old" "ru_state old = Running"
      "ru_token old = Some tok" "s' \<in> {Succeeded, Failed, Cancelled, Exhausted, Needs_review}"
    and c: "(s', r', e2) = (if ru_cancel old then (Cancelled, None, Some ''cancelled'') else (s, res, e'))"
    and db': "db' = update_run i (\<lambda>r. (close_run s' (clk 2) r)\<lparr>ru_result := r', ru_error := e2\<rparr>)
             (update_attempt (Some tok) (end_attempt_error (Attempt s') (clk 1) e2) db)"
    by (rule finish_run_InrD)
  have "run_of db' i = Some ((close_run s' (clk 2) old)\<lparr>ru_result := r', ru_error := e2\<rparr>)"
    using run_of_find [OF inv old(1)] by (simp add: db' run_of_update row_simps)
  with run_finish(3) have "ru_state row = s'" by (auto simp: close_run_def)
  define f where "f = (\<lambda>r. (close_run s' (clk 2) r)\<lparr>ru_result := r', ru_error := e2\<rparr>)"
  have f: "keeps_run f" unfolding f_def by (rule keeps_run(4))
  have ch: "run_changes cfg e i old (f old)"
    using old c run_finish(1) \<open>ru_state row = s'\<close>
    by (auto simp: run_changes_def same_run_def terminal_def close_run_def f_def split: if_splits)
  have eq: "run_of db' j = run_of (update_run i f db) j" for j
    by (simp add: db' f_def [symmetric] run_of_update [OF f])
  show ?thesis
    by (rule run_next_update [OF inv old(1) f _ ch eq]) (simp add: run_finish(1))
next
  case (run_cancel i t clk row)
  then obtain old where old: "find_run db i t = Inr old" by (auto simp: cancel_run_def)
  with run_cancel consider "db' = db" | b where "\<not> terminal (ru_state old)"
      "ru_state old = Running \<longrightarrow> until_passed (ru_lease_until old) (clk 0) = Inr b"
      "db' = update_run i (\<lambda>r. r\<lparr>ru_cancel := True,
                     ru_state := (if ru_state old = Running \<and> \<not> b then Running else Cancelled),
                     ru_updated := clk 1\<rparr>) db"
    by (auto simp: cancel_run_def split: if_splits)
  then show ?thesis
  proof cases
    case 2
    with run_cancel(1) old show ?thesis
      by (intro run_next_update [OF inv old]) (auto simp: row_simps run_changes_def same_run_def)
  qed (simp add: run_cancel(1) run_next_refl)
next
  case (run_resume i t clk row)
  then obtain old where "find_run db i t = Inr old" "\<not> terminal (ru_state old)"
    and "db' = update_run i (\<lambda>r. r\<lparr>ru_state := Queued, ru_token := None, ru_lease_until := None,
             ru_published := False, ru_updated := clk 2\<rparr>) db"
    by (auto simp: resume_run_def Let_def split: if_splits)
  with run_resume(1) show ?thesis
    by (intro run_next_update [OF inv]) (auto simp: row_simps run_changes_def same_run_def)
qed

lemma run_trace_inv: "run_trace cfg kd db evs db' \<Longrightarrow> run_inv cfg db \<Longrightarrow> run_inv cfg db'"
  by (induction rule: run_trace.induct) (auto intro: run_step_inv)

lemma run_inv_empty [simp]: "run_inv cfg empty_run_db"
  by (simp add: run_inv_def empty_run_db_def)

section \<open>What the traces show\<close>

definition run_claims :: "string \<Rightarrow> run_event list \<Rightarrow> string list" where
  "run_claims rid evs = concat (map (\<lambda>e. case e of Ev_claim i tok \<Rightarrow> if i = rid then [tok] else [] | _ \<Rightarrow> []) evs)"

definition run_finishes :: "string \<Rightarrow> run_event list \<Rightarrow> (string \<times> run_state) list" where
  "run_finishes rid evs =
     concat (map (\<lambda>e. case e of Ev_finish i tok s \<Rightarrow> if i = rid then [(tok, s)] else [] | _ \<Rightarrow> []) evs)"

lemma run_events_simps [simp]:
  "run_claims rid [] = []" "run_finishes rid [] = []"
  "run_claims rid (evs @ evs') = run_claims rid evs @ run_claims rid evs'"
  "run_finishes rid (evs @ evs') = run_finishes rid evs @ run_finishes rid evs'"
  "run_claims rid [Ev_claim i tok] = (if i = rid then [tok] else [])"
  "run_finishes rid [Ev_finish i tok s] = (if i = rid then [(tok, s)] else [])"
  "run_claims rid [Ev_write i tok] = []" "run_claims rid [Ev_finish i tok s] = []" "run_claims rid [Ev_silent] = []"
  "run_finishes rid [Ev_claim i tok] = []" "run_finishes rid [Ev_write i tok] = []" "run_finishes rid [Ev_silent] = []"
  by (simp_all add: run_claims_def run_finishes_def)

text \<open>Every write and finish of the run carries the token of the last claim before it.\<close>

definition fenced :: "string \<Rightarrow> run_event list \<Rightarrow> bool" where
  "fenced rid evs \<longleftrightarrow>
     (\<forall>xs e ys tok. evs = xs @ e # ys \<and> (e = Ev_write rid tok \<or> (\<exists>s. e = Ev_finish rid tok s)) \<longrightarrow>
        run_claims rid xs \<noteq> [] \<and> last (run_claims rid xs) = tok)"

definition run_history :: "string \<Rightarrow> run_event list \<Rightarrow> run_row option \<Rightarrow> bool" where
  "run_history rid evs r \<longleftrightarrow> fenced rid evs \<and>
     (case r of
        None \<Rightarrow> run_claims rid evs = [] \<and> run_finishes rid evs = []
      | Some row \<Rightarrow>
          (ru_token row = None \<or> run_claims rid evs \<noteq> [] \<and> ru_token row = Some (last (run_claims rid evs))) \<and>
          length (run_claims rid evs) = ru_attempts row \<and>
          length (run_finishes rid evs) + (if ru_state row = Running then 1 else 0) \<le> length (run_claims rid evs) \<and>
          (\<forall>p \<in> set (run_finishes rid evs). terminal (snd p) \<longrightarrow>
             snd p = ru_state row \<and> p = last (run_finishes rid evs)))"

lemma fenced_snoc:
  assumes "fenced rid evs"
    and "\<And>tok. e = Ev_write rid tok \<or> (\<exists>s. e = Ev_finish rid tok s) \<Longrightarrow>
       run_claims rid evs \<noteq> [] \<and> last (run_claims rid evs) = tok"
  shows "fenced rid (evs @ [e])"
  unfolding fenced_def
proof (intro allI impI)
  fix xs e' ys tok
  assume a: "evs @ [e] = xs @ e' # ys \<and> (e' = Ev_write rid tok \<or> (\<exists>s. e' = Ev_finish rid tok s))"
  show "run_claims rid xs \<noteq> [] \<and> last (run_claims rid xs) = tok"
  proof (cases ys rule: rev_cases)
    case Nil
    with a assms(2) [of tok] show ?thesis by auto
  next
    case (snoc ys' y)
    with a have "evs = xs @ e' # ys'" by (metis append_Cons append_assoc butlast_snoc)
    with a assms(1) show ?thesis unfolding fenced_def by blast
  qed
qed

lemma run_history_next:
  assumes h: "run_history rid evs r" and n: "run_next cfg e rid r r'"
  shows "run_history rid (evs @ [e]) r'"
proof (cases r)
  case None
  with h n have na: "\<not> about_run rid e" and c: "run_claims rid evs = []" "run_finishes rid evs = []"
    and f: "fenced rid evs"
    and r': "case r' of None \<Rightarrow> True | Some x \<Rightarrow> ru_token x = None \<and> ru_attempts x = 0 \<and> ru_state x = Queued"
    by (auto simp: run_history_def run_next_def)
  have "fenced rid (evs @ [e])" by (rule fenced_snoc [OF f]) (use na in auto)
  moreover have "run_claims rid [e] = []" "run_finishes rid [e] = []" using na by (cases e; simp)+
  ultimately show ?thesis using c r' by (auto simp: run_history_def split: option.splits)
next
  case (Some row)
  with n obtain row' where r': "r' = Some row'" and ch: "run_changes cfg e rid row row'"
    by (auto simp: run_next_def split: option.splits)
  note h' = h [unfolded run_history_def Some option.case]
  have f: "fenced rid (evs @ [e])"
  proof (rule fenced_snoc)
    fix tok
    assume "e = Ev_write rid tok \<or> (\<exists>s. e = Ev_finish rid tok s)"
    with ch have "ru_token row = Some tok" by (auto simp: run_changes_def)
    with h' show "run_claims rid evs \<noteq> [] \<and> last (run_claims rid evs) = tok" by simp
  qed (use h' in simp)
  from h' have tok: "ru_token row = None \<or> run_claims rid evs \<noteq> [] \<and> ru_token row = Some (last (run_claims rid evs))"
    and len: "length (run_claims rid evs) = ru_attempts row"
    and fin: "length (run_finishes rid evs) + (if ru_state row = Running then 1 else 0) \<le> length (run_claims rid evs)"
    and trm: "\<And>p. p \<in> set (run_finishes rid evs) \<Longrightarrow> terminal (snd p) \<Longrightarrow>
        snd p = ru_state row \<and> p = last (run_finishes rid evs)"
    by blast+
  have live: "\<forall>p \<in> set (run_finishes rid evs). \<not> terminal (snd p)" if "\<not> terminal (ru_state row)"
    using trm that by metis
  show ?thesis
  proof (cases "about_run rid e")
    case True
    with ch have nt: "\<not> terminal (ru_state row)" by (simp add: run_changes_def)
    note live = live [OF nt]
    from True consider k where "e = Ev_claim rid k" | k where "e = Ev_write rid k"
      | k s where "e = Ev_finish rid k s" by (cases e) auto
    then show ?thesis
    proof cases
      case 1
      then have "ru_token row' = Some k" "ru_state row' = Running" "ru_attempts row' = ru_attempts row + 1"
        using ch by (simp_all add: run_changes_def)
      with 1 f len fin live show ?thesis by (simp add: run_history_def r' split: if_splits)
    next
      case 2
      then have "ru_token row' = ru_token row \<or> ru_token row' = None" "ru_state row' = Running"
        "ru_state row = Running" "ru_attempts row' = ru_attempts row"
        using ch by (auto simp: run_changes_def)
      with 2 f tok len fin live show ?thesis by (auto simp: run_history_def r')
    next
      case 3
      then have "ru_token row' = None" "ru_state row' = s" "s \<noteq> Running" "ru_state row = Running" "ru_attempts row' = ru_attempts row"
        using ch by (auto simp: run_changes_def)
      with 3 f len fin live show ?thesis by (auto simp: run_history_def r' terminal_def)
    qed
  next
    case False
    then have ev: "run_claims rid [e] = []" "run_finishes rid [e] = []" and nc: "\<forall>k. e \<noteq> Ev_claim rid k"
      by (cases e; simp)+
    with ch False have k: "ru_token row' = ru_token row \<or> ru_token row' = None" "ru_attempts row' = ru_attempts row"
      and st: "ru_state row' \<noteq> ru_state row \<longrightarrow> ru_state row' \<in> {Queued, Cancelled, Exhausted, Needs_review}"
      and fr: "terminal (ru_state row) \<longrightarrow> ru_state row' = ru_state row"
      by (auto simp: run_changes_def frozen_run_def)
    have "ru_state row' = Running \<longrightarrow> ru_state row = Running" using st by auto
    moreover have "\<forall>p \<in> set (run_finishes rid evs). terminal (snd p) \<longrightarrow>
        snd p = ru_state row' \<and> p = last (run_finishes rid evs)"
      using trm live fr by metis
    ultimately show ?thesis using f ev k tok len fin by (auto simp: run_history_def r')
  qed
qed

lemma run_trace_history:
  "run_trace cfg kd db0 evs db \<Longrightarrow> run_inv cfg db0 \<Longrightarrow> run_history rid [] (run_of db0 rid) \<Longrightarrow>
     run_history rid evs (run_of db rid)"
  by (induction rule: run_trace.induct) (auto intro: run_history_next run_step_next run_trace_inv)

lemma run_history_empty: "run_history rid [] (run_of empty_run_db rid)"
  by (simp add: run_history_def fenced_def run_of_def empty_run_db_def)


text \<open>
  C13. Fencing of agent attempts. In every history of the run table, each renewal, checkpoint and
  terminal write of a run carries the token of the last claim made of that run before it; a run is
  claimed at most \<open>max_attempts\<close> times, finished at most once per claim, and once a finish is
  terminal it is the last finish and the state it wrote stays.
\<close>

theorem run_attempts_fenced:
  assumes "run_trace cfg kd empty_run_db evs db"
  shows "(\<forall>xs e ys tok. evs = xs @ e # ys \<and> (e = Ev_write rid tok \<or> (\<exists>s. e = Ev_finish rid tok s)) \<longrightarrow>
        run_claims rid xs \<noteq> [] \<and> last (run_claims rid xs) = tok)
    \<and> length (run_finishes rid evs) \<le> length (run_claims rid evs)
    \<and> length (run_claims rid evs) \<le> max_attempts cfg
    \<and> (\<forall>p \<in> set (run_finishes rid evs). terminal (snd p) \<longrightarrow>
         p = last (run_finishes rid evs) \<and> (\<exists>r. run_of db rid = Some r \<and> ru_state r = snd p))"
proof -
  have inv: "run_inv cfg db" using assms by (rule run_trace_inv) simp
  have h: "run_history rid evs (run_of db rid)"
    by (rule run_trace_history [OF assms run_inv_empty run_history_empty])
  have "run_of db rid = Some r \<Longrightarrow> ru_attempts r \<le> max_attempts cfg" for r
    using inv by (auto simp: run_of_def run_inv_def run_ok_def dest!: select1_SomeD)
  then have "length (run_claims rid evs) \<le> max_attempts cfg"
    using h by (cases "run_of db rid") (auto simp: run_history_def)
  moreover have "length (run_finishes rid evs) \<le> length (run_claims rid evs)"
    using h by (auto simp: run_history_def split: option.splits if_splits)
  moreover have "\<forall>p \<in> set (run_finishes rid evs). terminal (snd p) \<longrightarrow>
         p = last (run_finishes rid evs) \<and> (\<exists>r. run_of db rid = Some r \<and> ru_state r = snd p)"
  proof (cases "run_of db rid")
    case (Some r)
    with h have "\<forall>p \<in> set (run_finishes rid evs). terminal (snd p) \<longrightarrow>
        snd p = ru_state r \<and> p = last (run_finishes rid evs)" by (simp add: run_history_def)
    with Some show ?thesis by metis
  qed (use h in \<open>simp add: run_history_def\<close>)
  moreover have "fenced rid evs" using h by (simp add: run_history_def)
  ultimately show ?thesis unfolding fenced_def by blast
qed

definition run_concerns :: "string \<Rightarrow> run_event list \<Rightarrow> run_event list" where
  "run_concerns rid evs = filter (about_run rid) evs"

lemma run_trace_row:
  assumes "run_trace cfg kd db0 evs db" and "run_inv cfg db0" and "run_of db0 rid = Some r"
    and stay: "P r []"
    and step: "\<And>e r1 r2 xs. P r1 xs \<Longrightarrow> run_changes cfg e rid r1 r2 \<Longrightarrow> P r2 (xs @ [e])"
  shows "\<exists>r'. run_of db rid = Some r' \<and> P r' evs"
  using assms(1-3) stay
proof (induction rule: run_trace.induct)
  case (run_start db)
  then show ?case by blast
next
  case (run_snoc db evs db1 e db2)
  then obtain r1 where r1: "run_of db1 rid = Some r1" "P r1 evs" by blast
  have "run_inv cfg db1" using run_snoc run_trace_inv by blast
  then have "run_next cfg e rid (Some r1) (run_of db2 rid)"
    using run_step_next [OF run_snoc.hyps(2)] r1(1) by metis
  then obtain r2 where "run_of db2 rid = Some r2" "run_changes cfg e rid r1 r2"
    by (auto simp: run_next_def split: option.splits)
  with step [OF r1(2)] show ?case by blast
qed

lemma run_trace_frozen:
  assumes "run_inv cfg db0" and "run_of db0 rid = Some r" and "terminal (ru_state r)"
    and "run_trace cfg kd db0 evs db"
  shows "\<exists>r'. run_of db rid = Some r' \<and> (frozen_run r r' \<and> run_concerns rid evs = [])"
proof (rule run_trace_row [OF assms(4,1,2)])
  show "frozen_run r r \<and> run_concerns rid [] = []" by (simp add: frozen_run_def run_concerns_def)
  show "frozen_run r r2 \<and> run_concerns rid (xs @ [e]) = []"
    if "frozen_run r r1 \<and> run_concerns rid xs = []" and "run_changes cfg e rid r1 r2" for e r1 r2 xs
    using that assms(3) by (auto simp: frozen_run_def run_concerns_def run_changes_def)
qed

text \<open>
  C14. Terminal runs are final. Once a run has succeeded, was cancelled, is exhausted or needs review,
  no later operation changes its state, result, error, checkpoint, attempts or cancellation, and it is
  never claimed, written or finished again.
\<close>

theorem terminal_runs_are_final:
  assumes "run_inv cfg db0" and "run_of db0 rid = Some r" and "terminal (ru_state r)"
    and "run_trace cfg kd db0 evs db"
  shows "\<exists>r'. run_of db rid = Some r' \<and> frozen_run r r' \<and> run_concerns rid evs = []"
  using run_trace_frozen [OF assms] by simp

text \<open>
  C15. Cancellation is sticky and the deadline is fixed. After a cancellation has been requested, no
  attempt of the run claims it, renews its lease or writes a checkpoint again, and a finish can only
  record the cancellation. The deadline set by the first claim never moves, whatever is claimed,
  resumed or cancelled later.
\<close>

theorem cancellation_and_deadline_stick:
  assumes "run_inv cfg db0" and "run_of db0 rid = Some r" and "run_trace cfg kd db0 evs db"
  shows "\<exists>r'. run_of db rid = Some r' \<and>
     (ru_deadline r \<noteq> None \<longrightarrow> ru_deadline r' = ru_deadline r) \<and>
     (ru_cancel r \<longrightarrow> ru_cancel r' \<and> (\<forall>e \<in> set (run_concerns rid evs). \<exists>tok. e = Ev_finish rid tok Cancelled))"
proof -
  have "\<exists>r'. run_of db rid = Some r' \<and> ((ru_deadline r \<noteq> None \<longrightarrow> ru_deadline r' = ru_deadline r) \<and>
     (ru_cancel r \<longrightarrow> ru_cancel r' \<and> (\<forall>e \<in> set (run_concerns rid evs). \<exists>tok. e = Ev_finish rid tok Cancelled)))"
  proof (rule run_trace_row [OF assms(3,1,2)], goal_cases)
    case 1
    show ?case by (simp add: run_concerns_def)
  next
    case (2 e r1 r2 xs)
    then show ?case
      by (cases e) (auto simp: run_concerns_def run_changes_def)
  qed
  then show ?thesis by simp
qed

end
