(* ===== verification/Tools.thy ===== *)
theory Tools
  imports Run_Store Policy
begin

text \<open>
  Tools and retrieval: the registry and the dispatcher (\<open>services/tool_registry.py\<close>,
  \<open>services/tool_dispatcher.py\<close>), the two tools of \<open>core/tool_setup.py\<close> with their argument schemas,
  the retrieval facade (\<open>retrieval/retrieval_facade.py\<close>) and the search handler
  (\<open>use_cases/search_documents.py\<close>). Handlers are procedures on any state.
\<close>

section \<open>Registry and dispatch\<close>

text \<open>\<open>ToolDefinition\<close>: validation of the arguments and the handler are one procedure, in that order.\<close>

record 's tool_definition =
  tl_name :: ustr
  tl_replay_safe :: bool
  tl_call :: "arguments \<Rightarrow> tool_context \<Rightarrow> ('s, exn, tool_result) proc"

text \<open>\<open>ToolRegistry.register\<close> and \<open>get\<close>; registrations keep their order.\<close>

definition register_tool :: "'s tool_definition \<Rightarrow> 's tool_definition list \<Rightarrow> exn + 's tool_definition list" where
  "register_tool tool registry =
     (if tl_name tool = [] \<or> tl_name tool \<noteq> py_strip (tl_name tool) then Inl Value_error
      else if list_ex (\<lambda>t. tl_name t = tl_name tool) registry then Inl Value_error
      else Inr (registry @ [tool]))"

definition get_tool :: "'s tool_definition list \<Rightarrow> ustr \<Rightarrow> exn + 's tool_definition" where
  "get_tool registry name =
     (case select1 (\<lambda>t. tl_name t = name) registry of None \<Rightarrow> Inl Unknown_tool_error | Some t \<Rightarrow> Inr t)"

text \<open>\<open>ToolDispatcher\<close>\<close>

definition tool_names :: "'s tool_definition list \<Rightarrow> ustr list" where
  "tool_names registry = map tl_name registry"

definition replay_safe :: "'s tool_definition list \<Rightarrow> ustr \<Rightarrow> exn + bool" where
  "replay_safe registry name = bindR (get_tool registry name) (\<lambda>t. Inr (tl_replay_safe t))"

definition dispatch_tool ::
  "'s tool_definition list \<Rightarrow> ustr \<Rightarrow> arguments \<Rightarrow> tool_context \<Rightarrow> ('s, exn, tool_result) proc" where
  "dispatch_tool registry name args ctx = bindP (liftR (get_tool registry name)) (\<lambda>t. tl_call t args ctx)"

lemma register_tool_distinct:
  "register_tool t reg = Inr reg' \<Longrightarrow> distinct (tool_names reg) \<Longrightarrow> distinct (tool_names reg')"
proof -
  assume r: "register_tool t reg = Inr reg'" and d: "distinct (tool_names reg)"
  have reg': "reg' = reg @ [t]" and new: "\<forall>x \<in> set reg. tl_name x \<noteq> tl_name t"
    using r by (auto simp: register_tool_def list_ex_iff split: if_splits)
  from new have "tl_name t \<notin> tl_name ` set reg" by (metis imageE)
  with d show ?thesis by (simp add: reg' tool_names_def)
qed

lemma get_tool_registered:
  assumes "register_tool t reg = Inr reg'"
  shows "get_tool reg' name = (if name = tl_name t then Inr t else get_tool reg name)"
proof -
  have reg': "reg' = reg @ [t]" and new: "\<forall>x \<in> set reg. tl_name x \<noteq> tl_name t"
    using assms by (auto simp: register_tool_def list_ex_iff split: if_splits)
  show ?thesis
  proof (cases "name = tl_name t")
    case True
    with new have "select1 (\<lambda>x. tl_name x = name) reg = None" by (auto simp: select1_None_iff)
    with True show ?thesis by (simp add: get_tool_def reg' select1_append)
  next
    case False
    then show ?thesis by (simp add: get_tool_def reg' select1_append split: option.split)
  qed
qed

section \<open>Argument schemas\<close>

text \<open>
  \<open>model_validate\<close> of the two argument models: unknown fields are refused, \<open>query\<close> and
  \<open>agent_task_id\<close> are strict strings (stripped), \<open>top_k\<close> a strict integer with default 5.
\<close>

definition only_fields :: "string list \<Rightarrow> arguments \<Rightarrow> bool" where
  "only_fields names args \<longleftrightarrow> list_all (\<lambda>(k, _). k \<in> set names) args"

definition parse_retrieval_request :: "arguments \<Rightarrow> exn + retrieval_request" where
  "parse_retrieval_request args =
     (if \<not> only_fields [''query'', ''top_k''] args then Inl Validation_error
      else (case (map_of args ''query'', map_of args ''top_k'') of
              (Some (J_str q), None) \<Rightarrow>
                (let r = \<lparr>rq_query = py_strip q, rq_top_k = 5\<rparr>
                 in if valid_retrieval_request r then Inr r else Inl Validation_error)
            | (Some (J_str q), Some (J_int k)) \<Rightarrow>
                (let r = \<lparr>rq_query = py_strip q, rq_top_k = nat k\<rparr>
                 in if 1 \<le> k \<and> valid_retrieval_request r then Inr r else Inl Validation_error)
            | _ \<Rightarrow> Inl Validation_error))"

definition parse_status_request :: "arguments \<Rightarrow> exn + ustr" where
  "parse_status_request args =
     (if \<not> only_fields [''agent_task_id''] args then Inl Validation_error
      else (case map_of args ''agent_task_id'' of
              Some (J_str t) \<Rightarrow> if py_strip t = [] then Inl Validation_error else Inr (py_strip t)
            | _ \<Rightarrow> Inl Validation_error))"

lemma parse_retrieval_request_valid:
  "parse_retrieval_request args = Inr r \<Longrightarrow> valid_retrieval_request r"
  by (auto simp: parse_retrieval_request_def Let_def split: if_splits option.splits json.splits)

section \<open>Retrieval\<close>

text \<open>
  \<open>RetrievalFacade._search\<close>: the request is validated, the strategy's result is validated in full and
  may not exceed \<open>top_k\<close>. \<open>retriever\<close> is the injected strategy; a strategy that returns something
  else than a result is \<open>None\<close>.
\<close>

type_synonym 's retriever = "retrieval_request \<Rightarrow> string \<Rightarrow> ('s, exn, retrieval_result option) proc"

definition facade_search_inner ::
  "'s retriever \<Rightarrow> retrieval_request \<Rightarrow> string \<Rightarrow> ('s, exn, retrieval_result) proc" where
  "facade_search_inner retriever request t =
     thenP (requireP (valid_retrieval_request request) Validation_error)
     (bindP (retriever request t) (\<lambda>out.
      case out of
        None \<Rightarrow> raiseP Retrieval_result_error
      | Some result \<Rightarrow>
          if \<not> valid_retrieval_result result then raiseP Validation_error
          else if length (rs_passages result) > rq_top_k request then raiseP Retrieval_result_error
          else returnP result))"

text \<open>\<open>RetrievalFacade.search\<close>: both grants are required.\<close>

definition facade_search ::
  "'s retriever \<Rightarrow> retrieval_request \<Rightarrow> tool_context \<Rightarrow> ('s, exn, retrieval_result) proc" where
  "facade_search retriever request ctx =
     authorized ctx ''document.search''
       (authorized ctx ''document.read'' (facade_search_inner retriever request (tenant_id ctx)))"

text \<open>\<open>SearchDocumentsHandler.execute\<close>; \<open>json_bytes\<close> is the size of the serialised result.\<close>

definition search_documents ::
  "(retrieval_result \<Rightarrow> nat) \<Rightarrow> 's retriever \<Rightarrow> retrieval_request \<Rightarrow> tool_context \<Rightarrow>
   ('s, exn, retrieval_result) proc" where
  "search_documents json_bytes retriever request ctx =
     bindP (facade_search retriever request ctx) (\<lambda>result.
     if json_bytes result > 32000 then raiseP Retrieval_capacity_exceeded else returnP result)"

text \<open>\<open>GetAgentTaskStatusHandler.execute\<close>\<close>

definition get_agent_task_status ::
  "(ustr \<Rightarrow> string \<Rightarrow> ('s, exn, tool_result) proc) \<Rightarrow> ustr \<Rightarrow> tool_context \<Rightarrow> ('s, exn, tool_result) proc" where
  "get_agent_task_status reader task ctx =
     authorized ctx ''agent_task.read'' (reader task (tenant_id ctx))"

text \<open>\<open>build_tool_dispatcher\<close>: both tools are safe to replay.\<close>

definition status_tool :: "(ustr \<Rightarrow> string \<Rightarrow> ('s, exn, tool_result) proc) \<Rightarrow> 's tool_definition" where
  "status_tool reader =
     \<lparr>tl_name = ucs ''get_agent_task_status'', tl_replay_safe = True,
      tl_call = (\<lambda>args ctx. bindP (liftR (parse_status_request args)) (\<lambda>task.
         get_agent_task_status reader task ctx))\<rparr>"

definition search_tool :: "(retrieval_result \<Rightarrow> nat) \<Rightarrow> 's retriever \<Rightarrow> 's tool_definition" where
  "search_tool json_bytes retriever =
     \<lparr>tl_name = ucs ''search_documents'', tl_replay_safe = True,
      tl_call = (\<lambda>args ctx. bindP (liftR (parse_retrieval_request args)) (\<lambda>request.
         bindP (search_documents json_bytes retriever request ctx) (\<lambda>r. returnP (Search_result r))))\<rparr>"

definition build_tool_dispatcher ::
  "(ustr \<Rightarrow> string \<Rightarrow> ('s, exn, tool_result) proc) \<Rightarrow> (retrieval_result \<Rightarrow> nat) \<Rightarrow> 's retriever \<Rightarrow>
   exn + 's tool_definition list" where
  "build_tool_dispatcher reader json_bytes retriever =
     bindR (register_tool (status_tool reader) []) (\<lambda>reg. register_tool (search_tool json_bytes retriever) reg)"

lemma build_tool_dispatcher_eq:
  "build_tool_dispatcher reader jb retriever = Inr [status_tool reader, search_tool jb retriever]"
  by (simp add: build_tool_dispatcher_def register_tool_def status_tool_def search_tool_def ucs_def
      py_strip_def strip_by_def is_space_def)

lemma dispatch_search:
  "dispatch_tool [status_tool reader, search_tool jb retriever] (ucs ''search_documents'') args ctx =
     bindP (liftR (parse_retrieval_request args)) (\<lambda>request.
       bindP (search_documents jb retriever request ctx) (\<lambda>r. returnP (Search_result r)))"
  by (rule ext) (simp add: dispatch_tool_def get_tool_def status_tool_def search_tool_def ucs_def bindP_def liftR_def)

end
