(* ===== verification/Retrieval.thy ===== *)
theory Retrieval
  imports Tools Doc_Store "HOL-Library.Product_Lexorder" "HOL-Library.List_Lexorder"
begin

text \<open>
  The two search strategies over the latest documents of a tenant
  (\<open>retrieval/strategies/keyword_overlap.py\<close> and \<open>bm25.py\<close>, composed in \<open>retrieval/bootstrap.py\<close>) and
  the contract they share, the locale \<open>search_strategy\<close>. \<open>words\<close> is
  \<open>re.findall(r"\w+", text.casefold())\<close>. BM25's floats are exact rationals and \<open>math.log1p\<close> is a
  parameter, so the model's scores may differ from the program's in the last bits, and with them the
  order of passages whose scores are that close.
\<close>

section \<open>Selection\<close>

type_synonym 's corpus = "string \<Rightarrow> ('s, exn, stored_version list) proc"

definition to_passage :: "stored_version \<Rightarrow> text_chunk \<Rightarrow> passage" where
  "to_passage d c =
     \<lparr>pa_document_id = sv_document_id d, pa_version = sv_version d,
      pa_title = di_title (sv_document d), pa_source_ref = di_source_ref (sv_document d), pa_chunk = c\<rparr>"

text \<open>The end of both \<open>search\<close> methods: the output limit, then the validated result.\<close>

definition select_passages ::
  "string \<Rightarrow> nat \<Rightarrow> (stored_version \<times> text_chunk) list \<Rightarrow> exn + retrieval_result option" where
  "select_passages strategy output_limit selected =
     (if sum_list (map (\<lambda>(_, c). length (ch_text c)) selected) > output_limit
      then Inl Retrieval_capacity_exceeded
      else let result = \<lparr>rs_strategy = strategy, rs_passages = map (\<lambda>(d, c). to_passage d c) selected\<rparr>
           in if valid_retrieval_result result then Inr (Some result) else Inl Validation_error)"

text \<open>
  The sort keys: highest score first, then document, version and chunk.
\<close>

definition rank_key :: "rat \<times> stored_version \<times> text_chunk \<Rightarrow> rat \<times> string \<times> nat \<times> nat" where
  "rank_key p = (case p of (score, d, c) \<Rightarrow> (- score, sv_document_id d, sv_version d, ch_index c))"

section \<open>Keyword overlap\<close>

definition overlap_candidates ::
  "(ustr \<Rightarrow> ustr list) \<Rightarrow> ustr set \<Rightarrow> string \<Rightarrow> stored_version list \<Rightarrow>
   exn + (rat \<times> stored_version \<times> text_chunk) list" where
  "overlap_candidates words wanted t documents =
     bindR (mapR (\<lambda>d.
        if sv_tenant_id d \<noteq> t then Inl Retrieval_result_error
        else Inr (concat (map (\<lambda>c.
          let score = card (wanted \<inter> set (words (ch_text c)))
          in if score = 0 then [] else [(of_nat score, d, c)]) (cs_chunks (sv_chunking d))))) documents)
       (\<lambda>groups. Inr (concat groups))"

text \<open>\<open>KeywordOverlapRetriever\<close>: passages ranked by the number of query terms they contain.\<close>

definition keyword_search :: "(ustr \<Rightarrow> ustr list) \<Rightarrow> nat \<Rightarrow> 's corpus \<Rightarrow> 's retriever" where
  "keyword_search words output_limit reader request t =
     (let wanted = set (words (rq_query request))
      in if wanted = {} then returnP (Some \<lparr>rs_strategy = ''keyword_overlap_v1'', rs_passages = []\<rparr>)
         else bindP (reader t) (\<lambda>documents.
           bindP (liftR (overlap_candidates words wanted t documents)) (\<lambda>candidates.
           liftR (select_passages ''keyword_overlap_v1'' output_limit
             (map snd (take (rq_top_k request) (sort_key rank_key candidates)))))))"

section \<open>BM25\<close>

record bm25_cfg =
  bm_k1 :: rat
  bm_b :: rat
  bm_output :: nat
  bm_log1p :: "rat \<Rightarrow> rat"

text \<open>\<open>BM25Retriever.__init__\<close>; the two corpus limits go to the reader.\<close>

definition make_bm25 :: "pynum \<Rightarrow> pynum \<Rightarrow> pynum \<Rightarrow> pynum \<Rightarrow> pynum \<Rightarrow> (rat \<Rightarrow> rat) \<Rightarrow> exn + bm25_cfg" where
  "make_bm25 k1 b max_documents max_snapshot_bytes max_output log1p =
     (if \<not> positive_int max_documents \<or> \<not> positive_int max_snapshot_bytes \<or> \<not> positive_int max_output
      then Inl Value_error
      else if \<not> type_is_int_or_float k1 \<or> \<not> is_finite_num k1 \<or> \<not> (0 < num_value k1 \<and> num_value k1 \<le> 100)
         \<or> \<not> type_is_int_or_float b \<or> \<not> is_finite_num b \<or> \<not> (0 \<le> num_value b \<and> num_value b \<le> 1)
      then Inl Value_error
      else Inr \<lparr>bm_k1 = num_value k1, bm_b = num_value b, bm_output = nat \<lfloor>num_value max_output\<rfloor>,
                bm_log1p = log1p\<rparr>)"

text \<open>\<open>passages\<close>: a document, a chunk and the words of the chunk (\<open>counts\<close> and \<open>length\<close> read them).\<close>

type_synonym counted = "stored_version \<times> text_chunk \<times> ustr list"

definition count_passages ::
  "(ustr \<Rightarrow> ustr list) \<Rightarrow> string \<Rightarrow> stored_version list \<Rightarrow> exn + counted list" where
  "count_passages words t documents =
     bindR (mapR (\<lambda>d.
        if sv_tenant_id d \<noteq> t then Inl Retrieval_result_error
        else Inr (map (\<lambda>c. (d, c, words (ch_text c))) (cs_chunks (sv_chunking d)))) documents)
       (\<lambda>groups. Inr (concat groups))"

definition term_frequency :: "counted list \<Rightarrow> ustr \<Rightarrow> nat" where
  "term_frequency passages term = length (filter (\<lambda>(_, _, ws). term \<in> set ws) passages)"

definition average_length :: "counted list \<Rightarrow> rat" where
  "average_length passages =
     (if passages = [] then 0
      else of_nat (sum_list (map (\<lambda>(_, _, ws). length ws) passages)) / of_nat (length passages))"

definition bm25_score :: "bm25_cfg \<Rightarrow> counted list \<Rightarrow> rat \<Rightarrow> ustr list \<Rightarrow> ustr list \<Rightarrow> rat" where
  "bm25_score cfg passages average terms ws =
     (let total = of_nat (length passages);
          normalization = bm_k1 cfg * (1 - bm_b cfg + bm_b cfg * of_nat (length ws) / average)
      in sum_list (map (\<lambda>term.
           let tf = count_list ws term; df = of_nat (term_frequency passages term)
           in if tf = 0 then 0
              else bm_log1p cfg ((total - df + 1/2) / (df + 1/2)) * of_nat tf * (bm_k1 cfg + 1)
                   / (of_nat tf + normalization)) terms))"

definition bm25_candidates :: "bm25_cfg \<Rightarrow> counted list \<Rightarrow> rat \<Rightarrow> ustr list \<Rightarrow> (rat \<times> stored_version \<times> text_chunk) list" where
  "bm25_candidates cfg passages average terms =
     concat (map (\<lambda>(d, c, ws). let score = bm25_score cfg passages average terms ws
                              in if score > 0 then [(score, d, c)] else []) passages)"

text \<open>\<open>BM25Retriever.search\<close>\<close>

definition bm25_search :: "(ustr \<Rightarrow> ustr list) \<Rightarrow> bm25_cfg \<Rightarrow> 's corpus \<Rightarrow> 's retriever" where
  "bm25_search words cfg reader request t =
     (let terms = sort (remdups (words (rq_query request)))
      in if terms = [] then returnP (Some \<lparr>rs_strategy = ''bm25_v1'', rs_passages = []\<rparr>)
         else bindP (reader t) (\<lambda>documents.
           bindP (liftR (count_passages words t documents)) (\<lambda>passages.
           let average = average_length passages
           in if average = 0 then returnP (Some \<lparr>rs_strategy = ''bm25_v1'', rs_passages = []\<rparr>)
              else liftR (select_passages ''bm25_v1'' (bm_output cfg)
                (map snd (take (rq_top_k request) (sort_key rank_key (bm25_candidates cfg passages average terms))))))))"

section \<open>The contract of a strategy\<close>

text \<open>
  A strategy returns nothing without reading, or passages of the documents that one read of the
  tenant's corpus returned, all of that tenant.
\<close>

locale search_strategy =
  fixes search :: "'s corpus \<Rightarrow> 's retriever"
  assumes search_result: "search reader request t s = (Inr (Some result), s') \<Longrightarrow>
      s' = s \<and> rs_passages result = [] \<or>
      (\<exists>ds. reader t s = (Inr ds, s') \<and>
        (\<forall>p \<in> set (rs_passages result). \<exists>d \<in> set ds. \<exists>c \<in> set (cs_chunks (sv_chunking d)).
           sv_tenant_id d = t \<and> p = to_passage d c))"
begin

lemma facade_result:
  assumes "facade_search (search reader) request ctx s = (Inr result, s')"
  shows "{''document.search'', ''document.read''} \<subseteq> permissions ctx \<and>
    length (rs_passages result) \<le> rq_top_k request \<and>
    (s' = s \<and> rs_passages result = [] \<or>
      (\<exists>ds. reader (tenant_id ctx) s = (Inr ds, s') \<and>
        (\<forall>p \<in> set (rs_passages result). \<exists>d \<in> set ds. \<exists>c \<in> set (cs_chunks (sv_chunking d)).
           sv_tenant_id d = tenant_id ctx \<and> p = to_passage d c)))"
proof -
  have perm: "''document.search'' \<in> permissions ctx" "''document.read'' \<in> permissions ctx"
    and inner: "facade_search_inner (search reader) request (tenant_id ctx) s = (Inr result, s')"
    using assms by (auto simp: facade_search_def authorized_nested raiseP_def split: if_splits)
  have "length (rs_passages result) \<le> rq_top_k request"
    and "search reader request (tenant_id ctx) s = (Inr (Some result), s')"
    using inner by (auto simp: facade_search_inner_def thenP_def bindP_def requireP_def returnP_def raiseP_def
        split: if_splits prod.splits sum.splits option.splits)
  with perm show ?thesis using search_result by blast
qed

end

text \<open>What the selection keeps of the candidates.\<close>

lemma select_passages_InrD:
  assumes "select_passages strategy limit (map snd (take k (sort_key rank_key cands))) = Inr (Some result)"
    and "p \<in> set (rs_passages result)"
  obtains s d c where "(s, d, c) \<in> set cands" and "p = to_passage d c"
proof -
  have "rs_passages result = map (\<lambda>(d, c). to_passage d c) (map snd (take k (sort_key rank_key cands)))"
    using assms(1) by (auto simp: select_passages_def Let_def split: if_splits)
  with assms(2) obtain x where "x \<in> set (take k (sort_key rank_key cands))" and "p = (\<lambda>(d, c). to_passage d c) (snd x)"
    by auto
  then show ?thesis using that [of "fst x" "fst (snd x)" "snd (snd x)"]
    by (auto dest: in_set_takeD split: prod.splits)
qed

lemma overlap_candidates_InrD:
  assumes ok: "overlap_candidates words wanted t ds = Inr cs" and mem: "(s, d, c) \<in> set cs"
  shows "d \<in> set ds \<and> sv_tenant_id d = t \<and> c \<in> set (cs_chunks (sv_chunking d))"
proof -
  let ?g = "\<lambda>d c. let score = card (wanted \<inter> set (words (ch_text c))) in if score = 0 then [] else [(of_nat score, d, c)]"
  let ?f = "\<lambda>d. if sv_tenant_id d \<noteq> t then Inl Retrieval_result_error
        else Inr (concat (map (?g d) (cs_chunks (sv_chunking d))))"
  obtain groups where g: "mapR ?f ds = Inr groups" and cs: "cs = concat groups"
    using ok by (auto simp: overlap_candidates_def)
  obtain grp where grp: "grp \<in> set groups" and ing: "(s, d, c) \<in> set grp" using mem cs by auto
  obtain d' where d': "d' \<in> set ds" and fd: "?f d' = Inr grp" using mapR_Inr_memD [OF g grp] by blast
  have t: "sv_tenant_id d' = t" and grp_eq: "grp = concat (map (?g d') (cs_chunks (sv_chunking d')))"
    using fd by (simp_all split: if_splits)
  have "(s, d, c) \<in> \<Union> (set ` ?g d' ` set (cs_chunks (sv_chunking d')))"
    using ing unfolding grp_eq set_concat set_map by (simp only: image_image)
  then obtain x where "x \<in> set (cs_chunks (sv_chunking d'))" and "(s, d, c) \<in> set (?g d' x)" by blast
  with d' t show ?thesis by (simp add: Let_def split: if_splits)
qed

lemma bm25_candidates_InrD:
  assumes ok: "count_passages words t ds = Inr ps" and mem: "(s, d, c) \<in> set (bm25_candidates cfg ps avg terms)"
  shows "d \<in> set ds \<and> sv_tenant_id d = t \<and> c \<in> set (cs_chunks (sv_chunking d))"
proof -
  have "\<exists>ws. (d, c, ws) \<in> set ps"
    using mem by (auto simp: bm25_candidates_def Let_def split: if_splits)
  then obtain ws where ws: "(d, c, ws) \<in> set ps" by blast
  let ?f = "\<lambda>d. if sv_tenant_id d \<noteq> t then Inl Retrieval_result_error
        else Inr (map (\<lambda>c. (d, c, words (ch_text c))) (cs_chunks (sv_chunking d)))"
  obtain groups where g: "mapR ?f ds = Inr groups" and ps: "ps = concat groups"
    using ok by (auto simp: count_passages_def)
  obtain grp where grp: "grp \<in> set groups" and ing: "(d, c, ws) \<in> set grp" using ws ps by auto
  obtain d' where d': "d' \<in> set ds" and fd: "?f d' = Inr grp" using mapR_Inr_memD [OF g grp] by blast
  have "sv_tenant_id d' = t" and "grp = map (\<lambda>c. (d', c, words (ch_text c))) (cs_chunks (sv_chunking d'))"
    using fd by (simp_all split: if_splits)
  with ing d' show ?thesis by auto
qed

interpretation keyword: search_strategy "keyword_search words limit"
  for words and limit
proof
  fix reader :: "'a corpus" and request t and s s' :: 'a and result
  assume ok: "keyword_search words limit reader request t s = (Inr (Some result), s')"
  show "s' = s \<and> rs_passages result = [] \<or> (\<exists>ds. reader t s = (Inr ds, s') \<and>
        (\<forall>p \<in> set (rs_passages result). \<exists>d \<in> set ds. \<exists>c \<in> set (cs_chunks (sv_chunking d)).
           sv_tenant_id d = t \<and> p = to_passage d c))"
  proof (cases "words (rq_query request) = []")
    case True
    with ok show ?thesis by (auto simp: keyword_search_def returnP_def)
  next
    case False
    obtain ds s1 where rd: "reader t s = (Inr ds, s1)"
      using ok False by (cases "reader t s"; cases "fst (reader t s)") (auto simp: keyword_search_def bindP_def)
    obtain cands where c: "overlap_candidates words (set (words (rq_query request))) t ds = Inr cands"
      using ok False rd by (cases "overlap_candidates words (set (words (rq_query request))) t ds")
        (auto simp: keyword_search_def bindP_def liftR_def)
    have s': "s' = s1" and sel: "select_passages ''keyword_overlap_v1'' limit
        (map snd (take (rq_top_k request) (sort_key rank_key cands))) = Inr (Some result)"
      using ok False rd c by (auto simp: keyword_search_def bindP_def liftR_def)
    have "\<exists>d \<in> set ds. \<exists>c \<in> set (cs_chunks (sv_chunking d)). sv_tenant_id d = t \<and> p = to_passage d c"
      if "p \<in> set (rs_passages result)" for p
      by (rule select_passages_InrD [OF sel that]) (use overlap_candidates_InrD [OF c] in blast)
    with rd s' show ?thesis by blast
  qed
qed

interpretation bm25: search_strategy "bm25_search words cfg"
  for words and cfg
proof
  fix reader :: "'a corpus" and request t and s s' :: 'a and result
  assume ok: "bm25_search words cfg reader request t s = (Inr (Some result), s')"
  let ?terms = "sort (remdups (words (rq_query request)))"
  show "s' = s \<and> rs_passages result = [] \<or> (\<exists>ds. reader t s = (Inr ds, s') \<and>
        (\<forall>p \<in> set (rs_passages result). \<exists>d \<in> set ds. \<exists>c \<in> set (cs_chunks (sv_chunking d)).
           sv_tenant_id d = t \<and> p = to_passage d c))"
  proof (cases "?terms = []")
    case True
    with ok show ?thesis by (auto simp: bm25_search_def returnP_def)
  next
    case False
    obtain ds s1 where rd: "reader t s = (Inr ds, s1)"
      using ok False by (cases "reader t s"; cases "fst (reader t s)") (auto simp: bm25_search_def bindP_def)
    obtain ps where c: "count_passages words t ds = Inr ps"
      using ok False rd by (cases "count_passages words t ds") (auto simp: bm25_search_def bindP_def liftR_def)
    define avg where "avg = average_length ps"
    have rest: "(if avg = 0 then returnP (Some \<lparr>rs_strategy = ''bm25_v1'', rs_passages = []\<rparr>)
        else liftR (select_passages ''bm25_v1'' (bm_output cfg)
          (map snd (take (rq_top_k request) (sort_key rank_key (bm25_candidates cfg ps avg ?terms)))))) s1
        = (Inr (Some result), s')"
      using ok False rd c by (simp add: bm25_search_def bindP_def liftR_def Let_def avg_def split: if_splits)
    have "\<exists>d \<in> set ds. \<exists>c \<in> set (cs_chunks (sv_chunking d)). sv_tenant_id d = t \<and> p = to_passage d c"
      if p: "p \<in> set (rs_passages result)" for p
    proof (cases "avg = 0")
      case True
      with rest p show ?thesis by (auto simp: returnP_def)
    next
      case False
      with rest have sel: "select_passages ''bm25_v1'' (bm_output cfg)
          (map snd (take (rq_top_k request) (sort_key rank_key (bm25_candidates cfg ps avg ?terms)))) = Inr (Some result)"
        by (simp add: liftR_def)
      show ?thesis by (rule select_passages_InrD [OF sel p]) (use bm25_candidates_InrD [OF c] in blast)
    qed
    moreover have "s' = s1" using rest by (auto simp: returnP_def liftR_def split: if_splits)
    ultimately show ?thesis using rd by blast
  qed
qed

section \<open>Search over the document store\<close>

lemma current_row_last:
  assumes row: "row \<in> set (current_rows db t)" and dr: "decode_version row = Inr r" and inv: "versions_inv db"
  shows "sv_tenant_id r = t \<and> valid_stored r \<and>
      versions_of db t (sv_document_id r) \<noteq> [] \<and> r = last (versions_of db t (sv_document_id r))"
proof -
  have snap: "vr_snapshot row = Some r" and tn: "sv_tenant_id r = vr_tenant row"
    and dn: "sv_document_id r = vr_document_id row" and v: "valid_stored r"
    using dr by (auto simp: decode_version_def split: option.splits if_splits)
  have t: "vr_tenant row = t" and in_db: "row \<in> set (db_versions db)"
    and newest: "\<And>n. n \<in> set (db_versions db) \<Longrightarrow> vr_tenant n = vr_tenant row \<Longrightarrow>
        vr_document_id n = vr_document_id row \<Longrightarrow> vr_version n \<le> vr_version row"
    using row by (auto simp: current_rows_def list_ex_iff not_less)
  define ys where "ys = filter (of_document t (vr_document_id row)) (db_versions db)"
  have num: "map vr_version ys = [1..<Suc (length ys)]"
    using inv unfolding versions_inv_def ys_def by blast
  have "row \<in> set ys" using in_db t by (simp add: of_document_def ys_def)
  then obtain i where i: "i < length ys" and yi: "ys ! i = row" unfolding in_set_conv_nth by blast
  have nth: "vr_version (ys ! k) = k + 1" if "k < length ys" for k
    using arg_cong [OF num, of "\<lambda>l. l ! k"] that by (simp del: upt_Suc)
  have "ys ! (length ys - 1) \<in> set ys" using i by (intro nth_mem) simp
  then have "vr_version (ys ! (length ys - 1)) \<le> vr_version row"
    using newest t by (auto simp: of_document_def ys_def)
  then have "i = length ys - 1" using nth [OF i] nth [of "length ys - 1"] i yi by simp
  moreover from i have ne: "ys \<noteq> []" by auto
  ultimately have last: "last ys = row" using yi by (simp add: last_conv_nth)
  have eq: "versions_of db t (vr_document_id row) = map (\<lambda>r. the (vr_snapshot r)) ys" by (simp add: versions_of_def ys_def)
  show ?thesis using snap tn dn t v last ne by (simp add: eq last_map)
qed

lemma read_latest_documents_InrD:
  assumes inv: "versions_inv db" and ok: "read_latest_documents jb t md mb db = Inr (rs, db')"
  shows "db' = db \<and> (\<forall>r \<in> set rs. sv_tenant_id r = t \<and> valid_stored r \<and>
      versions_of db t (sv_document_id r) \<noteq> [] \<and> r = last (versions_of db t (sv_document_id r)))"
proof -
  have dec: "mapR decode_version (sort_key vr_document_id (current_rows db t)) = Inr rs" and db': "db' = db"
    using ok by (auto simp: read_latest_documents_def Let_def split: if_splits)
  have "sv_tenant_id r = t \<and> valid_stored r \<and>
      versions_of db t (sv_document_id r) \<noteq> [] \<and> r = last (versions_of db t (sv_document_id r))"
    if r: "r \<in> set rs" for r
  proof -
    obtain row where row: "row \<in> set (current_rows db t)" and dr: "decode_version row = Inr r"
      using mapR_Inr_memD [OF dec r] by auto
    show ?thesis using row dr inv by (rule current_row_last)
  qed
  with db' show ?thesis by blast
qed

text \<open>
  C16. Retrieved evidence. A search by the deployed strategy over the document store returns passages
  only to a caller with both grants, at most \<open>top_k\<close> of them, and each is a chunk of the latest version
  of a document of the caller's own tenant, with its text the exact source span it names.
\<close>

theorem search_returns_tenant_evidence:
  assumes inv: "versions_inv db"
    and ok: "facade_search (bm25_search words cfg (\<lambda>t. runTx (read_latest_documents jb t md mb))) request ctx db
       = (Inr result, db')"
  shows "{''document.search'', ''document.read''} \<subseteq> permissions ctx \<and> db' = db \<and>
    length (rs_passages result) \<le> rq_top_k request \<and>
    (\<forall>p \<in> set (rs_passages result).
       \<exists>d. versions_of db (tenant_id ctx) (pa_document_id p) \<noteq> [] \<and>
         d = last (versions_of db (tenant_id ctx) (pa_document_id p)) \<and> sv_version d = pa_version p \<and>
         pa_chunk p \<in> set (cs_chunks (sv_chunking d)) \<and>
         ch_text (pa_chunk p) = py_slice (di_text (sv_document d)) (ch_start (pa_chunk p)) (ch_end (pa_chunk p)))"
proof -
  note r = bm25.facade_result [OF ok]
  then consider "db' = db" "rs_passages result = []"
    | ds where "runTx (read_latest_documents jb (tenant_id ctx) md mb) db = (Inr ds, db')"
        and "\<forall>p \<in> set (rs_passages result). \<exists>d \<in> set ds. \<exists>c \<in> set (cs_chunks (sv_chunking d)).
           sv_tenant_id d = tenant_id ctx \<and> p = to_passage d c"
    by blast
  then show ?thesis
  proof cases
    case 1
    with r show ?thesis by auto
  next
    case 2
    from 2(1) have rd: "read_latest_documents jb (tenant_id ctx) md mb db = Inr (ds, db')"
      by (auto simp: runTx_def split: sum.splits)
    note docs = read_latest_documents_InrD [OF inv rd]
    have "\<exists>d. versions_of db (tenant_id ctx) (pa_document_id p) \<noteq> [] \<and>
         d = last (versions_of db (tenant_id ctx) (pa_document_id p)) \<and> sv_version d = pa_version p \<and>
         pa_chunk p \<in> set (cs_chunks (sv_chunking d)) \<and>
         ch_text (pa_chunk p) = py_slice (di_text (sv_document d)) (ch_start (pa_chunk p)) (ch_end (pa_chunk p))"
      if p: "p \<in> set (rs_passages result)" for p
    proof -
      obtain d c where d: "d \<in> set ds" and c: "c \<in> set (cs_chunks (sv_chunking d))" and pe: "p = to_passage d c"
        using 2(2) p by blast
      have "check_spans (di_text (sv_document d)) 0 0 (cs_chunks (sv_chunking d))
          = Some (length (di_text (sv_document d)))"
        using docs d by (auto simp: valid_stored_def saved_chunks_ok_def)
      then have "ch_text c = py_slice (di_text (sv_document d)) (ch_start c) (ch_end c)"
        using c by (rule check_spans_text)
      with docs d c show ?thesis by (auto simp: pe to_passage_def)
    qed
    with r docs show ?thesis by auto
  qed
qed

end
