(* ===== verification/Run_Examples.thy ===== *)
theory Run_Examples
  imports Examples Retrieval
begin

text \<open>
  Concrete runs of the agent side: values on which the properties of the decision checks, the run
  table and the retrieval tools are applied.
\<close>

section \<open>A reviewed answer\<close>

definition demo_ref :: source_reference where
  "demo_ref = \<lparr>sr_document_id = ''d1'', sr_version = 1, sr_chunk = 0\<rparr>"

definition demo_passage :: passage where
  "demo_passage = \<lparr>pa_document_id = ''d1'', pa_version = 1, pa_title = [116], pa_source_ref = None,
     pa_chunk = \<lparr>ch_index = 0, ch_text = [104, 105], ch_start = 0, ch_end = 2\<rparr>\<rparr>"

definition demo_request :: review_request where
  "demo_request = \<lparr>rr_question = [63], rr_answer = Answered [104, 105] [demo_ref], rr_passages = [demo_passage]\<rparr>"

definition demo_review :: document_review where
  "demo_review = \<lparr>rv_verdict = Supported, rv_reason = [114], rv_answerability = Answerable,
     rv_covers_all_claims = True, rv_addresses_question = True, rv_evidence_conflict = False,
     rv_claims = [\<lparr>cl_claim = [104, 105], cl_verdict = Claim_supported,
       cl_excerpts = [\<lparr>ex_source = demo_ref, ex_quote = [104, 105]\<rparr>]\<rparr>]\<rparr>"

lemma occurs_hi: "occurs_at [104, 105] [104, 105] 0"
  by (simp add: occurs_at_def)

lemma document_review_accepted_iff_witness:
  "validate_document_review (\<lambda>_. True) demo_request demo_review = Inr ()"
  unfolding document_review_accepted_iff
  using occurs_hi
  by (auto simp: demo_request_def demo_review_def demo_ref_def passage_of_def source_key_def demo_passage_def)

lemma demo_review_valid: "valid_review demo_review"
  by (simp add: demo_review_def valid_review_def review_text_def valid_claim_review_def)

definition demo_review_digest :: "review_request \<Rightarrow> string" where
  "demo_review_digest r = map (\<lambda>_. CHR ''x'') (rr_question r)"

definition demo_evidence :: review_receipt where
  "demo_evidence = \<lparr>rc_policy_version = Some validation_policy_version, rc_digest = Some ''x'', rc_review = Some demo_review\<rparr>"

lemma demo_review_ok: "validate_document_review (\<lambda>_. True) demo_request demo_review = Inr ()"
  by (simp add: validate_document_review_def demo_request_def demo_review_def find_sub_def occurs_at_def
      cover_occurrences_eq excerpt_ok_def passage_of_def source_key_def demo_passage_def demo_ref_def
      contains_sub_def upt_rec less_Suc_eq)
   (auto simp: list_ex_iff less_Suc_eq)

lemma demo_receipt_made:
  "make_review_receipt (\<lambda>_. True) demo_review_digest demo_request demo_review = Inr demo_evidence"
  by (simp add: make_review_receipt_def demo_review_ok demo_evidence_def)
    (simp add: demo_review_digest_def demo_request_def)


section \<open>A run, its attempt and its result\<close>

definition demo_run_cfg :: run_cfg where
  "demo_run_cfg = \<lparr>lease_seconds = 30, max_attempts = 3\<rparr>"

definition demo_run_job :: run_job where
  "demo_run_job = \<lparr>jb_run_id = ''r1'', jb_tenant = ''acme'', jb_message = [63], jb_max_decisions = 3, jb_mode = General\<rparr>"

definition demo_queued_run :: run_row where
  "demo_queued_run = new_run demo_run_job 0 60 None"

definition demo_running_run :: run_row where
  "demo_running_run = start_run demo_run_cfg ''t1'' 0 demo_queued_run"

definition demo_done_run :: run_row where
  "demo_done_run = (close_run Succeeded 0 demo_running_run)\<lparr>ru_result := Some (Final_answer [104] []), ru_error := None\<rparr>"

definition demo_attempt :: attempt_row where
  "demo_attempt = new_attempt ''t1'' demo_queued_run 0"

definition demo_runs :: "nat \<Rightarrow> run_db" where
  "demo_runs k = [\<lparr>db_runs = [demo_queued_run], db_attempts = []\<rparr>,
     \<lparr>db_runs = [demo_running_run], db_attempts = [demo_attempt]\<rparr>,
     \<lparr>db_runs = [demo_done_run], db_attempts = [end_attempt_error (Attempt Succeeded) 0 None demo_attempt]\<rparr>] ! k"

lemmas demo_run_defs = demo_run_cfg_def demo_run_job_def demo_queued_run_def demo_running_run_def demo_done_run_def
  demo_attempt_def demo_runs_def new_run_def start_run_def close_run_def new_attempt_def

lemma demo_run_created:
  "create_run id demo_run_job (PyInt 60) None (\<lambda>_. 0) empty_run_db = Inr (demo_queued_run, demo_runs 0)"
  by (simp add: create_run_def is_finite_num_def empty_run_db_def demo_run_defs find_run_def)

lemma demo_run_claimed:
  "claim_run demo_run_cfg demo_run_job ''t1'' (\<lambda>_. 0) (demo_runs 0) = Inr (demo_running_run, demo_runs 1)"
  by (simp add: claim_run_def demo_run_defs find_run_def terminal_def unsafe_pending_def empty_checkpoint_def
      update_attempt_def update_run_def update_where_def Let_def)

lemma demo_run_finished:
  "finish_run ''r1'' ''acme'' ''t1'' Succeeded (Some (Final_answer [104] [])) None (\<lambda>_. 0) (demo_runs 1)
     = Inr ((), demo_runs 2)"
  by (simp add: finish_run_def owned_run_def demo_run_defs find_run_def until_passed_def
      update_attempt_def update_run_def update_where_def end_attempt_error_def Let_def)

lemma demo_run_rows:
  "run_of (demo_runs 0) ''r1'' = Some demo_queued_run" "run_of (demo_runs 1) ''r1'' = Some demo_running_run"
  "run_of (demo_runs 2) ''r1'' = Some demo_done_run"
  by (simp_all add: run_of_def demo_run_defs)

definition demo_run_events :: "run_event list" where
  "demo_run_events = [Ev_silent, Ev_claim ''r1'' ''t1'', Ev_finish ''r1'' ''t1'' Succeeded]"

lemma demo_run_trace: "run_trace demo_run_cfg id empty_run_db demo_run_events (demo_runs 2)"
proof -
  note s1 = run_snoc [OF run_start run_create [OF demo_run_created], of demo_run_cfg]
  have "ru_state demo_running_run \<noteq> Succeeded" by (simp add: demo_run_defs)
  note s2 = run_snoc [OF s1 run_claim [OF demo_run_claimed this]]
  note s3 = run_snoc [OF s2 run_finish [OF demo_run_finished demo_run_rows(3)]]
  from s3 show ?thesis by (simp add: demo_run_events_def demo_run_defs)
qed

lemma demo_runs_inv: "run_inv demo_run_cfg (demo_runs 2)"
  by (simp add: run_inv_def run_ok_def demo_run_defs empty_checkpoint_def)


lemma run_attempts_fenced_witness:
  "length (run_finishes ''r1'' demo_run_events) \<le> 1 \<and> length (run_claims ''r1'' demo_run_events) \<le> 3"
  using run_attempts_fenced [OF demo_run_trace, of "''r1''"]
  by (simp add: demo_run_events_def run_claims_def run_finishes_def demo_run_cfg_def)

lemma demo_run_published:
  "run_trace demo_run_cfg id (demo_runs 2) [Ev_silent] (update_run ''r1'' (\<lambda>r. r\<lparr>ru_published := True, ru_updated := 5\<rparr>) (demo_runs 2))"
proof -
  have "mark_published ''r1'' ''acme'' (\<lambda>_. 5) (demo_runs 2)
      = Inr ((), update_run ''r1'' (\<lambda>r. r\<lparr>ru_published := True, ru_updated := 5\<rparr>) (demo_runs 2))"
    by (simp add: mark_published_def find_run_def demo_run_defs)
  from run_snoc [OF run_start run_publish [OF this]] show ?thesis by simp
qed

lemma terminal_runs_are_final_witness:
  "\<exists>r'. run_of (update_run ''r1'' (\<lambda>r. r\<lparr>ru_published := True, ru_updated := 5\<rparr>) (demo_runs 2)) ''r1'' = Some r' \<and>
     frozen_run demo_done_run r'"
  using terminal_runs_are_final [OF demo_runs_inv demo_run_rows(3) _ demo_run_published]
  by (auto simp: demo_run_defs terminal_def)

definition demo_cancelled_run :: run_row where
  "demo_cancelled_run = demo_running_run\<lparr>ru_cancel := True\<rparr>"

definition demo_cancelling :: run_db where
  "demo_cancelling = \<lparr>db_runs = [demo_cancelled_run], db_attempts = [demo_attempt]\<rparr>"

definition demo_cancel_done :: run_db where
  "demo_cancel_done = \<lparr>db_runs = [(close_run Cancelled 0 demo_cancelled_run)\<lparr>ru_result := None, ru_error := Some ''cancelled''\<rparr>],
     db_attempts = [end_attempt_error (Attempt Cancelled) 0 (Some ''cancelled'') demo_attempt]\<rparr>"

lemma cancellation_and_deadline_stick_witness:
  "\<exists>r'. run_of demo_cancel_done ''r1'' = Some r' \<and> ru_deadline r' = Some 60 \<and> ru_cancel r'"
proof -
  have row: "run_of demo_cancelling ''r1'' = Some demo_cancelled_run"
    by (simp add: run_of_def demo_cancelling_def demo_cancelled_run_def demo_run_defs)
  have inv: "run_inv demo_run_cfg demo_cancelling"
    by (simp add: run_inv_def run_ok_def demo_cancelling_def demo_cancelled_run_def demo_run_defs)
  have fin: "finish_run ''r1'' ''acme'' ''t1'' Succeeded (Some (Final_answer [104] [])) None (\<lambda>_. 0) demo_cancelling
      = Inr ((), demo_cancel_done)"
    by (simp add: finish_run_def owned_run_def demo_cancelling_def demo_cancelled_run_def demo_cancel_done_def
        demo_run_defs find_run_def until_passed_def update_attempt_def update_run_def update_where_def
        end_attempt_error_def Let_def)
  have row': "\<exists>r. run_of demo_cancel_done ''r1'' = Some r"
    by (simp add: run_of_def demo_cancel_done_def demo_cancelled_run_def demo_run_defs)
  then obtain r where r: "run_of demo_cancel_done ''r1'' = Some r" by blast
  have "run_trace demo_run_cfg id demo_cancelling [Ev_finish ''r1'' ''t1'' (ru_state r)] demo_cancel_done"
    using run_snoc [OF run_start run_finish [OF fin r]] by simp
  from cancellation_and_deadline_stick [OF inv row this] show ?thesis
    by (auto simp: demo_cancelled_run_def demo_run_defs)
qed

section \<open>A search\<close>

definition demo_words :: "ustr \<Rightarrow> ustr list" where
  "demo_words t = [t]"

definition demo_searcher :: tool_context where
  "demo_searcher = \<lparr>tenant_id = ''acme'', permissions = {''document.search'', ''document.read''}\<rparr>"

abbreviation demo_corpus :: "string \<Rightarrow> (doc_db, exn, stored_version list) proc" where
  "demo_corpus \<equiv> \<lambda>t. runTx (read_latest_documents (\<lambda>_. 10) t (PyInt 100) (PyInt 100000))"

text \<open>\<open>k1 = 1.2\<close>, \<open>b = 0.75\<close>, and a stand-in for \<open>log1p\<close>.\<close>

definition demo_bm25 :: bm25_cfg where
  "demo_bm25 = \<lparr>bm_k1 = 6/5, bm_b = 3/4, bm_output = 8000, bm_log1p = id\<rparr>"

lemma demo_latest:
  "read_latest_documents (\<lambda>_. 10) ''acme'' (PyInt 100) (PyInt 100000) demo_done = Inr ([demo_stored], demo_done)"
  using valid_demo_stored
  by (simp add: read_latest_documents_def demo_done_def positive_int_def type_is_int_def current_rows_def
      decode_version_def Let_def pattern_defs) (simp add: demo_stored_def)

abbreviation demo_chunk :: text_chunk where
  "demo_chunk \<equiv> \<lparr>ch_index = 0, ch_text = [104, 105], ch_start = 0, ch_end = 2\<rparr>"

lemma demo_counted: "count_passages demo_words ''acme'' [demo_stored] = Inr [(demo_stored, demo_chunk, [[104, 105]])]"
  by (simp add: count_passages_def demo_stored_def demo_words_def)

lemma demo_candidates:
  "bm25_candidates demo_bm25 [(demo_stored, demo_chunk, [[104, 105]])] 1 [[104, 105]]
     = [(1/3, demo_stored, demo_chunk)]"
  by (simp add: bm25_candidates_def bm25_score_def demo_bm25_def term_frequency_def)

lemma demo_result_valid: "valid_retrieval_result \<lparr>rs_strategy = ''bm25_v1'', rs_passages = [demo_passage]\<rparr>"
  by (simp add: valid_retrieval_result_def strategy_pattern_def pattern_defs valid_passage_def demo_passage_def
      valid_title_def valid_source_ref_def valid_chunk_def py_strip_Nil_iff is_space_def)

lemma demo_search:
  "facade_search (bm25_search demo_words demo_bm25 demo_corpus) \<lparr>rq_query = [104, 105], rq_top_k = 5\<rparr> demo_searcher demo_done
   = (Inr \<lparr>rs_strategy = ''bm25_v1'', rs_passages = [demo_passage]\<rparr>, demo_done)"
proof -
  have p: "to_passage demo_stored demo_chunk = demo_passage"
    by (simp add: to_passage_def demo_stored_def demo_passage_def)
  have "select_passages ''bm25_v1'' 8000 [(demo_stored, demo_chunk)]
      = Inr (Some \<lparr>rs_strategy = ''bm25_v1'', rs_passages = [demo_passage]\<rparr>)"
    using p demo_result_valid by (simp add: select_passages_def)
  then have "bm25_search demo_words demo_bm25 demo_corpus \<lparr>rq_query = [104, 105], rq_top_k = 5\<rparr> ''acme'' demo_done
     = (Inr (Some \<lparr>rs_strategy = ''bm25_v1'', rs_passages = [demo_passage]\<rparr>), demo_done)"
    using demo_candidates demo_counted
    by (simp add: bm25_search_def bindP_def runTx_def demo_latest liftR_def demo_words_def average_length_def)
      (simp add: demo_bm25_def)
  then show ?thesis using demo_result_valid
    by (simp add: facade_search_def authorized_nested demo_searcher_def facade_search_inner_def thenP_def bindP_def
        requireP_def valid_retrieval_request_def returnP_def)
qed

lemma search_returns_tenant_evidence_witness:
  "ch_text (pa_chunk demo_passage) = py_slice (di_text (sv_document demo_stored)) 0 2"
proof -
  have "versions_inv demo_done" using demo_invariants(3) by (simp add: doc_inv_def)
  from search_returns_tenant_evidence [OF this demo_search] show ?thesis
    by (simp add: demo_searcher_def demo_passage_def versions_of_def demo_done_def of_document_def)
qed

end
