(* ===== verification/Execution_Control.thy ===== *)
theory Execution_Control
  imports Run_Store
begin

text \<open>
  The run-local control of an attempt (\<open>services/execution_control.py\<close>) and the world an attempt
  runs in: the run database, which other processes and the attempt's own heartbeat thread may change
  between two store calls, the clocks, and the log records the loop emits. Decimal amounts are exact
  rationals (the 28-digit rounding of the default decimal context is not modelled).
\<close>

section \<open>The world of an attempt\<close>

text \<open>The attempt's store binding: \<open>store\<close> and the identity and lease token of \<open>record\<close>.\<close>

record store_binding =
  sb_cfg :: run_cfg
  sb_run :: string
  sb_tenant :: string
  sb_token :: string

record control =
  ct_store :: "store_binding option"
  ct_state :: checkpoint
  ct_max_tokens :: int
  ct_max_cost :: "rat option"
  ct_input_rate :: "rat option"
  ct_output_rate :: "rat option"
  ct_max_recoveries :: nat
  ct_tool_deadline :: "allowance option"

datatype log_event =
    Run_started | Tool_replay_started nat
  | Model_call_started nat | Model_call_completed nat | Recovery_requested nat
  | Tool_call_started nat "ustr option" | Tool_call_completed nat "ustr option"
  | Review_started nat | Review_completed nat | Review_failed nat
  | Run_completed nat | Run_failed string

text \<open>
  \<open>w_env k\<close> is what others did to the database before the \<open>k\<close>-th store call, \<open>w_clock k\<close> the
  readings of \<open>time.time()\<close> in it, \<open>w_heartbeat k\<close> the error the heartbeat thread has left behind by
  then, \<open>w_ticks k\<close> the \<open>k\<close>-th reading of the monotonic clocks.
\<close>

record world =
  w_db :: run_db
  w_calls :: nat
  w_env :: "nat \<Rightarrow> run_db \<Rightarrow> run_db"
  w_clock :: "nat \<Rightarrow> nat \<Rightarrow> rat"
  w_heartbeat :: "nat \<Rightarrow> exn option"
  w_ticks :: "nat \<Rightarrow> rat"
  w_reads :: nat
  w_control :: control
  w_log :: "log_event list"

abbreviation state_of :: "world \<Rightarrow> checkpoint" where
  "state_of w \<equiv> ct_state (w_control w)"

definition store_call :: "((nat \<Rightarrow> rat) \<Rightarrow> (run_db, exn, 'a) tx) \<Rightarrow> (world, exn, 'a) proc" where
  "store_call f w =
     (let k = w_calls w; db = w_env w k (w_db w)
      in case f (w_clock w k) db of
           Inl e \<Rightarrow> (Inl e, w\<lparr>w_db := db, w_calls := k + 1\<rparr>)
         | Inr (x, db') \<Rightarrow> (Inr x, w\<lparr>w_db := db', w_calls := k + 1\<rparr>))"

definition tick :: "(world, exn, rat) proc" where
  "tick w = (Inr (w_ticks w (w_reads w)), w\<lparr>w_reads := w_reads w + 1\<rparr>)"

text \<open>
  A read of something outside (Redis, the model's endpoint, the document database): the \<open>n\<close>-th reading
  of the world decides what it returns or raises.
\<close>

definition external :: "(nat \<Rightarrow> exn + 'a) \<Rightarrow> (world, exn, 'a) proc" where
  "external f w = (f (w_reads w), w\<lparr>w_reads := w_reads w + 1\<rparr>)"

lemma wp_external [wp_rules]:
  "wp (external f) Q E w = (case f (w_reads w) of Inl e \<Rightarrow> E e (w\<lparr>w_reads := w_reads w + 1\<rparr>)
     | Inr x \<Rightarrow> Q x (w\<lparr>w_reads := w_reads w + 1\<rparr>))"
  by (simp add: wp_def external_def split: sum.split)

definition emit :: "log_event \<Rightarrow> (world, exn, unit) proc" where
  "emit e = modifyP (\<lambda>w. w\<lparr>w_log := w_log w @ [e]\<rparr>)"

definition set_control :: "(control \<Rightarrow> control) \<Rightarrow> world \<Rightarrow> world" where
  "set_control f w = w\<lparr>w_control := f (w_control w)\<rparr>"

definition set_state :: "(checkpoint \<Rightarrow> checkpoint) \<Rightarrow> world \<Rightarrow> world" where
  "set_state f = set_control (\<lambda>c. c\<lparr>ct_state := f (ct_state c)\<rparr>)"

section \<open>Construction\<close>

text \<open>\<open>Decimal(str(v))\<close>: not a number raises \<open>InvalidOperation\<close>; NaN and infinities convert.\<close>

definition to_decimal :: "pynum \<Rightarrow> exn + pynum" where
  "to_decimal v = (case v of PyBool _ \<Rightarrow> Inl (Other_error ''InvalidOperation'')
     | PyOther \<Rightarrow> Inl (Other_error ''InvalidOperation'') | _ \<Rightarrow> Inr v)"

definition decimal_option :: "pynum option \<Rightarrow> exn + pynum option" where
  "decimal_option v = (case v of None \<Rightarrow> Inr None | Some x \<Rightarrow> bindR (to_decimal x) (\<lambda>d. Inr (Some d)))"

definition bad_amount :: "pynum option \<Rightarrow> bool" where
  "bad_amount v = (case v of None \<Rightarrow> False | Some x \<Rightarrow> \<not> is_finite_num x \<or> num_value x < 0)"

text \<open>\<open>ExecutionControl.__init__\<close>; the state starts from the record's checkpoint.\<close>

definition make_control ::
  "(store_binding \<times> checkpoint) option \<Rightarrow> pynum \<Rightarrow> pynum option \<Rightarrow> pynum option \<Rightarrow> pynum option \<Rightarrow> pynum \<Rightarrow>
   exn + control" where
  "make_control record max_tokens max_cost input_rate output_rate max_recoveries =
     bindR (decimal_option max_cost) (\<lambda>cost.
     bindR (decimal_option input_rate) (\<lambda>input.
     bindR (decimal_option output_rate) (\<lambda>output.
     if cost \<noteq> None \<and> (input = None \<or> output = None) then Inl Value_error
     else if \<not> type_is_int max_tokens \<or> num_value max_tokens < 1
        \<or> \<not> type_is_int max_recoveries \<or> num_value max_recoveries < 0 then Inl Value_error
     else if bad_amount cost \<or> bad_amount input \<or> bad_amount output then Inl Value_error
     else if (input = None) \<noteq> (output = None) then Inl Value_error
     else Inr \<lparr>ct_store = map_option fst record,
               ct_state = (case record of None \<Rightarrow> empty_checkpoint | Some (_, cp) \<Rightarrow> cp),
               ct_max_tokens = \<lfloor>num_value max_tokens\<rfloor>,
               ct_max_cost = map_option num_value cost, ct_input_rate = map_option num_value input,
               ct_output_rate = map_option num_value output,
               ct_max_recoveries = nat \<lfloor>num_value max_recoveries\<rfloor>, ct_tool_deadline = None\<rparr>)))"

section \<open>Operations\<close>

text \<open>\<open>guard\<close>\<close>

definition guard :: "(world, exn, allowance) proc" where
  "guard =
     bindP (getP (\<lambda>w. w_heartbeat w (w_calls w))) (\<lambda>failed.
     case failed of
       Some e \<Rightarrow> raiseP e
     | None \<Rightarrow>
         bindP (getP (\<lambda>w. ct_store (w_control w))) (\<lambda>store.
         case store of
           None \<Rightarrow> returnP Unbounded
         | Some b \<Rightarrow>
             bindP (store_call (guard_run (sb_cfg b) (sb_run b) (sb_tenant b) (sb_token b))) (\<lambda>remaining.
             if remaining \<le> 0 then raiseP Agent_deadline_exceeded else returnP (Secs remaining))))"

text \<open>\<open>persist\<close>: the run-local state changes first, then the store is written.\<close>

definition persist :: "(checkpoint \<Rightarrow> checkpoint) \<Rightarrow> (world, exn, unit) proc" where
  "persist f =
     thenP (modifyP (set_state f))
     (bindP (getP (\<lambda>w. ct_store (w_control w))) (\<lambda>store.
      case store of
        None \<Rightarrow> returnP ()
      | Some b \<Rightarrow>
          bindP (getP state_of) (\<lambda>cp.
          store_call (checkpoint_run (sb_cfg b) (sb_run b) (sb_tenant b) (sb_token b) cp))))"

text \<open>The cost of some tokens at the configured rates, zero where no rates are configured.\<close>

definition token_cost :: "control \<Rightarrow> int \<Rightarrow> int \<Rightarrow> rat" where
  "token_cost c input output =
     (case (ct_input_rate c, ct_output_rate c) of
        (Some i, Some q) \<Rightarrow> (of_int input * i + of_int output * q) / 1000000
      | _ \<Rightarrow> 0)"

definition over_budget :: "control \<Rightarrow> nat \<Rightarrow> rat \<Rightarrow> bool" where
  "over_budget c used cost \<longleftrightarrow> int used > ct_max_tokens c \<or>
     (case ct_max_cost c of None \<Rightarrow> False | Some m \<Rightarrow> cost > m)"

text \<open>\<open>reserve\<close>\<close>

definition reserve :: "int \<Rightarrow> int \<Rightarrow> (world, exn, unit) proc" where
  "reserve input output =
     (if input < 0 \<or> output < 0 then raiseP Value_error
      else bindP guard (\<lambda>_.
        bindP (getP w_control) (\<lambda>c.
        let used = cp_reserved_tokens (ct_state c) + nat input + nat output;
            cost = cp_reserved_cost (ct_state c) + token_cost c input output
        in if over_budget c used cost then raiseP Resource_budget_exceeded
           else persist (\<lambda>cp. cp\<lparr>cp_reserved_tokens := used, cp_reserved_cost := cost,
                  cp_pricing_configured := (ct_input_rate c \<noteq> None \<and> ct_output_rate c \<noteq> None)\<rparr>))))"

text \<open>\<open>reconcile\<close>: usage the provider reports beyond the reservation is added; the record is written first.\<close>

definition reconcile :: "pynum \<Rightarrow> pynum \<Rightarrow> int \<Rightarrow> int \<Rightarrow> (world, exn, unit) proc" where
  "reconcile input output reserved_input reserved_output =
     (if \<not> type_is_int input \<or> num_value input < 0 \<or> \<not> type_is_int output \<or> num_value output < 0
      then returnP ()
      else bindP (getP w_control) (\<lambda>c.
        let i = \<lfloor>num_value input\<rfloor>; q = \<lfloor>num_value output\<rfloor>;
            extra_input = max 0 (i - reserved_input); extra_output = max 0 (q - reserved_output);
            used = cp_reserved_tokens (ct_state c) + nat extra_input + nat extra_output;
            cost = cp_reserved_cost (ct_state c) + token_cost c extra_input extra_output
        in thenP (persist (\<lambda>cp. cp\<lparr>cp_reserved_tokens := used, cp_reserved_cost := cost,
                    cp_reported_input := cp_reported_input cp + nat i,
                    cp_reported_output := cp_reported_output cp + nat q\<rparr>))
             (if over_budget c used cost then raiseP Resource_budget_exceeded else returnP ())))"

text \<open>\<open>recover\<close>\<close>

definition recover :: "(world, exn, bool) proc" where
  "recover =
     bindP (getP w_control) (\<lambda>c.
     let used = cp_recoveries (ct_state c)
     in if used \<ge> ct_max_recoveries c then returnP False
        else thenP (persist (\<lambda>cp. cp\<lparr>cp_recoveries := used + 1\<rparr>)) (returnP True))"

text \<open>\<open>with control.tool_budget(remaining): body\<close>\<close>

definition add_allowance :: "rat \<Rightarrow> allowance \<Rightarrow> allowance" where
  "add_allowance t a = (case a of Secs s \<Rightarrow> Secs (t + s) | Unbounded \<Rightarrow> Unbounded)"

definition sub_allowance :: "allowance \<Rightarrow> rat \<Rightarrow> allowance" where
  "sub_allowance a t = (case a of Secs s \<Rightarrow> Secs (s - t) | Unbounded \<Rightarrow> Unbounded)"

definition set_tool_deadline :: "allowance option \<Rightarrow> world \<Rightarrow> world" where
  "set_tool_deadline d = set_control (\<lambda>c. c\<lparr>ct_tool_deadline := d\<rparr>)"

definition with_tool_budget :: "allowance \<Rightarrow> (world, exn, 'a) proc \<Rightarrow> (world, exn, 'a) proc" where
  "with_tool_budget remaining body =
     bindP (getP (\<lambda>w. ct_tool_deadline (w_control w))) (\<lambda>previous.
     bindP tick (\<lambda>now.
     thenP (modifyP (set_tool_deadline (Some (add_allowance now remaining))))
       (finallyP body (set_tool_deadline previous))))"

text \<open>\<open>tool_remaining\<close>\<close>

definition tool_remaining :: "(world, exn, allowance) proc" where
  "tool_remaining =
     bindP guard (\<lambda>remaining.
     bindP (getP (\<lambda>w. ct_tool_deadline (w_control w))) (\<lambda>deadline.
     bindP (case deadline of
              None \<Rightarrow> returnP remaining
            | Some d \<Rightarrow> bindP tick (\<lambda>now. returnP (min remaining (sub_allowance d now)))) (\<lambda>remaining.
     if remaining \<le> Secs 0 then raiseP Agent_deadline_exceeded else returnP remaining)))"

section \<open>What every operation of the control keeps\<close>

text \<open>
  \<open>progress\<close> is the state without the budget entries, \<open>settings_of\<close> the control without the state and
  the tool deadline. Two worlds in one \<open>frame\<close> agree on both and on the log: the model, the reviewer
  and the tools move an attempt inside its frame.
\<close>

definition progress :: "checkpoint \<Rightarrow> checkpoint" where
  "progress cp = cp\<lparr>cp_reserved_tokens := 0, cp_reserved_cost := 0, cp_pricing_configured := False,
     cp_reported_input := 0, cp_reported_output := 0\<rparr>"

definition settings_of :: "control \<Rightarrow> control" where
  "settings_of c = c\<lparr>ct_state := empty_checkpoint, ct_tool_deadline := None\<rparr>"

definition frame :: "world \<Rightarrow> world \<Rightarrow> bool" where
  "frame w0 w \<longleftrightarrow> progress (state_of w) = progress (state_of w0) \<and>
     settings_of (w_control w) = settings_of (w_control w0) \<and> w_log w = w_log w0"

lemma frame_refl [simp]: "frame w w"
  by (simp add: frame_def)

lemma frame_trans: "frame w0 w1 \<Longrightarrow> frame w1 w2 \<Longrightarrow> frame w0 w2"
  by (simp add: frame_def)

lemma frame_update [simp]:
  "frame w0 (w\<lparr>w_db := db\<rparr>) = frame w0 w" "frame w0 (w\<lparr>w_calls := n\<rparr>) = frame w0 w"
  "frame w0 (w\<lparr>w_reads := n\<rparr>) = frame w0 w"
  by (simp_all add: frame_def)

lemma settings_of_simps [simp]:
  "settings_of (c\<lparr>ct_state := s\<rparr>) = settings_of c" "settings_of (c\<lparr>ct_tool_deadline := d\<rparr>) = settings_of c"
  by (simp_all add: settings_of_def)

lemma progress_budget [simp]:
  "progress (cp\<lparr>cp_reserved_tokens := a, cp_reserved_cost := b, cp_pricing_configured := p\<rparr>) = progress cp"
  "progress (cp\<lparr>cp_reserved_tokens := a, cp_reserved_cost := b, cp_reported_input := i, cp_reported_output := q\<rparr>) = progress cp"
  by (simp_all add: progress_def)

lemma preserves_store_call:
  assumes "\<And>w. I w \<Longrightarrow> I (w\<lparr>w_db := w_env w (w_calls w) (w_db w), w_calls := w_calls w + 1\<rparr>)"
    and "\<And>w x db'. I w \<Longrightarrow> f (w_clock w (w_calls w)) (w_env w (w_calls w) (w_db w)) = Inr (x, db') \<Longrightarrow>
       I (w\<lparr>w_db := db', w_calls := w_calls w + 1\<rparr>)"
  shows "preserves I (store_call f)"
proof (rule preservesI)
  fix w
  assume "I w"
  then show "wp (store_call f) (\<lambda>_. I) (\<lambda>_. I) w"
    using assms(1) [of w] assms(2) [of w]
    by (auto simp: wp_def store_call_def Let_def split: sum.split prod.split)
qed

lemma frame_store_call [preserves_intro]: "preserves (frame w0) (store_call f)"
  by (rule preserves_store_call) simp_all

lemma frame_tick [preserves_intro]: "preserves (frame w0) tick"
  by (rule preservesI) (simp add: wp_def tick_def)

lemma frame_external [preserves_intro]: "preserves (frame w0) (external f)"
  by (rule preservesI) (simp add: wp_def external_def split: sum.split)

lemma frame_guard [preserves_intro]: "preserves (frame w0) guard"
  unfolding guard_def by (auto intro!: preserves_intro split: option.split)

lemma frame_persist:
  assumes "\<And>cp. progress (f cp) = progress cp"
  shows "preserves (frame w0) (persist f)"
  unfolding persist_def
  by (auto intro!: preserves_intro simp: frame_def set_state_def set_control_def assms split: option.split)

lemma frame_reserve [preserves_intro]: "preserves (frame w0) (reserve i q)"
  unfolding reserve_def Let_def by (auto intro!: preserves_intro frame_persist)

lemma frame_reconcile [preserves_intro]: "preserves (frame w0) (reconcile i q ri rq)"
  unfolding reconcile_def Let_def by (auto intro!: preserves_intro frame_persist)

lemma frame_with_tool_budget [preserves_intro]:
  "preserves (frame w0) body \<Longrightarrow> preserves (frame w0) (with_tool_budget a body)"
  unfolding with_tool_budget_def
  by (auto intro!: preserves_intro simp: frame_def set_tool_deadline_def set_control_def)

lemma frame_tool_remaining [preserves_intro]: "preserves (frame w0) tool_remaining"
  unfolding tool_remaining_def by (auto intro!: preserves_intro split: option.split)

text \<open>
  An attempt with the binding \<open>b\<close> in the history of the run table from \<open>db0\<close> on, while everyone else
  makes steps of the run table too.
\<close>

definition attempt_reach ::
  "(string \<Rightarrow> string) \<Rightarrow> store_binding option \<Rightarrow> run_cfg \<Rightarrow> run_db \<Rightarrow> world \<Rightarrow> bool" where
  "attempt_reach kd b cfg db0 w \<longleftrightarrow>
     (\<exists>evs. run_trace cfg kd db0 evs (w_db w)) \<and> (\<forall>k db. \<exists>evs. run_trace cfg kd db evs (w_env w k db)) \<and>
     ct_store (w_control w) = b \<and> (case b of None \<Rightarrow> True | Some s \<Rightarrow> sb_cfg s = cfg)"

lemma run_trace_append:
  "run_trace cfg kd db1 evs' db2 \<Longrightarrow> run_trace cfg kd db0 evs db1 \<Longrightarrow> run_trace cfg kd db0 (evs @ evs') db2"
proof (induction rule: run_trace.induct)
  case (run_snoc db evs' db1 e db2)
  then show ?case using run_trace.run_snoc [of cfg kd db0 "evs @ evs'"] by (metis append_assoc)
qed simp

lemma attempt_reach_frame [simp]:
  "attempt_reach kd b cfg db0 (w\<lparr>w_calls := n\<rparr>) = attempt_reach kd b cfg db0 w"
  "attempt_reach kd b cfg db0 (w\<lparr>w_reads := n\<rparr>) = attempt_reach kd b cfg db0 w"
  "attempt_reach kd b cfg db0 (w\<lparr>w_log := l\<rparr>) = attempt_reach kd b cfg db0 w"
  by (simp_all add: attempt_reach_def)

lemma reach_store_call:
  assumes step: "\<And>clk db x db'. f clk db = Inr (x, db') \<Longrightarrow> \<exists>e. run_step cfg kd db e db'"
  shows "preserves (attempt_reach kd b cfg db0) (store_call f)"
proof (rule preserves_store_call)
  fix w
  assume w: "attempt_reach kd b cfg db0 w"
  then obtain evs evs' where t: "run_trace cfg kd db0 evs (w_db w)"
    and t': "run_trace cfg kd (w_db w) evs' (w_env w (w_calls w) (w_db w))"
    unfolding attempt_reach_def by blast
  have r: "run_trace cfg kd db0 (evs @ evs') (w_env w (w_calls w) (w_db w))"
    by (rule run_trace_append [OF t' t])
  with w show "attempt_reach kd b cfg db0 (w\<lparr>w_db := w_env w (w_calls w) (w_db w), w_calls := w_calls w + 1\<rparr>)"
    by (auto simp: attempt_reach_def)
  fix x db'
  assume "f (w_clock w (w_calls w)) (w_env w (w_calls w) (w_db w)) = Inr (x, db')"
  with step obtain e where "run_step cfg kd (w_env w (w_calls w) (w_db w)) e db'" by blast
  with r have "run_trace cfg kd db0 ((evs @ evs') @ [e]) db'" by (rule run_snoc)
  with w show "attempt_reach kd b cfg db0 (w\<lparr>w_db := db', w_calls := w_calls w + 1\<rparr>)"
    by (auto simp: attempt_reach_def)
qed

lemma preserves_getP_bindP:
  assumes "\<And>s. I s \<Longrightarrow> wp (f (g s)) (\<lambda>_. I) (\<lambda>_. I) s"
  shows "preserves I (bindP (getP g) f)"
  using assms by (auto simp: preserves_def wp_rules)

lemma reach_guard [preserves_intro]: "preserves (attempt_reach kd b cfg db0) guard"
proof -
  have "preserves (attempt_reach kd b cfg db0) (case b of None \<Rightarrow> returnP Unbounded
      | Some s \<Rightarrow> bindP (store_call (guard_run (sb_cfg s) (sb_run s) (sb_tenant s) (sb_token s))) (\<lambda>remaining.
             if remaining \<le> 0 then raiseP Agent_deadline_exceeded else returnP (Secs remaining)))"
    if "case b of None \<Rightarrow> True | Some s \<Rightarrow> sb_cfg s = cfg"
    using that by (auto intro!: preserves_intro reach_store_call split: option.splits dest: run_guard)
  then have "preserves (attempt_reach kd b cfg db0)
     (bindP (getP (\<lambda>w. ct_store (w_control w))) (\<lambda>store. case store of None \<Rightarrow> returnP Unbounded
      | Some s \<Rightarrow> bindP (store_call (guard_run (sb_cfg s) (sb_run s) (sb_tenant s) (sb_token s))) (\<lambda>remaining.
             if remaining \<le> 0 then raiseP Agent_deadline_exceeded else returnP (Secs remaining))))"
    by (intro preserves_getP_bindP) (auto simp: attempt_reach_def preserves_def)
  then show ?thesis unfolding guard_def by (auto intro!: preserves_intro split: option.split)
qed

lemma reach_persist [preserves_intro]: "preserves (attempt_reach kd b cfg db0) (persist f)"
proof -
  have "preserves (attempt_reach kd b cfg db0) (case b of None \<Rightarrow> returnP ()
      | Some s \<Rightarrow> bindP (getP state_of) (\<lambda>cp.
          store_call (checkpoint_run (sb_cfg s) (sb_run s) (sb_tenant s) (sb_token s) cp)))"
    if "case b of None \<Rightarrow> True | Some s \<Rightarrow> sb_cfg s = cfg"
    using that by (auto intro!: preserves_intro reach_store_call split: option.splits dest: run_checkpoint)
  then have "preserves (attempt_reach kd b cfg db0)
     (bindP (getP (\<lambda>w. ct_store (w_control w))) (\<lambda>store. case store of None \<Rightarrow> returnP ()
      | Some s \<Rightarrow> bindP (getP state_of) (\<lambda>cp.
          store_call (checkpoint_run (sb_cfg s) (sb_run s) (sb_tenant s) (sb_token s) cp))))"
    by (intro preserves_getP_bindP) (auto simp: attempt_reach_def preserves_def)
  then show ?thesis unfolding persist_def
    by (intro preserves_thenP preserves_modifyP)
      (auto simp: attempt_reach_def set_state_def set_control_def)
qed

lemma reach_tick [preserves_intro]: "preserves (attempt_reach kd b cfg db0) tick"
  by (rule preservesI) (simp add: wp_def tick_def)

lemma reach_external [preserves_intro]: "preserves (attempt_reach kd b cfg db0) (external f)"
  by (rule preservesI) (simp add: wp_def external_def split: sum.split)

lemma reach_emit [preserves_intro]: "preserves (attempt_reach kd b cfg db0) (emit e)"
  unfolding emit_def by (rule preserves_modifyP) simp

lemma reach_budget [preserves_intro]:
  "preserves (attempt_reach kd b cfg db0) (reserve i q)"
  "preserves (attempt_reach kd b cfg db0) (reconcile x y ri rq)"
  "preserves (attempt_reach kd b cfg db0) recover"
  "preserves (attempt_reach kd b cfg db0) tool_remaining"
  unfolding reserve_def reconcile_def recover_def tool_remaining_def Let_def
  by (auto intro!: preserves_intro split: option.split)

lemma reach_with_tool_budget [preserves_intro]:
  "preserves (attempt_reach kd b cfg db0) body \<Longrightarrow> preserves (attempt_reach kd b cfg db0) (with_tool_budget a body)"
  unfolding with_tool_budget_def
  by (auto intro!: preserves_intro simp: attempt_reach_def set_tool_deadline_def set_control_def)

end
