(* ===== verification/Model_Adapters.thy ===== *)
theory Model_Adapters
  imports Execution_Control
begin

text \<open>
  The model behind its ports: the JSON decision adapter (\<open>third_party/llm/json_decision_adapter.py\<close>)
  and the JSON evidence reviewer (\<open>document_answer_reviewer.py\<close>), with the contracts \<open>decision_port\<close>
  and \<open>review_port\<close>. The chat model is an external read: \<open>invoke n request\<close> is its \<open>n\<close>-th response or
  exception. The prompts enter by their sizes (\<open>prompt_bytes\<close>, \<open>payload_bytes\<close>, \<open>instruction_bytes\<close>), and
  \<open>parse\<close> reads a JSON text as a value of the contract, which is then validated here.
\<close>

section \<open>Responses\<close>

record model_response =
  mr_usage :: "(pynum \<times> pynum) option"
  mr_refusal :: bool
  mr_tool_calls :: bool
  mr_content :: "ustr option"

record 'p model_request =
  mq_payload :: 'p
  mq_timeout :: rat
  mq_max_tokens :: int

text \<open>Usage is reconciled only when both counts are reported.\<close>

definition reconcile_usage :: "model_response \<Rightarrow> int \<Rightarrow> int \<Rightarrow> (world, exn, unit) proc" where
  "reconcile_usage response estimate output =
     (case mr_usage response of
        None \<Rightarrow> returnP ()
      | Some (prompt, completion) \<Rightarrow> reconcile prompt completion estimate output)"

section \<open>Decisions\<close>

record decision_adapter =
  da_mode :: answer_mode
  da_timeout :: rat
  da_max_output :: nat

text \<open>\<open>JsonDecisionAdapter._validate_timeout\<close> and \<open>__init__\<close>\<close>

definition bad_timeout :: "pynum \<Rightarrow> bool" where
  "bad_timeout v \<longleftrightarrow> \<not> type_is_int_or_float v \<or> \<not> is_finite_num v \<or> num_value v \<le> 0"

definition make_decision_adapter :: "pynum \<Rightarrow> pynum \<Rightarrow> answer_mode \<Rightarrow> exn + decision_adapter" where
  "make_decision_adapter timeout max_output mode =
     (if bad_timeout timeout \<or> \<not> positive_int max_output then Inl Value_error
      else Inr \<lparr>da_mode = mode, da_timeout = num_value timeout, da_max_output = nat \<lfloor>num_value max_output\<rfloor>\<rparr>)"

text \<open>What a response is as a decision: refusals, native tool calls and invalid texts are refused.\<close>

definition decision_of :: "decision_adapter \<Rightarrow> (ustr \<Rightarrow> decision option) \<Rightarrow> model_response \<Rightarrow> exn + decision option" where
  "decision_of ad parse response =
     (if mr_refusal response then Inl Decision_refused_error
      else if mr_tool_calls response then Inl Decision_response_error
      else (case mr_content response of
              None \<Rightarrow> Inl Decision_response_error
            | Some body \<Rightarrow>
                (case parse body of
                   None \<Rightarrow> Inl Decision_response_error
                 | Some d \<Rightarrow>
                     (case validate_stored_decision (da_mode ad) d of
                        Inl _ \<Rightarrow> Inl Decision_response_error
                      | Inr d' \<Rightarrow> Inr (Some d')))))"

text \<open>\<open>decide\<close>\<close>

definition json_decide ::
  "decision_adapter \<Rightarrow> (message list \<Rightarrow> ustr list \<Rightarrow> nat) \<Rightarrow>
   (nat \<Rightarrow> (message list \<times> ustr list) model_request \<Rightarrow> exn + model_response) \<Rightarrow> (ustr \<Rightarrow> decision option) \<Rightarrow>
   message list \<Rightarrow> ustr list \<Rightarrow> allowance \<Rightarrow> (world, exn, decision option) proc" where
  "json_decide ad prompt_bytes invoke parse messages tools timeout =
     (case timeout of
        Unbounded \<Rightarrow> raiseP Value_error
      | Secs t \<Rightarrow>
          if t \<le> 0 then raiseP Value_error
          else
            let estimate = int (prompt_bytes messages tools) + 64; output = int (da_max_output ad);
                request = \<lparr>mq_payload = (messages, tools), mq_timeout = min t (da_timeout ad), mq_max_tokens = output\<rparr>
            in thenP (reserve estimate output)
               (bindP (external (\<lambda>n. invoke n request)) (\<lambda>response.
                thenP (reconcile_usage response estimate output) (liftR (decision_of ad parse response)))))"

section \<open>Reviews\<close>

record review_adapter =
  ra_timeout :: rat
  ra_output :: nat

text \<open>\<open>JsonDocumentAnswerReviewer.__init__\<close> and \<open>review\<close>\<close>

definition make_review_adapter :: "pynum \<Rightarrow> pynum \<Rightarrow> exn + review_adapter" where
  "make_review_adapter timeout max_output =
     (if bad_timeout timeout \<or> \<not> positive_int max_output then Inl Value_error
      else Inr \<lparr>ra_timeout = num_value timeout, ra_output = nat \<lfloor>num_value max_output\<rfloor>\<rparr>)"

definition review_of :: "(ustr \<Rightarrow> document_review option) \<Rightarrow> model_response \<Rightarrow> exn + document_review" where
  "review_of parse response =
     (if mr_refusal response then Inl Decision_refused_error
      else (case mr_content response of
              None \<Rightarrow> Inl Decision_response_error
            | Some body \<Rightarrow>
                if mr_tool_calls response then Inl Decision_response_error
                else (case parse body of
                        None \<Rightarrow> Inl Decision_response_error
                      | Some rv \<Rightarrow> if valid_review rv then Inr rv else Inl Decision_response_error)))"

definition json_review ::
  "review_adapter \<Rightarrow> nat \<Rightarrow> (review_request \<Rightarrow> nat) \<Rightarrow>
   (nat \<Rightarrow> review_request model_request \<Rightarrow> exn + model_response) \<Rightarrow> (ustr \<Rightarrow> document_review option) \<Rightarrow>
   review_request \<Rightarrow> allowance \<Rightarrow> (world, exn, document_review) proc" where
  "json_review ra instruction_bytes payload_bytes invoke parse request timeout =
     (case timeout of
        Unbounded \<Rightarrow> raiseP Value_error
      | Secs t \<Rightarrow>
          if t \<le> 0 then raiseP Value_error
          else if payload_bytes request > 128000 then raiseP Value_error
          else
            let estimate = int (instruction_bytes + payload_bytes request) + 64; output = int (ra_output ra)
            in bindP guard (\<lambda>_.
               thenP (reserve estimate output)
               (bindP (external (\<lambda>n. invoke n \<lparr>mq_payload = request, mq_timeout = min t (ra_timeout ra), mq_max_tokens = output\<rparr>)) (\<lambda>response.
                bindP guard (\<lambda>_.
                thenP (reconcile_usage response estimate output) (liftR (review_of parse response)))))))"

section \<open>The ports\<close>

text \<open>
  What the loop relies on: a provider moves the attempt inside its frame, touches the run table only
  through its operations, and unless it raises something the loop does not recover from, leaves the
  spent budget within the admitted one.
\<close>

definition within_budget :: "world \<Rightarrow> bool" where
  "within_budget w \<longleftrightarrow>
     \<not> over_budget (w_control w) (cp_reserved_tokens (state_of w)) (cp_reserved_cost (state_of w))"

definition budget_fatal :: "exn \<Rightarrow> bool" where
  "budget_fatal e \<longleftrightarrow> e \<noteq> Validation_error \<and> \<not> is_decision_response_error e \<and> \<not> is_retryable e"

locale decision_port =
  fixes decide :: "message list \<Rightarrow> ustr list \<Rightarrow> allowance \<Rightarrow> (world, exn, decision option) proc"
  assumes decide_frame: "preserves (frame w0) (decide messages tools timeout)"
    and decide_reach: "preserves (attempt_reach kd b cfg db0) (decide messages tools timeout)"
    and decide_budget: "within_budget w \<Longrightarrow>
       wp (decide messages tools timeout) (\<lambda>_. within_budget) (\<lambda>e w'. budget_fatal e \<or> within_budget w') w"
    and decide_valid: "decide messages tools timeout w = (Inr (Some d), w') \<Longrightarrow> valid_decision d"

locale review_port =
  fixes review :: "(review_request \<Rightarrow> allowance \<Rightarrow> (world, exn, document_review) proc) option"
  assumes review_frame: "review = Some rv \<Longrightarrow> preserves (frame w0) (rv request timeout)"
    and review_reach: "review = Some rv \<Longrightarrow> preserves (attempt_reach kd b cfg db0) (rv request timeout)"
    and review_budget: "review = Some rv \<Longrightarrow> within_budget w \<Longrightarrow>
       wp (rv request timeout) (\<lambda>_. within_budget) (\<lambda>_ _. True) w"

text \<open>Reservations and reconciliations keep the budget or end the attempt.\<close>

lemma within_budget_simps [simp]:
  "within_budget (w\<lparr>w_db := db\<rparr>) = within_budget w" "within_budget (w\<lparr>w_calls := n\<rparr>) = within_budget w"
  "within_budget (w\<lparr>w_reads := n\<rparr>) = within_budget w" "within_budget (w\<lparr>w_log := l\<rparr>) = within_budget w"
  by (simp_all add: within_budget_def)

text \<open>The exceptions of the run table's operations.\<close>

definition store_error :: "exn \<Rightarrow> bool" where
  "store_error e \<longleftrightarrow> e \<in> {Run_not_found, Run_lease_lost, Run_cancelled, Type_error}"

lemma store_error_fatal: "store_error e \<Longrightarrow> budget_fatal e"
  by (auto simp: store_error_def budget_fatal_def)

lemma owned_run_InlD: "owned_run db rid t tok now = Inl e \<Longrightarrow> store_error e"
  by (auto simp: owned_run_def find_run_def until_passed_def bindR_Inl_iff store_error_def
      split: option.splits if_splits)

lemma guard_run_InlD: "guard_run cfg rid t tok clk db = Inl e \<Longrightarrow> store_error e"
  by (auto simp: guard_run_def bindR_Inl_iff Let_def store_error_def dest: owned_run_InlD
      split: option.splits if_splits)

lemma checkpoint_run_InlD: "checkpoint_run cfg rid t tok cp clk db = Inl e \<Longrightarrow> store_error e"
  by (auto simp: checkpoint_run_def bindR_Inl_iff store_error_def dest: owned_run_InlD split: if_splits)

lemma wp_store_call:
  "wp (store_call f) Q E w =
     (case f (w_clock w (w_calls w)) (w_env w (w_calls w) (w_db w)) of
        Inl e \<Rightarrow> E e (w\<lparr>w_db := w_env w (w_calls w) (w_db w), w_calls := w_calls w + 1\<rparr>)
      | Inr (x, db') \<Rightarrow> Q x (w\<lparr>w_db := db', w_calls := w_calls w + 1\<rparr>))"
  by (simp add: wp_def store_call_def Let_def split: sum.split prod.split)

lemma wp_guard_frame:
  assumes "\<And>x s'. frame w s' \<Longrightarrow> w_control s' = w_control w \<Longrightarrow> Q x s'"
    and "\<And>e s'. frame w s' \<Longrightarrow> w_control s' = w_control w \<Longrightarrow> E e s'"
  shows "wp guard Q E w"
  unfolding guard_def wp_rules wp_store_call
  by (auto simp: wp_rules wp_store_call intro!: assms split: option.split sum.split)

lemma wp_persist:
  assumes "\<And>db n. Q () (set_state f w\<lparr>w_db := db, w_calls := n\<rparr>)" and "Q () (set_state f w)"
    and "\<And>e db n. store_error e \<Longrightarrow> E e (set_state f w\<lparr>w_db := db, w_calls := n\<rparr>)"
  shows "wp (persist f) Q E w"
  unfolding persist_def wp_rules wp_store_call
  by (auto simp: wp_rules wp_store_call intro!: assms checkpoint_run_InlD split: option.split sum.split)

text \<open>
  Budget admission: a reservation is granted only when the tokens and the cost spent so far plus
  the request stay within the run's limits, and then exactly the request is added; a refused or
  invalid request leaves the checkpoint as it was.
\<close>

lemma reserve_admits:
  assumes "reserve input output w = (r, w')"
  shows "case r of
      Inr _ \<Rightarrow> 0 \<le> input \<and> 0 \<le> output \<and> within_budget w' \<and>
        int (cp_reserved_tokens (state_of w')) = int (cp_reserved_tokens (state_of w)) + input + output \<and>
        cp_reserved_cost (state_of w') = cp_reserved_cost (state_of w) + token_cost (w_control w) input output
    | Inl e \<Rightarrow> e \<in> {Value_error, Resource_budget_exceeded} \<longrightarrow> state_of w' = state_of w"
proof -
  let ?c = "w_control w"
  have "wp (reserve input output)
     (\<lambda>_ v. 0 \<le> input \<and> 0 \<le> output \<and> within_budget v \<and>
        int (cp_reserved_tokens (state_of v)) = int (cp_reserved_tokens (state_of w)) + input + output \<and>
        cp_reserved_cost (state_of v) = cp_reserved_cost (state_of w) + token_cost ?c input output)
     (\<lambda>e v. e \<in> {Value_error, Resource_budget_exceeded} \<longrightarrow> state_of v = state_of w) w"
  proof (cases "0 \<le> input \<and> 0 \<le> output")
    case False
    then show ?thesis by (auto simp: reserve_def wp_rules)
  next
    case True
    then have r: "reserve input output = bindP guard (\<lambda>_. bindP (getP w_control) (\<lambda>c.
        let used = cp_reserved_tokens (ct_state c) + nat input + nat output;
            cost = cp_reserved_cost (ct_state c) + token_cost c input output
        in if over_budget c used cost then raiseP Resource_budget_exceeded
           else persist (\<lambda>cp. cp\<lparr>cp_reserved_tokens := used, cp_reserved_cost := cost,
                  cp_pricing_configured := (ct_input_rate c \<noteq> None \<and> ct_output_rate c \<noteq> None)\<rparr>)))"
      by (simp add: reserve_def)
    show ?thesis unfolding r wp_bindP
    proof (rule wp_guard_frame, goal_cases)
      case (1 x v)
      show ?case unfolding wp_getP Let_def wp_if using True 1
        by (auto simp: wp_raiseP intro!: wp_persist)
          (simp_all add: within_budget_def set_state_def set_control_def over_budget_def store_error_def)
    next
      case (2 e v)
      then show ?case by simp
    qed
  qed
  then show ?thesis using assms by (cases r) (auto simp: wp_def)
qed

section \<open>The adapters are ports\<close>

lemma within_budget_control: "w_control v = w_control w \<Longrightarrow> within_budget w \<Longrightarrow> within_budget v"
  by (simp add: within_budget_def)

lemma within_budget_set:
  "within_budget (set_state (\<lambda>cp. cp\<lparr>cp_reserved_tokens := u, cp_reserved_cost := c, cp_pricing_configured := p\<rparr>) w)
     \<longleftrightarrow> \<not> over_budget (w_control w) u c"
  "within_budget (set_state (\<lambda>cp. cp\<lparr>cp_reserved_tokens := u, cp_reserved_cost := c,
      cp_reported_input := f cp, cp_reported_output := g cp\<rparr>) w) \<longleftrightarrow> \<not> over_budget (w_control w) u c"
  by (simp_all add: within_budget_def set_state_def set_control_def over_budget_def)

lemma preserves_budget_guard: "preserves within_budget guard"
  by (rule preservesI, rule wp_guard_frame) (erule (1) within_budget_control)+

lemma preserves_budget_reserve: "preserves within_budget (reserve input output)"
proof (rule preservesI)
  fix w
  assume w: "within_budget w"
  have step: "wp (bindP (getP w_control) (\<lambda>c.
        let used = cp_reserved_tokens (ct_state c) + nat input + nat output;
            cost = cp_reserved_cost (ct_state c) + token_cost c input output
        in if over_budget c used cost then raiseP Resource_budget_exceeded
           else persist (\<lambda>cp. cp\<lparr>cp_reserved_tokens := used, cp_reserved_cost := cost,
                  cp_pricing_configured := (ct_input_rate c \<noteq> None \<and> ct_output_rate c \<noteq> None)\<rparr>)))
      (\<lambda>_. within_budget) (\<lambda>_. within_budget) v" if v: "within_budget v" for v
    unfolding wp_bindP wp_getP Let_def wp_if wp_raiseP
    by (simp add: v, intro impI wp_persist) (simp_all add: within_budget_set)
  show "wp (reserve input output) (\<lambda>_. within_budget) (\<lambda>_. within_budget) w"
    unfolding reserve_def wp_if wp_raiseP wp_bindP [of guard]
    by (simp add: w, intro impI wp_guard_frame) (auto intro: step within_budget_control [OF _ w])
qed

lemma reconcile_budget:
  assumes "within_budget w"
  shows "wp (reconcile i q ri rq) (\<lambda>_. within_budget) (\<lambda>e w'. budget_fatal e) w"
  using assms unfolding reconcile_def Let_def
  by (auto simp: wp_rules store_error_fatal within_budget_set budget_fatal_def [of Resource_budget_exceeded] intro!: wp_persist)

lemma reconcile_usage_budget:
  assumes "within_budget w"
  shows "wp (reconcile_usage response e q) (\<lambda>_. within_budget) (\<lambda>e w'. budget_fatal e \<or> within_budget w') w"
  using assms unfolding reconcile_usage_def
  by (auto simp: wp_rules intro: wp_mono [OF reconcile_budget] split: option.split prod.split)

interpretation json_decisions: decision_port "json_decide ad prompt_bytes invoke parse"
  for ad prompt_bytes invoke parse
proof
  fix messages tools timeout
  show "preserves (frame w0) (json_decide ad prompt_bytes invoke parse messages tools timeout)" for w0
    unfolding json_decide_def Let_def reconcile_usage_def
    by (auto intro!: preserves_intro split: allowance.split option.split sum.split prod.split)
  show "preserves (attempt_reach kd b cfg db0) (json_decide ad prompt_bytes invoke parse messages tools timeout)"
    for kd b cfg db0
    unfolding json_decide_def Let_def reconcile_usage_def
    by (auto intro!: preserves_intro split: allowance.split option.split sum.split prod.split)
  fix w
  assume w: "within_budget w"
  show "wp (json_decide ad prompt_bytes invoke parse messages tools timeout) (\<lambda>_. within_budget)
      (\<lambda>e w'. budget_fatal e \<or> within_budget w') w"
  proof (cases timeout)
    case (Secs t)
    have tail: "wp (thenP (reconcile_usage response e q) (liftR (decision_of ad parse response)))
        (\<lambda>_. within_budget) (\<lambda>e w'. budget_fatal e \<or> within_budget w') v"
      if "within_budget v" for response e q v
      unfolding wp_thenP by (rule wp_mono [OF reconcile_usage_budget [OF that]]) (simp_all add: wp_liftR split: sum.split)
    show ?thesis
    proof (cases "t \<le> 0")
      case False
      then show ?thesis unfolding json_decide_def Let_def Secs
        by (simp add: wp_thenP [of "reserve _ _"] wp_bindP)
          (rule wp_mono [OF preservesD [OF preserves_budget_reserve w]], auto simp: wp_bindP wp_external intro!: tail split: sum.split)
    qed (use w Secs in \<open>simp add: json_decide_def wp_rules\<close>)
  qed (use w in \<open>simp add: json_decide_def wp_rules\<close>)
next
  fix messages tools timeout w d w'
  assume "json_decide ad prompt_bytes invoke parse messages tools timeout w = (Inr (Some d), w')"
  then obtain response where "decision_of ad parse response = Inr (Some d)"
    by (auto simp: json_decide_def Let_def thenP_def bindP_def raiseP_def liftR_def
        split: allowance.splits if_splits sum.splits prod.splits)
  then show "valid_decision d"
    by (auto simp: decision_of_def validate_stored_decision_def split: if_splits option.splits sum.splits)
qed

interpretation json_reviews: review_port "Some (json_review ra ib payload_bytes invoke parse)"
  for ra ib payload_bytes invoke parse
proof
  fix rv request timeout
  assume "Some (json_review ra ib payload_bytes invoke parse) = Some rv"
  then have rv: "rv = json_review ra ib payload_bytes invoke parse" by simp
  show "preserves (frame w0) (rv request timeout)" for w0
    unfolding rv json_review_def Let_def reconcile_usage_def
    by (auto intro!: preserves_intro split: allowance.split option.split prod.split)
  show "preserves (attempt_reach kd b cfg db0) (rv request timeout)" for kd b cfg db0
    unfolding rv json_review_def Let_def reconcile_usage_def
    by (auto intro!: preserves_intro split: allowance.split option.split prod.split)
  fix w
  assume w: "within_budget w"
  have tail: "wp (thenP (reconcile_usage response e q) (liftR (review_of parse response))) (\<lambda>_. within_budget) (\<lambda>_ _. True) v"
    if "within_budget v" for response e q v
    unfolding wp_thenP by (rule wp_mono [OF reconcile_usage_budget [OF that]]) (simp_all add: wp_liftR split: sum.split)
  have guarded: "wp (bindP guard (\<lambda>_. thenP (reconcile_usage response e q) (liftR (review_of parse response))))
      (\<lambda>_. within_budget) (\<lambda>_ _. True) v" if "within_budget v" for response e q v
    unfolding wp_bindP by (rule wp_mono [OF preservesD [OF preserves_budget_guard that]]) (simp_all add: tail)
  have reserved: "wp (thenP (reserve e q) (bindP (external f) (\<lambda>response.
        bindP guard (\<lambda>_. thenP (reconcile_usage response e q) (liftR (review_of parse response))))))
      (\<lambda>_. within_budget) (\<lambda>_ _. True) v" if "within_budget v" for e q f v
    unfolding wp_thenP wp_bindP [of "external f"]
    by (rule wp_mono [OF preservesD [OF preserves_budget_reserve that]])
      (auto simp: wp_external intro!: guarded split: sum.split)
  show "wp (rv request timeout) (\<lambda>_. within_budget) (\<lambda>_ _. True) w"
  proof (cases timeout)
    case (Secs t)
    show ?thesis
    proof (cases "t \<le> 0 \<or> payload_bytes request > 128000")
      case False
      then show ?thesis unfolding rv json_review_def Let_def Secs
        by (simp add: wp_bindP [of guard])
          (rule wp_mono [OF preservesD [OF preserves_budget_guard w]], simp_all add: reserved)
    qed (auto simp: rv Secs json_review_def wp_rules)
  qed (simp add: rv json_review_def wp_rules)
qed

interpretation no_review: review_port None
  by standard simp_all

end
