(* ===== verification/Heartbeat.thy ===== *)
theory Heartbeat
  imports Model_Adapters
begin

text \<open>
  The heartbeat of an attempt (\<open>ExecutionControl.start_heartbeat\<close> and \<open>close\<close>): a thread that renews the
  lease of the run while the loop waits for a model or a tool. Its thread is a recursion over the returns
  of \<open>_heartbeat_stop.wait\<close>; what everyone else, the attempt included, does to the database between two
  of them is part of each wake-up.
\<close>

section \<open>The loop\<close>

text \<open>
  One return of \<open>wait\<close>: whether \<open>close\<close> has set the event, what happened to the database since the
  last one, and the clock of the transaction that follows.
\<close>

record wakeup =
  wk_stop :: bool
  wk_others :: "run_db \<Rightarrow> run_db"
  wk_clock :: "nat \<Rightarrow> rat"

text \<open>Where the thread is after the wake-ups so far; \<open>Hb_failed\<close> is the stored \<open>_heartbeat_error\<close>.\<close>

datatype heartbeat = Hb_none | Hb_waiting | Hb_stopped | Hb_over | Hb_failed exn

text \<open>\<open>renew\<close>\<close>

fun renew :: "store_binding \<Rightarrow> wakeup list \<Rightarrow> run_db \<Rightarrow> heartbeat \<times> run_db" where
  "renew b [] db = (Hb_waiting, db)"
| "renew b (k # ks) db =
     (let db1 = wk_others k db
      in if wk_stop k then (Hb_stopped, db1)
         else case guard_run (sb_cfg b) (sb_run b) (sb_tenant b) (sb_token b) (wk_clock k) db1 of
                Inl e \<Rightarrow> (Hb_failed e, db1)
              | Inr (remaining, db2) \<Rightarrow> if remaining \<le> 0 then (Hb_over, db2) else renew b ks db2)"

text \<open>\<open>start_heartbeat\<close>: without a store there is no thread and nothing to renew.\<close>

definition start_heartbeat :: "control \<Rightarrow> wakeup list \<Rightarrow> run_db \<Rightarrow> heartbeat \<times> run_db" where
  "start_heartbeat c ks db =
     (case ct_store c of None \<Rightarrow> (Hb_none, db) | Some b \<Rightarrow> renew b ks db)"

definition heartbeat_error :: "heartbeat \<Rightarrow> exn option" where
  "heartbeat_error h = (case h of Hb_failed e \<Rightarrow> Some e | _ \<Rightarrow> None)"

section \<open>The heartbeat among the steps of the run table\<close>

text \<open>Whatever the others do as steps of the run table, the thread only adds writes under its token.\<close>

lemma renew_trace:
  assumes "renew b ks db = (h, db')"
    and "\<And>k db. k \<in> set ks \<Longrightarrow> \<exists>evs. run_trace (sb_cfg b) kd db evs (wk_others k db)"
  shows "\<exists>evs. run_trace (sb_cfg b) kd db evs db'"
  using assms
proof (induction b ks db arbitrary: h db' rule: renew.induct)
  case (2 b k ks db)
  let ?db1 = "wk_others k db"
  from 2(3) obtain evs1 where t1: "run_trace (sb_cfg b) kd db evs1 ?db1" by force
  show ?case
  proof (cases "wk_stop k")
    case False
    show ?thesis
    proof (cases "guard_run (sb_cfg b) (sb_run b) (sb_tenant b) (sb_token b) (wk_clock k) ?db1")
      case (Inr p)
      obtain remaining db2 where p: "p = (remaining, db2)" by (cases p)
      from run_guard [OF Inr [unfolded p]] have "run_step (sb_cfg b) kd ?db1 (Ev_write (sb_run b) (sb_token b)) db2" .
      from run_snoc [OF t1 this]
      have t2: "run_trace (sb_cfg b) kd db (evs1 @ [Ev_write (sb_run b) (sb_token b)]) db2" .
      show ?thesis
      proof (cases "remaining \<le> 0")
        case False
        have "renew b ks db2 = (h, db')" using 2(2) False \<open>\<not> wk_stop k\<close> by (simp add: Inr p)
        from 2(1) [OF refl \<open>\<not> wk_stop k\<close> Inr p [symmetric] False this 2(3)]
        obtain evs where "run_trace (sb_cfg b) kd db2 evs db'" by auto
        from run_trace_append [OF this t2] show ?thesis by blast
      qed (use 2(2) t2 \<open>\<not> wk_stop k\<close> in \<open>auto simp: Inr p\<close>)
    qed (use 2(2) t1 False in auto)
  qed (use 2(2) t1 in auto)
qed (auto intro: run_start)

text \<open>The error it stores is one of the run table's, and ends the attempt at its next guard.\<close>

lemma renew_failed: "fst (renew b ks db) = Hb_failed e \<Longrightarrow> store_error e"
  by (induction b ks db rule: renew.induct)
    (auto simp: Let_def split: if_splits sum.splits prod.splits dest: guard_run_InlD)

lemma heartbeat_error_fatal:
  "heartbeat_error (fst (start_heartbeat c ks db)) = Some e \<Longrightarrow> store_error e \<and> budget_fatal e"
  by (auto simp: start_heartbeat_def heartbeat_error_def split: option.splits heartbeat.splits
      intro: store_error_fatal renew_failed)

lemma guard_raises_heartbeat_error:
  "w_heartbeat w (w_calls w) = heartbeat_error h \<Longrightarrow> heartbeat_error h = Some e \<Longrightarrow> guard w = (Inl e, w)"
  by (simp add: guard_def bindP_def getP_def raiseP_def)

section \<open>Keeping the lease\<close>

text \<open>The binding holds the run: its row is running under the token, not cancelled, and the lease lasts until \<open>l\<close>.\<close>

definition holds_lease :: "store_binding \<Rightarrow> rat \<Rightarrow> rat \<Rightarrow> run_db \<Rightarrow> bool" where
  "holds_lease b l d db \<longleftrightarrow>
     (case find_run db (sb_run b) (sb_tenant b) of
        Inl _ \<Rightarrow> False
      | Inr row \<Rightarrow> ru_state row = Running \<and> ru_token row = Some (sb_token b) \<and> \<not> ru_cancel row \<and>
          ru_deadline row = Some d \<and> (case ru_lease_until row of None \<Rightarrow> False | Some u \<Rightarrow> l \<le> u))"

text \<open>The others leave a lease in place: they do not end the run, cancel it or shorten its lease.\<close>

definition leaves_lease :: "store_binding \<Rightarrow> rat \<Rightarrow> rat \<Rightarrow> (run_db \<Rightarrow> run_db) \<Rightarrow> bool" where
  "leaves_lease b l d f \<longleftrightarrow> (\<forall>db. holds_lease b l d db \<longrightarrow> holds_lease b l d (f db))"

text \<open>
  The thread is punctual: each wake-up finds the lease of the last renewal, which lasts until \<open>l\<close>, not
  yet over, and the deadline \<open>d\<close> of the run ahead. Waking up every third of a lease leaves two thirds of
  one for the delays.
\<close>

fun punctual :: "store_binding \<Rightarrow> rat \<Rightarrow> rat \<Rightarrow> wakeup list \<Rightarrow> bool" where
  "punctual b l d [] = True"
| "punctual b l d (k # ks) = (leaves_lease b l d (wk_others k) \<and>
     (wk_stop k \<or> wk_clock k 0 < l \<and> wk_clock k 1 < d \<and>
        punctual b (wk_clock k 1 + lease_seconds (sb_cfg b)) d ks))"

fun last_renewal :: "rat \<Rightarrow> rat \<Rightarrow> wakeup list \<Rightarrow> rat" where
  "last_renewal lease l [] = l"
| "last_renewal lease l (k # ks) =
     (if wk_stop k then l else last_renewal lease (wk_clock k 1 + lease) ks)"

lemma guard_holds_lease:
  assumes held: "holds_lease b l d db" and t: "clk 0 < l"
  obtains db' where "guard_run (sb_cfg b) (sb_run b) (sb_tenant b) (sb_token b) clk db = Inr (d - clk 1, db')"
    and "holds_lease b (clk 1 + lease_seconds (sb_cfg b)) d db'"
proof -
  from held obtain row u where row: "find_run db (sb_run b) (sb_tenant b) = Inr row" "ru_state row = Running"
      "ru_token row = Some (sb_token b)" "\<not> ru_cancel row" "ru_deadline row = Some d"
      "ru_lease_until row = Some u" "l \<le> u"
    by (auto simp: holds_lease_def split: sum.splits option.splits)
  let ?renewed = "\<lambda>r. r\<lparr>ru_lease_until := Some (clk 1 + lease_seconds (sb_cfg b))\<rparr>"
  let ?db' = "update_run (sb_run b) ?renewed db"
  have "keeps_run ?renewed" by (simp add: keeps_run_def)
  from find_run_update [OF this]
  have "find_run ?db' (sb_run b) (sb_tenant b) = Inr (?renewed row)" using row(1) by simp
  moreover have "guard_run (sb_cfg b) (sb_run b) (sb_tenant b) (sb_token b) clk db = Inr (d - clk 1, ?db')"
    using row t by (simp add: guard_run_def owned_run_def until_passed_def Let_def)
  ultimately show ?thesis using row by (intro that) (auto simp: holds_lease_def)
qed

lemma renew_keeps_lease:
  assumes "holds_lease b l d db" and "punctual b l d ks"
  obtains h db' where "renew b ks db = (h, db')" and "h = (if list_ex wk_stop ks then Hb_stopped else Hb_waiting)"
    and "holds_lease b (last_renewal (lease_seconds (sb_cfg b)) l ks) d db'"
proof -
  have "\<exists>db'. renew b ks db = (if list_ex wk_stop ks then Hb_stopped else Hb_waiting, db') \<and>
     holds_lease b (last_renewal (lease_seconds (sb_cfg b)) l ks) d db'"
    using assms
  proof (induction ks arbitrary: l db)
    case (Cons k ks)
    let ?db1 = "wk_others k db"
    have held: "holds_lease b l d ?db1" using Cons.prems by (simp add: leaves_lease_def)
    show ?case
    proof (cases "wk_stop k")
      case False
      with Cons.prems(2) have p: "wk_clock k 0 < l" "wk_clock k 1 < d"
        "punctual b (wk_clock k 1 + lease_seconds (sb_cfg b)) d ks" by simp_all
      from held p(1) obtain db2
        where "guard_run (sb_cfg b) (sb_run b) (sb_tenant b) (sb_token b) (wk_clock k) ?db1 = Inr (d - wk_clock k 1, db2)"
          and "holds_lease b (wk_clock k 1 + lease_seconds (sb_cfg b)) d db2" by (rule guard_holds_lease)
      with Cons.IH p False show ?thesis by auto
    qed (simp add: held)
  qed simp
  then show ?thesis using that by auto
qed

text \<open>The attempt's own checkpoints, and whatever does not touch the row of the run, leave the lease in place.\<close>

lemma leaves_lease_other:
  "(\<And>db. find_run (f db) (sb_run b) (sb_tenant b) = find_run db (sb_run b) (sb_tenant b)) \<Longrightarrow> leaves_lease b l d f"
  by (simp add: leaves_lease_def holds_lease_def)

lemma leaves_lease_checkpoint:
  assumes "l \<le> clk 2 + lease_seconds cfg"
  shows "leaves_lease b l d (\<lambda>db. case checkpoint_run cfg (sb_run b) t tok cp clk db of Inl e \<Rightarrow> db | Inr (_, db') \<Rightarrow> db')"
  unfolding leaves_lease_def
proof (intro allI impI)
  fix db
  assume held: "holds_lease b l d db"
  let ?w = "\<lambda>r. r\<lparr>ru_checkpoint := cp, ru_updated := clk 1, ru_lease_until := Some (clk 2 + lease_seconds cfg)\<rparr>"
  have "find_run (update_run (sb_run b) ?w db) (sb_run b) (sb_tenant b) =
      bindR (find_run db (sb_run b) (sb_tenant b)) (\<lambda>row. Inr (?w row))"
    by (subst find_run_update) (simp_all add: keeps_run_def)
  then have "holds_lease b l d (update_run (sb_run b) ?w db)"
    using held assms by (auto simp: holds_lease_def split: sum.splits)
  with held show "holds_lease b l d
      (case checkpoint_run cfg (sb_run b) t tok cp clk db of Inl e \<Rightarrow> db | Inr (_, db') \<Rightarrow> db')"
    by (auto simp: checkpoint_run_def split: sum.splits prod.splits if_splits)
qed

text \<open>A requested cancellation, a lost lease and an ended run stop the thread before it writes anything.\<close>

lemma renew_stops_when_lost:
  assumes "find_run (wk_others k db) (sb_run b) (sb_tenant b) = Inr row" and "\<not> wk_stop k"
    and "ru_state row \<noteq> Running \<or> ru_token row \<noteq> Some (sb_token b)"
  shows "renew b (k # ks) db = (Hb_failed Run_lease_lost, wk_others k db)"
  using assms by (auto simp: guard_run_def owned_run_def)

lemma renew_notices_cancellation:
  assumes "find_run (wk_others k db) (sb_run b) (sb_tenant b) = Inr row" and "\<not> wk_stop k"
    and "ru_state row = Running" and "ru_token row = Some (sb_token b)" and "ru_cancel row"
    and "ru_lease_until row = Some l" and "wk_clock k 0 < l"
  shows "renew b (k # ks) db = (Hb_failed Run_cancelled, wk_others k db)"
  using assms by (auto simp: guard_run_def owned_run_def until_passed_def)

text \<open>
  C28. The heartbeat keeps the lease. While its wake-ups come before the lease they renew is over and
  before the deadline of the run, and nobody else ends or cancels the run, the heartbeat of an attempt
  meets no error and ends only when it is told to; afterwards the run is still held under the attempt's
  token, and a guard before the end of the last renewal succeeds with the time left to the deadline.
\<close>

theorem heartbeat_keeps_lease:
  assumes "ct_store c = Some b" and "holds_lease b l d db" and "punctual b l d ks"
  shows "\<exists>h db'. start_heartbeat c ks db = (h, db') \<and> heartbeat_error h = None \<and>
     h = (if list_ex wk_stop ks then Hb_stopped else Hb_waiting) \<and>
     holds_lease b (last_renewal (lease_seconds (sb_cfg b)) l ks) d db' \<and>
     (\<forall>clk. clk 0 < last_renewal (lease_seconds (sb_cfg b)) l ks \<longrightarrow>
        (\<exists>db''. guard_run (sb_cfg b) (sb_run b) (sb_tenant b) (sb_token b) clk db' = Inr (d - clk 1, db'')))"
proof -
  from assms(2,3) obtain h db' where r: "renew b ks db = (h, db')"
    and h: "h = (if list_ex wk_stop ks then Hb_stopped else Hb_waiting)"
    and held: "holds_lease b (last_renewal (lease_seconds (sb_cfg b)) l ks) d db'" by (rule renew_keeps_lease)
  moreover have "heartbeat_error h = None" using h by (simp add: heartbeat_error_def)
  ultimately show ?thesis using assms(1)
    by (auto simp: start_heartbeat_def elim!: guard_holds_lease [OF held])
qed

end
