(* ===== verification/Agent_Loop.thy ===== *)
theory Agent_Loop
  imports Execution_Control Tools "HOL-Library.Product_Lexorder" "HOL-Library.List_Lexorder"
begin

text \<open>
  The agent loop (\<open>use_cases/agent_loop.py\<close>): one decision per step, from the provider or replayed from
  a checkpoint, then a final answer that is checked and stored, or a tool call whose result becomes
  the next observation. The provider, the reviewer and the tools are procedures on the attempt's
  world. Metrics, durations and the labels of the log records (phase, tool call identifier) are not
  modelled; the log records are, as events.
\<close>

section \<open>Dependencies and locals\<close>

record loop_deps =
  lp_decide :: "message list \<Rightarrow> ustr list \<Rightarrow> allowance \<Rightarrow> (world, exn, decision option) proc"
  lp_review :: "(review_request \<Rightarrow> allowance \<Rightarrow> (world, exn, document_review) proc) option"
  lp_tools :: "world tool_definition list"
  lp_mode :: answer_mode
  lp_max_decisions :: nat
  lp_max_duration :: rat
  lp_alnum :: "nat \<Rightarrow> bool"
  lp_digest :: "review_request \<Rightarrow> string"
  lp_passage_bytes :: "passage \<Rightarrow> nat"

text \<open>\<open>AgentLoop.__init__\<close>: the numeric limits and the reviewer that document mode requires.\<close>

definition make_loop ::
  "pynum \<Rightarrow> pynum \<Rightarrow> (nat \<Rightarrow> rat \<Rightarrow> loop_deps) \<Rightarrow> exn + loop_deps" where
  "make_loop max_decisions max_duration deps =
     (if \<not> positive_int max_decisions then Inl Value_error
      else if \<not> type_is_int_or_float max_duration \<or> \<not> is_finite_num max_duration \<or> num_value max_duration \<le> 0
      then Inl Value_error
      else let d = deps (nat \<lfloor>num_value max_decisions\<rfloor>) (num_value max_duration)
           in if lp_mode d = Document \<and> lp_review d = None then Inl Value_error else Inr d)"

text \<open>
  The local variables of \<open>_run\<close>. \<open>observed_sources\<close> is a set: a list without duplicates;
  \<open>observed_passages\<close> a dictionary keyed by source: its values in insertion order.
\<close>

record locals =
  lo_step :: nat
  lo_tool_calls :: nat
  lo_tools_completed :: nat
  lo_sources :: "source_reference list"
  lo_search_completed :: bool
  lo_passages :: "passage list"
  lo_question :: ustr
  lo_history :: "message list"

definition put_passage :: "passage \<Rightarrow> passage list \<Rightarrow> passage list" where
  "put_passage p ps =
     (if list_ex (\<lambda>q. source_key q = source_key p) ps
      then map (\<lambda>q. if source_key q = source_key p then p else q) ps
      else ps @ [p])"

definition valid_reference :: "source_reference \<Rightarrow> bool" where
  "valid_reference r \<longleftrightarrow> 1 \<le> sr_version r"

definition valid_message :: "message \<Rightarrow> bool" where
  "valid_message m \<longleftrightarrow> (case msg_content m of Text t \<Rightarrow> t \<noteq> [] | _ \<Rightarrow> True)"

text \<open>The last message of the user; only assistant and tool messages carry rendered content.\<close>

definition last_question :: "message list \<Rightarrow> ustr" where
  "last_question messages =
     (case select1 (\<lambda>m. msg_role m = User_role) (rev messages) of
        None \<Rightarrow> []
      | Some m \<Rightarrow> (case msg_content m of Text t \<Rightarrow> t | _ \<Rightarrow> []))"

text \<open>The locals as they are set up from the checkpoint, before the loop's \<open>try\<close>.\<close>

definition load_locals :: "message list \<Rightarrow> checkpoint \<Rightarrow> exn + locals" where
  "load_locals messages cp =
     (if \<not> list_all valid_reference (cp_sources cp) \<or> \<not> list_all valid_passage (cp_passages cp)
      then Inl Validation_error
      else Inr \<lparr>lo_step = cp_decisions cp, lo_tool_calls = cp_tool_calls cp,
             lo_tools_completed = cp_tools_completed cp, lo_sources = remdups (cp_sources cp),
             lo_search_completed = cp_search_completed cp,
             lo_passages = fold put_passage (cp_passages cp) [],
             lo_question = (case cp_question cp of
                 None \<Rightarrow> last_question messages
               | Some q \<Rightarrow> if q = [] then last_question messages else q),
             lo_history = []\<rparr>)"

text \<open>The nested functions \<open>remaining_seconds\<close>, \<open>check_deadline\<close> and \<open>checkpoint\<close>.\<close>

definition remaining_seconds :: "loop_deps \<Rightarrow> rat \<Rightarrow> (world, exn, allowance) proc" where
  "remaining_seconds deps started =
     bindP tick (\<lambda>now.
     bindP guard (\<lambda>left.
     let remaining = min (Secs (lp_max_duration deps - (now - started))) left
     in if remaining \<le> Secs 0 then raiseP Agent_deadline_exceeded else returnP remaining))"

definition check_deadline :: "loop_deps \<Rightarrow> rat \<Rightarrow> (world, exn, unit) proc" where
  "check_deadline deps started = bindP (remaining_seconds deps started) (\<lambda>_. returnP ())"

definition source_rank :: "source_reference \<Rightarrow> string \<times> nat \<times> nat" where
  "source_rank r = (sr_document_id r, sr_version r, sr_chunk r)"

definition save_locals ::
  "answer_mode \<Rightarrow> locals \<Rightarrow> decision option \<Rightarrow> bool \<Rightarrow> checkpoint \<Rightarrow> checkpoint" where
  "save_locals mode lo pending replay cp =
     cp\<lparr>cp_history := Some (lo_history lo), cp_decisions := lo_step lo, cp_tool_calls := lo_tool_calls lo,
        cp_tools_completed := lo_tools_completed lo, cp_pending := pending, cp_replay_safe := replay,
        cp_answer_mode := Some mode, cp_search_completed := lo_search_completed lo,
        cp_question := Some (lo_question lo), cp_passages := lo_passages lo,
        cp_sources := sort_key source_rank (lo_sources lo)\<rparr>"

definition save_progress ::
  "loop_deps \<Rightarrow> locals \<Rightarrow> decision option \<Rightarrow> bool \<Rightarrow> (world, exn, unit) proc" where
  "save_progress deps lo pending replay = persist (save_locals (lp_mode deps) lo pending replay)"

definition add_message :: "role \<Rightarrow> content \<Rightarrow> locals \<Rightarrow> locals" where
  "add_message r c lo = lo\<lparr>lo_history := lo_history lo @ [\<lparr>msg_role = r, msg_content = c\<rparr>]\<rparr>"

section \<open>One step\<close>

text \<open>What a step ends with: a stored final answer, or the locals of the next step.\<close>

datatype turn = Answer decision | Continue locals

text \<open>The model call with its recovery; \<open>None\<close> after a recovery.\<close>

definition model_recoverable :: "exn \<Rightarrow> bool" where
  "model_recoverable e \<longleftrightarrow>
     (e = Validation_error \<or> is_decision_response_error e) \<and> e \<noteq> Decision_refused_error
     \<or> is_retryable e \<and> \<not> has_retry_after e"

definition retry_prompt :: ustr where
  "retry_prompt = ucs (''The previous decision could not be used. Return one valid decision using the '' @
     ''provided schema. Do not invent tool results.'')"

definition model_step :: "loop_deps \<Rightarrow> rat \<Rightarrow> locals \<Rightarrow> (world, exn, decision option \<times> locals) proc" where
  "model_step deps started lo =
     thenP (save_progress deps lo None False)
     (thenP (emit (Model_call_started (lo_step lo)))
     (tryP
        (bindP (remaining_seconds deps started) (\<lambda>remaining.
         bindP (lp_decide deps (lo_history lo) (tool_names (lp_tools deps)) remaining) (\<lambda>out.
         bindP (liftR (validate_decision (lp_mode deps) out)) (\<lambda>decision.
         thenP (emit (Model_call_completed (lo_step lo))) (returnP (Some decision, lo))))))
        (\<lambda>e. if \<not> model_recoverable e then raiseP e
             else bindP recover (\<lambda>granted.
               if \<not> granted then raiseP e
               else thenP (emit (Recovery_requested (lo_step lo)))
                 (let lo' = add_message User_role (Text retry_prompt) lo
                  in thenP (save_progress deps lo' None False) (returnP (None, lo')))))))"

text \<open>A final answer: citations, evidence review, and the stored result.\<close>

definition review_step :: "loop_deps \<Rightarrow> rat \<Rightarrow> locals \<Rightarrow> document_answer \<Rightarrow> (world, exn, unit) proc" where
  "review_step deps started lo answer =
     bindP (liftR (make_review_request (lo_question lo) answer (lo_passages lo))) (\<lambda>request.
     thenP (emit (Review_started (lo_step lo)))
     (tryP
        (bindP (remaining_seconds deps started) (\<lambda>remaining.
         bindP (case lp_review deps of
                  None \<Rightarrow> raiseP (Other_error ''AttributeError'')
                | Some review \<Rightarrow> review request remaining) (\<lambda>rv.
         thenP (requireP (valid_review rv) Validation_error)
         (thenP (check_deadline deps started)
         (bindP (liftR (make_review_receipt (lp_alnum deps) (lp_digest deps) request rv)) (\<lambda>receipt.
          thenP (persist (\<lambda>cp. cp\<lparr>cp_review := Some receipt\<rparr>))
                (emit (Review_completed (lo_step lo)))))))))
        (\<lambda>e. thenP (emit (Review_failed (lo_step lo))) (raiseP e))))"

definition answer_step :: "loop_deps \<Rightarrow> rat \<Rightarrow> locals \<Rightarrow> decision \<Rightarrow> (world, exn, turn) proc" where
  "answer_step deps started lo decision =
     thenP (case decision of
              Document_final answer \<Rightarrow>
                thenP (liftR (validate_document_answer answer (set (lo_sources lo)) (lo_search_completed lo)))
                      (review_step deps started lo answer)
            | Final_answer _ citations \<Rightarrow> liftR (validate_answer_citations citations (set (lo_sources lo)))
            | Tool_call _ _ \<Rightarrow> returnP ())
     (thenP (persist (\<lambda>cp. cp\<lparr>cp_final := Some decision\<rparr>))
     (thenP (emit (Run_completed (lo_step lo)))
     (returnP (Answer decision))))"

text \<open>A tool call: the pending call is stored before the tool runs.\<close>

definition tool_recoverable :: "bool \<Rightarrow> exn \<Rightarrow> bool" where
  "tool_recoverable safe_replay e \<longleftrightarrow>
     e = Unknown_tool_error \<or> e = Validation_error
     \<or> safe_replay \<and> (e = Redis_error \<or> is_timeout_error e) \<and> e \<noteq> Agent_deadline_exceeded"

fun observe_passages :: "passage list \<Rightarrow> passage list \<Rightarrow> exn + passage list" where
  "observe_passages [] observed = Inr observed"
| "observe_passages (p # ps) observed =
     (if list_ex (\<lambda>q. source_key q = source_key p \<and> q \<noteq> p) observed then Inl Document_review_error
      else observe_passages ps (put_passage p observed))"

definition observe_result :: "loop_deps \<Rightarrow> ustr \<Rightarrow> tool_result \<Rightarrow> locals \<Rightarrow> exn + locals" where
  "observe_result deps name result lo =
     (case result of
        Search_result r \<Rightarrow>
          if name \<noteq> ucs ''search_documents'' then Inr lo
          else
            bindR (if lp_mode deps = Document
                   then bindR (observe_passages (rs_passages r) (lo_passages lo)) (\<lambda>ps.
                          if length ps > 100 \<or> sum_list (map (lp_passage_bytes deps) ps) > 128000
                          then Inl Document_review_error else Inr ps)
                   else Inr (lo_passages lo)) (\<lambda>ps.
            Inr (lo\<lparr>lo_search_completed := True, lo_passages := ps,
                    lo_sources := fold List.insert (map source_key (rs_passages r)) (lo_sources lo)\<rparr>))
      | _ \<Rightarrow> Inr lo)"

definition call_tool ::
  "loop_deps \<Rightarrow> rat \<Rightarrow> tool_context \<Rightarrow> locals \<Rightarrow> ustr \<Rightarrow> arguments \<Rightarrow> (world, exn, tool_result option \<times> locals) proc" where
  "call_tool deps started ctx lo name args =
     (let safe_name = (if name \<in> set (tool_names (lp_tools deps)) then name else ucs ''[unregistered]'');
          handler = (\<lambda>safe e.
            if \<not> tool_recoverable safe e then raiseP e
            else bindP recover (\<lambda>granted.
              if \<not> granted then raiseP e
              else thenP (emit (Recovery_requested (lo_step lo)))
                (let lo' = add_message Tool_role (Error_text safe_name)
                             (add_message Assistant_role (Decision_text (Tool_call name args)) lo)
                 in thenP (save_progress deps lo' None False) (returnP (None, lo')))))
      in (case replay_safe (lp_tools deps) name of
            Inl e \<Rightarrow> handler False e
          | Inr safe \<Rightarrow>
              tryP
                (thenP (save_progress deps lo (Some (Tool_call name args)) safe)
                (bindP (remaining_seconds deps started) (\<lambda>remaining.
                 bindP (with_tool_budget remaining (dispatch_tool (lp_tools deps) name args ctx)) (\<lambda>result.
                 returnP (Some result, lo)))))
                (handler safe)))"

definition tool_step ::
  "loop_deps \<Rightarrow> rat \<Rightarrow> tool_context \<Rightarrow> locals \<Rightarrow> ustr \<Rightarrow> arguments \<Rightarrow> (world, exn, turn) proc" where
  "tool_step deps started ctx lo name args =
     (let lo1 = lo\<lparr>lo_tool_calls := lo_tool_calls lo + 1\<rparr>;
          safe_name = (if name \<in> set (tool_names (lp_tools deps)) then Some name else None)
      in thenP (emit (Tool_call_started (lo_step lo) safe_name))
         (thenP (check_deadline deps started)
         (bindP (call_tool deps started ctx lo1 name args) (\<lambda>(out, lo2).
          case out of
            None \<Rightarrow> returnP (Continue lo2)
          | Some result \<Rightarrow>
              bindP (liftR (observe_result deps name result lo2)) (\<lambda>lo3.
              let lo4 = lo3\<lparr>lo_tools_completed := lo_tools_completed lo3 + 1\<rparr>
              in thenP (emit (Tool_call_completed (lo_step lo) safe_name))
                 (thenP (check_deadline deps started)
                 (let lo5 = add_message Tool_role (Result_text name result)
                              (add_message Assistant_role (Decision_text (Tool_call name args)) lo4)
                  in thenP (save_progress deps lo5 None False) (returnP (Continue lo5)))))))))"

section \<open>The loop\<close>

definition loop_step ::
  "loop_deps \<Rightarrow> rat \<Rightarrow> tool_context \<Rightarrow> nat \<Rightarrow> decision option \<Rightarrow> locals \<Rightarrow> (world, exn, turn) proc" where
  "loop_step deps started ctx step pending lo0 =
     (let lo = lo0\<lparr>lo_step := step\<rparr>
      in thenP (check_deadline deps started)
         (bindP (case pending of
                   Some d \<Rightarrow>
                     bindP (liftR (validate_stored_decision (lp_mode deps) d)) (\<lambda>decision.
                     thenP (emit (Tool_replay_started step)) (returnP (Some decision, lo)))
                 | None \<Rightarrow> model_step deps started lo) (\<lambda>(out, lo1).
          case out of
            None \<Rightarrow> returnP (Continue lo1)
          | Some decision \<Rightarrow>
              thenP (check_deadline deps started)
              (case decision of
                 Tool_call name args \<Rightarrow> tool_step deps started ctx lo1 name args
               | _ \<Rightarrow> answer_step deps started lo1 decision))))"

fun loop_steps ::
  "loop_deps \<Rightarrow> rat \<Rightarrow> tool_context \<Rightarrow> nat list \<Rightarrow> decision option \<Rightarrow> locals \<Rightarrow> (world, exn, decision) proc" where
  "loop_steps deps started ctx [] pending lo =
     thenP (check_deadline deps started) (raiseP Decision_limit_exceeded)"
| "loop_steps deps started ctx (step # steps) pending lo =
     bindP (loop_step deps started ctx step pending lo) (\<lambda>t.
     case t of
       Answer decision \<Rightarrow> returnP decision
     | Continue lo' \<Rightarrow> loop_steps deps started ctx steps None lo')"

definition stop_reason :: "exn \<Rightarrow> string" where
  "stop_reason e =
     (if e = Run_cancelled then ''cancelled''
      else if e = Resource_budget_exceeded then ''budget''
      else if e = Agent_deadline_exceeded then ''deadline''
      else if e = Decision_limit_exceeded then ''decision_limit''
      else ''execution_error'')"

text \<open>The body of the outer \<open>try\<close>: the mode check, the restored history and the steps left.\<close>

definition loop_body ::
  "loop_deps \<Rightarrow> rat \<Rightarrow> tool_context \<Rightarrow> message list \<Rightarrow> checkpoint \<Rightarrow> locals \<Rightarrow> (world, exn, decision) proc" where
  "loop_body deps started ctx messages cp lo =
     (if (cp_answer_mode cp \<noteq> None \<or> cp_history cp \<noteq> None)
         \<and> (case cp_answer_mode cp of None \<Rightarrow> General | Some m \<Rightarrow> m) \<noteq> lp_mode deps
      then raiseP Value_error
      else
        bindP (case cp_history cp of
                 None \<Rightarrow> returnP messages
               | Some h \<Rightarrow> if list_all valid_message h then returnP h else raiseP Validation_error) (\<lambda>history.
        let pending = cp_pending cp;
            first = (if pending = None then lo_step lo + 1 else lo_step lo)
        in loop_steps deps started ctx [max 1 first..<lp_max_decisions deps + 1] pending
             (lo\<lparr>lo_history := history\<rparr>)))"

text \<open>\<open>AgentLoop._run\<close>, with the control of the world as the run's control.\<close>

definition run_loop ::
  "loop_deps \<Rightarrow> tool_context \<Rightarrow> message list \<Rightarrow> (world, exn, decision) proc" where
  "run_loop deps ctx messages =
     bindP tick (\<lambda>started.
     bindP (getP state_of) (\<lambda>cp.
     bindP (liftR (load_locals messages cp)) (\<lambda>lo.
     thenP (emit Run_started)
       (tryP (loop_body deps started ctx messages cp lo)
          (\<lambda>e. thenP (emit (Run_failed (stop_reason e))) (raiseP e))))))"

end
