(* ===== verification/Task_Status.thy ===== *)
theory Task_Status
  imports Model_Adapters Retrieval
begin

text \<open>
  The status tool behind its port: task ownership (\<open>infrastructure/task_ownership.py\<close>), the Celery
  status reader (\<open>infrastructure/task_status_reader.py\<close>, \<open>task_state.py\<close>, the timeouts of
  \<open>tool_io.py\<close>), and the tools an attempt dispatches, with the contract \<open>tool_port\<close> the agent loop
  relies on. Redis and the result backend are read through the world; \<open>kd\<close> is the SHA-256 digest.
\<close>

section \<open>Ownership\<close>

definition owner_key :: "(ustr \<Rightarrow> string) \<Rightarrow> ustr \<Rightarrow> string" where
  "owner_key kd task = ''crewos:task-owner:'' @ kd task"

text \<open>\<open>register\<close>: \<open>SET \<dots> NX\<close>; the expiry of the key is not modelled.\<close>

definition register_owner ::
  "(ustr \<Rightarrow> string) \<Rightarrow> ustr \<Rightarrow> string \<Rightarrow> (string \<rightharpoonup> string, exn, unit) tx" where
  "register_owner kd task t store =
     (if store (owner_key kd task) \<noteq> None then Inl (Other_error ''RuntimeError'')
      else Inr ((), store(owner_key kd task \<mapsto> t)))"

record task_backend =
  tb_digest :: "ustr \<Rightarrow> string"
  tb_owner :: "nat \<Rightarrow> string \<Rightarrow> allowance \<Rightarrow> exn + string option"
  tb_state :: "nat \<Rightarrow> ustr \<Rightarrow> allowance \<Rightarrow> exn + string"
  tb_timeout :: rat

text \<open>
  \<open>ownership_client\<close> and \<open>bounded_result\<close> inside an attempt: one read, whose timeout is the tool's remaining
  time or the operation timeout, whichever is shorter.
\<close>

definition ownership_client :: "task_backend \<Rightarrow> string \<Rightarrow> (world, exn, string option) proc" where
  "ownership_client tb key =
     bindP tool_remaining (\<lambda>left.
     let limit = min left (Secs (tb_timeout tb)) in external (\<lambda>n. tb_owner tb n key limit))"

definition bounded_result :: "task_backend \<Rightarrow> ustr \<Rightarrow> (world, exn, string) proc" where
  "bounded_result tb task =
     bindP tool_remaining (\<lambda>left.
     let limit = min left (Secs (tb_timeout tb)) in external (\<lambda>n. tb_state tb n task limit))"

definition require_owner :: "task_backend \<Rightarrow> ustr \<Rightarrow> string \<Rightarrow> (world, exn, unit) proc" where
  "require_owner tb task t =
     bindP (ownership_client tb (owner_key (tb_digest tb) task)) (\<lambda>owner.
     if owner \<noteq> Some t then raiseP (Http_exception 404) else returnP ())"

text \<open>\<open>map_celery_state\<close>\<close>

definition map_celery_state :: "string \<Rightarrow> string" where
  "map_celery_state s =
     (if s = ''PENDING'' then ''pending'' else if s = ''STARTED'' then ''running''
      else if s = ''RETRY'' then ''retrying'' else if s = ''SUCCESS'' then ''succeeded''
      else if s = ''FAILURE'' then ''failed'' else if s = ''REVOKED'' then ''revoked'' else ''unknown'')"

text \<open>\<open>CeleryTaskStatusReader.read\<close>: a refused owner is an unavailable task, without a backend read.\<close>

definition read_task_status :: "task_backend \<Rightarrow> ustr \<Rightarrow> string \<Rightarrow> (world, exn, tool_result) proc" where
  "read_task_status tb task t =
     bindP (tryP (thenP (require_owner tb task t) (returnP True))
                 (\<lambda>e. if e = Http_exception 404 then returnP False else raiseP e)) (\<lambda>owned.
     if \<not> owned then returnP (Task_result None task)
     else
       bindP (bounded_result tb task) (\<lambda>state. returnP (Task_result (Some (map_celery_state state)) task)))"

lemma register_then_owned:
  "register_owner kd task t store = Inr (u, store') \<Longrightarrow>
     store' (owner_key kd task) = Some t \<and> register_owner kd task t' store' = Inl (Other_error ''RuntimeError'')"
  by (auto simp: register_owner_def split: if_splits)

text \<open>
  C29. Task status. The status tool answers only a caller with the \<open>agent_task.read\<close> grant, about the
  task it was asked for; it reports a status only when the ownership store named the caller's own
  tenant as the owner of that task, and then the backend's state of that task.
\<close>

theorem task_status_needs_owner:
  assumes "get_agent_task_status (read_task_status tb) task ctx w = (Inr (Task_result status task'), w')"
  shows "''agent_task.read'' \<in> permissions ctx \<and> task' = task \<and>
    (status \<noteq> None \<longrightarrow>
      (\<exists>n left m left' s. tb_owner tb n (owner_key (tb_digest tb) task) left = Inr (Some (tenant_id ctx)) \<and>
         tb_state tb m task left' = Inr s \<and> status = Some (map_celery_state s)))"
proof -
  have perm: "''agent_task.read'' \<in> permissions ctx"
    and rd: "read_task_status tb task (tenant_id ctx) w = (Inr (Task_result status task'), w')"
    using assms by (auto simp: get_agent_task_status_def authorized_eq raiseP_def split: if_splits)
  have "wp (read_task_status tb task (tenant_id ctx))
     (\<lambda>r _. \<exists>st. r = Task_result st task \<and> (st \<noteq> None \<longrightarrow>
       (\<exists>n left m left' s. tb_owner tb n (owner_key (tb_digest tb) task) left = Inr (Some (tenant_id ctx)) \<and>
         tb_state tb m task left' = Inr s \<and> st = Some (map_celery_state s)))) (\<lambda>_ _. True) w"
  proof -
    have rem: "wp tool_remaining (\<lambda>_ _. True) (\<lambda>_ _. True) v" for v by (simp add: wp_def split: prod.split sum.split)
    have own: "wp (thenP (require_owner tb task (tenant_id ctx)) (returnP True))
        (\<lambda>ok _. ok \<and> (\<exists>n left. tb_owner tb n (owner_key (tb_digest tb) task) left = Inr (Some (tenant_id ctx)))) (\<lambda>_ _. True) v" for v
      unfolding require_owner_def ownership_client_def Let_def wp_rules
      by (rule wp_mono [OF rem]) (auto simp: wp_rules split: sum.split)
    show ?thesis unfolding read_task_status_def wp_bindP wp_tryP
    proof (rule wp_mono [OF own], goal_cases)
      case (1 ok v)
      then show ?case
        by (simp add: wp_rules bounded_result_def Let_def) (auto simp: wp_rules intro!: wp_mono [OF rem] split: sum.split, blast)
    qed (auto simp: wp_rules)
  qed
  from wp_returns [OF this rd] perm show ?thesis by auto
qed

section \<open>The tools of an attempt\<close>

text \<open>
  The contract between the loop and its tools: whatever a tool does, it moves the attempt inside its
  frame and touches the run table only through its operations.
\<close>

locale tool_port =
  fixes tools :: "world tool_definition list"
  assumes tool_frame: "tool \<in> set tools \<Longrightarrow> preserves (frame w0) (tl_call tool args ctx)"
    and tool_reach: "tool \<in> set tools \<Longrightarrow> preserves (attempt_reach kd b cfg db0) (tl_call tool args ctx)"
    and tool_budget: "tool \<in> set tools \<Longrightarrow> within_budget w \<Longrightarrow>
       wp (tl_call tool args ctx) (\<lambda>_. within_budget) (\<lambda>_. within_budget) w"
    and tool_valid: "tool \<in> set tools \<Longrightarrow> tl_call tool args ctx w = (Inr (Search_result r), w') \<Longrightarrow>
       valid_retrieval_result r"
begin

lemma get_tool_mem: "get_tool tools name = Inr tool \<Longrightarrow> tool \<in> set tools"
  by (auto simp: get_tool_def split: option.splits dest: select1_SomeD)

lemma dispatch_frame: "preserves (frame w0) (dispatch_tool tools name args ctx)"
  by (auto simp: dispatch_tool_def preserves_def wp_rules
      intro!: preservesD [OF tool_frame] dest: get_tool_mem split: sum.split)

lemma dispatch_reach: "preserves (attempt_reach kd b cfg db0) (dispatch_tool tools name args ctx)"
  by (auto simp: dispatch_tool_def preserves_def wp_rules
      intro!: preservesD [OF tool_reach] dest: get_tool_mem split: sum.split)

lemma dispatch_budget: "preserves within_budget (dispatch_tool tools name args ctx)"
  by (auto simp: dispatch_tool_def preserves_def wp_rules
      intro!: tool_budget dest: get_tool_mem split: sum.split)

lemma dispatch_valid:
  "dispatch_tool tools name args ctx w = (Inr (Search_result r), w') \<Longrightarrow> valid_retrieval_result r"
  by (auto simp: dispatch_tool_def bindP_def liftR_def dest: get_tool_mem tool_valid split: sum.splits)

end

text \<open>\<open>ConfiguredDocumentCorpusReader\<close>: \<open>corpus n\<close> is the document database at the world's \<open>n\<close>-th reading.\<close>

definition world_corpus ::
  "(version_row \<Rightarrow> nat) \<Rightarrow> pynum \<Rightarrow> pynum \<Rightarrow> (nat \<Rightarrow> doc_db) \<Rightarrow> world corpus" where
  "world_corpus json_bytes max_documents max_bytes corpus t =
     external (\<lambda>n. bindR (read_latest_documents json_bytes t max_documents max_bytes (corpus n)) (\<lambda>(ds, _). Inr ds))"

text \<open>The dispatcher's tools for an attempt, as \<open>build_tool_dispatcher\<close> registers them.\<close>

definition agent_tools ::
  "task_backend \<Rightarrow> (retrieval_result \<Rightarrow> nat) \<Rightarrow> (ustr \<Rightarrow> ustr list) \<Rightarrow> bm25_cfg \<Rightarrow> world corpus \<Rightarrow> world tool_definition list" where
  "agent_tools tb result_bytes words bm corpus =
     (case build_tool_dispatcher (read_task_status tb) result_bytes (bm25_search words bm corpus) of
        Inl _ \<Rightarrow> [] | Inr registry \<Rightarrow> registry)"

lemma agent_tools_eq:
  "agent_tools tb rb words bm corpus =
     [status_tool (read_task_status tb), search_tool rb (bm25_search words bm corpus)]"
  by (simp add: agent_tools_def build_tool_dispatcher_eq)

lemma preserves_read_task_status:
  assumes "preserves I tool_remaining" and "\<And>f :: nat \<Rightarrow> exn + string option. preserves I (external f)"
    and "\<And>f :: nat \<Rightarrow> exn + string. preserves I (external f)"
  shows "preserves I (read_task_status tb task t)"
  unfolding read_task_status_def require_owner_def ownership_client_def bounded_result_def Let_def
  by (auto intro!: preserves_intro assms)

lemma preserves_bm25_search:
  assumes "\<And>t. preserves I (corpus t)"
  shows "preserves I (bm25_search words bm corpus request t)"
  unfolding bm25_search_def Let_def by (auto intro!: preserves_intro assms)

lemma preserves_tool_calls:
  assumes tool: "tool \<in> set [status_tool reader, search_tool rb retriever]"
    and "\<And>task t. preserves I (reader task t)" and "\<And>request t. preserves I (retriever request t)"
  shows "preserves I (tl_call tool args ctx)"
proof -
  have "preserves I (search_documents rb retriever request ctx)" for request
    unfolding search_documents_def facade_search_def facade_search_inner_def
    by (auto intro!: preserves_intro assms split: option.split)
  moreover have "preserves I (get_agent_task_status reader task ctx)" for task
    unfolding get_agent_task_status_def by (intro preserves_policy_execute assms)
  ultimately show ?thesis using tool
    by (auto simp: status_tool_def search_tool_def intro!: preserves_intro)
qed

lemma read_task_status_result:
  "wp (read_task_status tb task t) (\<lambda>res _. \<exists>st. res = Task_result st task) (\<lambda>_ _. True) w"
proof -
  have any: "wp m (\<lambda>_ _. True) (\<lambda>_ _. True) v" for m :: "(world, exn, 'x) proc" and v
    by (simp add: wp_def split: prod.split sum.split)
  note remaining = any [of tool_remaining]
  show ?thesis unfolding read_task_status_def wp_bindP
    by (rule wp_mono [OF any])
      (auto simp: wp_rules bounded_result_def Let_def intro!: wp_mono [OF remaining] split: sum.split)
qed

lemma tool_call_valid:
  assumes "tool \<in> set [status_tool (read_task_status tb), search_tool rb retriever]"
  shows "wp (tl_call tool args ctx) (\<lambda>res _. \<forall>r. res = Search_result r \<longrightarrow> valid_retrieval_result r) (\<lambda>_ _. True) w"
proof -
  have status: "wp (get_agent_task_status (read_task_status tb) task ctx)
      (\<lambda>res _. \<forall>r. res = Search_result r \<longrightarrow> valid_retrieval_result r) (\<lambda>_ _. True) v" for task v
    unfolding get_agent_task_status_def authorized_eq
    by (auto simp: wp_rules intro: wp_mono [OF read_task_status_result])
  have search: "wp (search_documents rb retriever request ctx) (\<lambda>r _. valid_retrieval_result r) (\<lambda>_ _. True) v" for request v
  proof -
    have any: "wp m (\<lambda>_ _. True) (\<lambda>_ _. True) u" for m :: "(world, exn, retrieval_result option) proc" and u
      by (simp add: wp_def split: prod.split sum.split)
    show ?thesis
      unfolding search_documents_def facade_search_def authorized_nested facade_search_inner_def
      by (auto simp: wp_rules intro!: wp_mono [OF any] split: option.split)
  qed
  from assms show ?thesis
    by (auto simp: status_tool_def search_tool_def wp_rules intro!: status wp_mono [OF search] split: sum.split)
qed

lemma budget_preserved [preserves_intro]:
  "preserves within_budget tool_remaining" "preserves within_budget (external f)"
proof -
  show "preserves within_budget (external f)"
    by (rule preservesI) (simp add: wp_external split: sum.split)
  have "preserves within_budget tick" by (rule preservesI) (simp add: wp_def tick_def)
  then show "preserves within_budget tool_remaining"
    unfolding tool_remaining_def by (auto intro!: preserves_intro preserves_budget_guard split: option.split)
qed

interpretation dispatcher: tool_port "agent_tools tb rb words bm (world_corpus jb md mb corpus)"
  for tb rb words bm jb md mb corpus
proof
  fix tool and args and ctx
  assume t: "tool \<in> set (agent_tools tb rb words bm (world_corpus jb md mb corpus))"
  show "preserves (frame w0) (tl_call tool args ctx)" for w0
    using t unfolding agent_tools_eq
    by (rule preserves_tool_calls)
      (auto intro!: preserves_read_task_status preserves_bm25_search preserves_intro simp: world_corpus_def)
  show "preserves (attempt_reach kd b cfg db0) (tl_call tool args ctx)" for kd b cfg db0
    using t unfolding agent_tools_eq
    by (rule preserves_tool_calls)
      (auto intro!: preserves_read_task_status preserves_bm25_search preserves_intro simp: world_corpus_def)
  have "preserves within_budget (tl_call tool args ctx)"
    using t unfolding agent_tools_eq
    by (rule preserves_tool_calls)
      (auto intro!: preserves_read_task_status preserves_bm25_search preserves_intro simp: world_corpus_def)
  then show "within_budget w \<Longrightarrow> wp (tl_call tool args ctx) (\<lambda>_. within_budget) (\<lambda>_. within_budget) w" for w
    by (rule preservesD)
  show "valid_retrieval_result r" if "tl_call tool args ctx w = (Inr (Search_result r), w')" for w r w'
  proof -
    have "wp (tl_call tool args ctx) (\<lambda>res _. \<forall>r. res = Search_result r \<longrightarrow> valid_retrieval_result r) (\<lambda>_ _. True) w"
      using t unfolding agent_tools_eq by (rule tool_call_valid)
    from wp_returns [OF this that] show ?thesis by blast
  qed
qed

end
