(* ===== verification/Agent_Safety.thy ===== *)
theory Agent_Safety
  imports Agent_Loop Model_Adapters Task_Status
begin

text \<open>
  What the agent loop guarantees for any provider, reviewer and tools that keep their contracts (the
  locale \<open>loop_ports\<close>), and the loop the program builds (\<open>core/agent_setup.py\<close>), on which the locale is
  interpreted.
\<close>

section \<open>What the log and the checkpoint record\<close>

definition model_calls :: "log_event list \<Rightarrow> nat" where
  "model_calls l = length (filter (\<lambda>e. case e of Model_call_started _ \<Rightarrow> True | _ \<Rightarrow> False) l)"

definition tool_calls :: "log_event list \<Rightarrow> nat" where
  "tool_calls l = length (filter (\<lambda>e. case e of Tool_call_started _ _ \<Rightarrow> True | _ \<Rightarrow> False) l)"

definition recoveries :: "log_event list \<Rightarrow> nat" where
  "recoveries l = length (filter (\<lambda>e. case e of Recovery_requested _ \<Rightarrow> True | _ \<Rightarrow> False) l)"

lemma log_counts [simp]:
  "model_calls (l @ l') = model_calls l + model_calls l'" "tool_calls (l @ l') = tool_calls l + tool_calls l'"
  "recoveries (l @ l') = recoveries l + recoveries l'"
  by (simp_all add: model_calls_def tool_calls_def recoveries_def)

definition pending_ok :: "checkpoint \<Rightarrow> bool" where
  "pending_ok cp \<longleftrightarrow> (case cp_pending cp of None \<Rightarrow> True | Some (Tool_call _ _) \<Rightarrow> True | Some _ \<Rightarrow> False)"

lemma progress_fields:
  assumes "progress cp = progress cp'"
  shows "cp_pending cp = cp_pending cp'" "cp_recoveries cp = cp_recoveries cp'" "cp_answer_mode cp = cp_answer_mode cp'"
    "cp_search_completed cp = cp_search_completed cp'" "cp_question cp = cp_question cp'"
    "cp_passages cp = cp_passages cp'" "cp_sources cp = cp_sources cp'" "cp_review cp = cp_review cp'"
    "cp_history cp = cp_history cp'" "cp_final cp = cp_final cp'" "cp_decisions cp = cp_decisions cp'"
proof -
  show "cp_pending cp = cp_pending cp'" "cp_recoveries cp = cp_recoveries cp'" "cp_answer_mode cp = cp_answer_mode cp'"
    "cp_search_completed cp = cp_search_completed cp'" "cp_question cp = cp_question cp'"
    "cp_passages cp = cp_passages cp'" "cp_sources cp = cp_sources cp'" "cp_review cp = cp_review cp'"
    "cp_history cp = cp_history cp'" "cp_final cp = cp_final cp'" "cp_decisions cp = cp_decisions cp'"
    by (rule assms [THEN arg_cong, of cp_pending, unfolded progress_def, simplified]
        assms [THEN arg_cong, of cp_recoveries, unfolded progress_def, simplified]
        assms [THEN arg_cong, of cp_answer_mode, unfolded progress_def, simplified]
        assms [THEN arg_cong, of cp_search_completed, unfolded progress_def, simplified]
        assms [THEN arg_cong, of cp_question, unfolded progress_def, simplified]
        assms [THEN arg_cong, of cp_passages, unfolded progress_def, simplified]
        assms [THEN arg_cong, of cp_sources, unfolded progress_def, simplified]
        assms [THEN arg_cong, of cp_review, unfolded progress_def, simplified]
        assms [THEN arg_cong, of cp_history, unfolded progress_def, simplified]
        assms [THEN arg_cong, of cp_final, unfolded progress_def, simplified]
        assms [THEN arg_cong, of cp_decisions, unfolded progress_def, simplified])+
qed

lemma pending_ok_progress: "progress cp = progress cp' \<Longrightarrow> pending_ok cp = pending_ok cp'"
  using progress_fields(1) [of cp cp'] by (simp add: pending_ok_def)

text \<open>
  From \<open>w0\<close> to \<open>w\<close> at most \<open>k\<close> model calls and \<open>l\<close> tool calls were logged, every logged recovery was
  paid for in the checkpoint, and the checkpoint's pending call is a tool call.
\<close>

definition moved :: "nat \<Rightarrow> nat \<Rightarrow> world \<Rightarrow> world \<Rightarrow> bool" where
  "moved k l w0 w \<longleftrightarrow>
     model_calls (w_log w) \<le> model_calls (w_log w0) + k \<and> tool_calls (w_log w) \<le> tool_calls (w_log w0) + l \<and>
     recoveries (w_log w) + cp_recoveries (state_of w0) \<le> recoveries (w_log w0) + cp_recoveries (state_of w) \<and>
     cp_recoveries (state_of w) \<le> max (cp_recoveries (state_of w0)) (ct_max_recoveries (w_control w0)) \<and>
     settings_of (w_control w) = settings_of (w_control w0) \<and>
     (pending_ok (state_of w0) \<longrightarrow> pending_ok (state_of w))"

lemma moved_refl: "moved 0 0 w w"
  by (simp add: moved_def)

lemma moved_mono: "moved k l w0 w \<Longrightarrow> k \<le> k' \<Longrightarrow> l \<le> l' \<Longrightarrow> moved k' l' w0 w"
  by (auto simp: moved_def)

lemma moved_frame: "moved k l w0 w \<Longrightarrow> frame w w' \<Longrightarrow> moved k l w0 w'"
  using progress_fields(2) [of "state_of w'" "state_of w"] pending_ok_progress [of "state_of w'" "state_of w"]
  by (simp add: moved_def frame_def)

lemma preserves_of_frame:
  assumes "\<And>w0. preserves (frame w0) m" and "\<And>w w'. I w \<Longrightarrow> frame w w' \<Longrightarrow> I w'"
  shows "preserves I m"
  by (rule preservesI) (use assms in \<open>auto intro: wp_mono [OF preservesD [OF assms(1) frame_refl]]\<close>)

lemma wp_emit [wp_rules]: "wp (emit e) Q E w = Q () (w\<lparr>w_log := w_log w @ [e]\<rparr>)"
  by (simp add: emit_def wp_rules)

fun counted_event :: "log_event \<Rightarrow> bool" where
  "counted_event (Model_call_started _) = True"
| "counted_event (Tool_call_started _ _) = True"
| "counted_event (Recovery_requested _) = True"
| "counted_event _ = False"

lemma counted_event_simps [simp]:
  "model_calls [Model_call_started n] = 1" "tool_calls [Model_call_started n] = 0" "recoveries [Model_call_started n] = 0"
  "model_calls [Tool_call_started n x] = 0" "tool_calls [Tool_call_started n x] = 1" "recoveries [Tool_call_started n x] = 0"
  "model_calls [Recovery_requested n] = 0" "tool_calls [Recovery_requested n] = 0" "recoveries [Recovery_requested n] = 1"
  "\<not> counted_event e \<Longrightarrow> model_calls [e] = 0" "\<not> counted_event e \<Longrightarrow> tool_calls [e] = 0"
  "\<not> counted_event e \<Longrightarrow> recoveries [e] = 0"
  by (auto simp: model_calls_def tool_calls_def recoveries_def split: log_event.splits)

lemma moved_emit [preserves_intro]: "\<not> counted_event e \<Longrightarrow> preserves (moved k l w0) (emit e)"
  by (rule preservesI) (simp add: wp_emit moved_def)

lemma wp_persist_states:
  assumes "\<And>v. state_of v = f (state_of w) \<Longrightarrow> settings_of (w_control v) = settings_of (w_control w) \<Longrightarrow>
      w_log v = w_log w \<Longrightarrow> Q () v \<and> (\<forall>e. E e v)"
  shows "wp (persist f) Q E w"
  by (rule wp_persist) (use assms in \<open>simp_all add: set_state_def set_control_def\<close>)

lemma moved_persist [preserves_intro]:
  assumes "\<And>cp. cp_recoveries (f cp) = cp_recoveries cp" and "\<And>cp. pending_ok cp \<Longrightarrow> pending_ok (f cp)"
  shows "preserves (moved k l w0) (persist f)"
  by (rule preservesI, rule wp_persist_states) (use assms in \<open>auto simp: moved_def\<close>)

lemma moved_save [preserves_intro]:
  "case pending of None \<Rightarrow> True | Some (Tool_call _ _) \<Rightarrow> True | Some _ \<Rightarrow> False \<Longrightarrow>
     preserves (moved k l w0) (save_progress deps lo pending replay)"
  unfolding save_progress_def
  by (rule moved_persist) (auto simp: save_locals_def pending_ok_def split: option.splits)

lemma moved_recover:
  assumes "preserves (moved k l w0) m"
  shows "preserves (moved k l w0) (bindP recover (\<lambda>granted.
     if \<not> granted then raiseP e else thenP (emit (Recovery_requested s)) m))"
proof (rule preservesI)
  fix w
  assume w: "moved k l w0 w"
  have paid: "wp (thenP (emit (Recovery_requested s)) m) (\<lambda>_. moved k l w0) (\<lambda>_. moved k l w0) v"
    if v: "state_of v = (state_of w)\<lparr>cp_recoveries := cp_recoveries (state_of w) + 1\<rparr>"
      "settings_of (w_control v) = settings_of (w_control w)" "w_log v = w_log w"
      and more: "cp_recoveries (state_of w) < ct_max_recoveries (w_control w)" for v
  proof -
    have "ct_max_recoveries (w_control w) = ct_max_recoveries (w_control w0)"
      using w by (auto simp: moved_def settings_of_def dest!: arg_cong [where f = ct_max_recoveries])
    then have "moved k l w0 (v\<lparr>w_log := w_log v @ [Recovery_requested s]\<rparr>)"
      using w v more by (auto simp: moved_def pending_ok_def)
    then show ?thesis unfolding wp_thenP wp_emit by (rule preservesD [OF assms])
  qed
  show "wp (bindP recover (\<lambda>granted. if \<not> granted then raiseP e else thenP (emit (Recovery_requested s)) m))
      (\<lambda>_. moved k l w0) (\<lambda>_. moved k l w0) w"
  proof (cases "cp_recoveries (state_of w) \<ge> ct_max_recoveries (w_control w)")
    case True
    with w show ?thesis by (simp add: recover_def wp_rules Let_def)
  next
    case False
    have "moved k l w0 v" if "state_of v = (state_of w)\<lparr>cp_recoveries := cp_recoveries (state_of w) + 1\<rparr>"
      "settings_of (w_control v) = settings_of (w_control w)" "w_log v = w_log w" for v
    proof -
      have "ct_max_recoveries (w_control w) = ct_max_recoveries (w_control w0)"
        using w by (auto simp: moved_def settings_of_def dest!: arg_cong [where f = ct_max_recoveries])
      then show ?thesis using w that False by (auto simp: moved_def pending_ok_def)
    qed
    with False show ?thesis
      by (simp add: recover_def wp_bindP wp_getP Let_def wp_if wp_thenP)
        (rule wp_persist_states, simp add: wp_returnP wp_thenP [symmetric] paid)
  qed
qed

section \<open>Budgets\<close>

text \<open>A procedure that keeps an invariant when it returns.\<close>

definition keeps :: "('s \<Rightarrow> bool) \<Rightarrow> ('s, 'e, 'a) proc \<Rightarrow> bool" where
  "keeps I m \<longleftrightarrow> (\<forall>s. I s \<longrightarrow> wp m (\<lambda>_. I) (\<lambda>_ _. True) s)"

lemma keepsI: "(\<And>s. I s \<Longrightarrow> wp m (\<lambda>_. I) (\<lambda>_ _. True) s) \<Longrightarrow> keeps I m"
  by (simp add: keeps_def)

lemma keepsD: "keeps I m \<Longrightarrow> I s \<Longrightarrow> wp m (\<lambda>_. I) (\<lambda>_ _. True) s"
  by (simp add: keeps_def)

lemma keeps_preserves: "preserves I m \<Longrightarrow> keeps I m"
  by (auto simp: keeps_def preserves_def elim!: wp_mono)

named_theorems keeps_intro \<open>invariants kept by returning procedures\<close>

lemma keeps_bindP [keeps_intro]: "keeps I m \<Longrightarrow> (\<And>x. keeps I (f x)) \<Longrightarrow> keeps I (bindP m f)"
  by (auto simp: keeps_def wp_bindP elim!: wp_mono)

lemma keeps_thenP [keeps_intro]: "keeps I m \<Longrightarrow> keeps I k \<Longrightarrow> keeps I (thenP m k)"
  by (auto simp: keeps_def wp_thenP elim!: wp_mono)

lemma keeps_basic [keeps_intro]:
  "keeps I (returnP x)" "keeps I (raiseP e)" "keeps I (getP f)" "keeps I (liftR r)" "keeps I (requireP b e)"
  by (intro keeps_preserves preserves_basic)+

lemma keeps_if [keeps_intro]: "keeps I m \<Longrightarrow> keeps I k \<Longrightarrow> keeps I (if b then m else k)"
  by simp

text \<open>A handler that logs and raises again.\<close>

lemma keeps_reraise [keeps_intro]: "keeps I m \<Longrightarrow> keeps I (tryP m (\<lambda>e. thenP (emit (f e)) (raiseP (g e))))"
  by (auto simp: keeps_def wp_rules elim!: wp_mono)

lemma over_budget_settings: "settings_of c = settings_of c' \<Longrightarrow> over_budget c = over_budget c'"
proof -
  assume eq: "settings_of c = settings_of c'"
  have "ct_max_tokens c = ct_max_tokens c'" "ct_max_cost c = ct_max_cost c'"
    using arg_cong [OF eq, of ct_max_tokens] arg_cong [OF eq, of ct_max_cost] by (simp_all add: settings_of_def)
  then show ?thesis by (intro ext) (simp add: over_budget_def)
qed

lemma budget_emit: "preserves within_budget (emit e)"
  by (rule preservesI) (simp add: wp_emit)

lemma budget_persist:
  assumes "\<And>cp. cp_reserved_tokens (f cp) = cp_reserved_tokens cp" and "\<And>cp. cp_reserved_cost (f cp) = cp_reserved_cost cp"
  shows "preserves within_budget (persist f)"
proof (rule preservesI, rule wp_persist_states)
  fix w v
  assume "within_budget w" and "state_of v = f (state_of w)" and eq: "settings_of (w_control v) = settings_of (w_control w)"
  then show "within_budget v \<and> (\<forall>e :: exn. within_budget v)"
    using over_budget_settings [OF eq] assms by (simp add: within_budget_def)
qed

lemma budget_recover: "preserves within_budget recover"
proof -
  have "preserves within_budget (persist (\<lambda>cp. cp\<lparr>cp_recoveries := n\<rparr>))" for n
    by (rule budget_persist) simp_all
  then show ?thesis unfolding recover_def Let_def by (intro preserves_intro)
qed

lemma budget_tick: "preserves within_budget tick"
  by (rule preservesI) (simp add: wp_def tick_def)

lemma budget_with_tool_budget:
  "preserves within_budget body \<Longrightarrow> preserves within_budget (with_tool_budget a body)"
  unfolding with_tool_budget_def
  by (auto intro!: preserves_intro budget_tick
      simp: within_budget_def over_budget_def set_tool_deadline_def set_control_def)

section \<open>Answers\<close>

text \<open>The checkpoint holds the locals an answer is checked against.\<close>

definition recorded :: "answer_mode \<Rightarrow> locals \<Rightarrow> world \<Rightarrow> bool" where
  "recorded mode lo w \<longleftrightarrow> cp_answer_mode (state_of w) = Some mode \<and>
     cp_search_completed (state_of w) = lo_search_completed lo \<and> cp_question (state_of w) = Some (lo_question lo) \<and>
     cp_passages (state_of w) = lo_passages lo \<and> set (cp_sources (state_of w)) = set (lo_sources lo)"

text \<open>Every observed passage satisfies \<open>G\<close>, every observed source \<open>R\<close>.\<close>

definition evidence_ok :: "(passage \<Rightarrow> bool) \<Rightarrow> (source_reference \<Rightarrow> bool) \<Rightarrow> passage list \<Rightarrow> source_reference list \<Rightarrow> bool" where
  "evidence_ok G R ps rs \<longleftrightarrow> (\<forall>p \<in> set ps. G p) \<and> (\<forall>r \<in> set rs. R r)"

abbreviation locals_ok :: "(passage \<Rightarrow> bool) \<Rightarrow> (source_reference \<Rightarrow> bool) \<Rightarrow> locals \<Rightarrow> bool" where
  "locals_ok G R lo \<equiv> evidence_ok G R (lo_passages lo) (lo_sources lo)"

definition result_ok :: "(passage \<Rightarrow> bool) \<Rightarrow> tool_result \<Rightarrow> bool" where
  "result_ok G res \<longleftrightarrow> (case res of Search_result r \<Rightarrow> \<forall>p \<in> set (rs_passages r). G p | _ \<Rightarrow> True)"

text \<open>A stored answer together with the evidence in the checkpoint that justifies it.\<close>

definition answered :: "(nat \<Rightarrow> bool) \<Rightarrow> (review_request \<Rightarrow> string) \<Rightarrow> answer_mode \<Rightarrow> decision \<Rightarrow> checkpoint \<Rightarrow> bool" where
  "answered alnum digest mode d cp \<longleftrightarrow> cp_final cp = Some d \<and> valid_decision d \<and>
     (case d of
        Tool_call _ _ \<Rightarrow> False
      | Final_answer _ citations \<Rightarrow> mode = General \<and> set citations \<subseteq> set (cp_sources cp)
      | Document_final a \<Rightarrow> mode = Document \<and> cp_answer_mode cp = Some Document \<and>
          validate_document_answer a (set (cp_sources cp)) (cp_search_completed cp) = Inr () \<and>
          (\<exists>q request receipt. cp_question cp = Some q \<and> make_review_request q a (cp_passages cp) = Inr request \<and>
             cp_review cp = Some receipt \<and> validate_review_receipt alnum digest request receipt = Inr ()))"

lemma recorded_frame: "recorded mode lo w \<Longrightarrow> frame w w' \<Longrightarrow> recorded mode lo w'"
  using progress_fields(3-7) [of "state_of w'" "state_of w"] by (simp add: recorded_def frame_def)

lemma recorded_log [simp]: "recorded mode lo (w\<lparr>w_log := l\<rparr>) = recorded mode lo w"
  by (simp add: recorded_def)

lemma wp_same: "m s = m' s \<Longrightarrow> wp m' Q E s \<Longrightarrow> wp m Q E s"
  by (simp add: wp_def)

lemma wp_any: "wp m (\<lambda>_ _. True) (\<lambda>_ _. True) w"
  by (simp add: wp_def split: prod.split sum.split)

lemma save_progress_recorded:
  "wp (save_progress deps lo pending replay) (\<lambda>_. recorded (lp_mode deps) lo) (\<lambda>_ _. True) w"
  unfolding save_progress_def
  by (rule wp_persist_states) (simp add: recorded_def save_locals_def)

lemma wp_with_tool_budget:
  assumes "\<And>v. wp body (\<lambda>x _. P x) (\<lambda>_ _. True) v"
  shows "wp (with_tool_budget a body) (\<lambda>x _. P x) (\<lambda>_ _. True) w"
  unfolding with_tool_budget_def using assms by (auto simp: wp_rules tick_def wp_def [of tick] split: prod.split)

lemma evidence_put_passage: "evidence_ok G R ps rs \<Longrightarrow> G p \<Longrightarrow> evidence_ok G R (put_passage p ps) rs"
  by (auto simp: evidence_ok_def put_passage_def)

lemma evidence_fold_put: "\<forall>p \<in> set qs. G p \<Longrightarrow> evidence_ok G R ps rs \<Longrightarrow> evidence_ok G R (fold put_passage qs ps) rs"
  by (induction qs arbitrary: ps) (auto intro: evidence_put_passage)

lemma observe_passages_ok:
  "observe_passages qs ps = Inr ps' \<Longrightarrow> \<forall>p \<in> set qs. G p \<Longrightarrow> evidence_ok G R ps rs \<Longrightarrow> evidence_ok G R ps' rs"
  by (induction qs arbitrary: ps) (auto split: if_splits intro: evidence_put_passage)

lemma set_fold_insert: "set (fold List.insert xs ys) = set xs \<union> set ys"
  by (induction xs arbitrary: ys) auto

lemma observe_result_ok:
  assumes "observe_result deps name res lo = Inr lo'" and "locals_ok G R lo" and "result_ok G res"
    and key: "\<And>p. G p \<Longrightarrow> R (source_key p)"
  shows "locals_ok G R lo'"
proof (cases res)
  case (Search_result r)
  show ?thesis
  proof (cases "name = ucs ''search_documents''")
    case True
    obtain ps where ps: "(if lp_mode deps = Document
        then bindR (observe_passages (rs_passages r) (lo_passages lo)) (\<lambda>ps.
               if length ps > 100 \<or> sum_list (map (lp_passage_bytes deps) ps) > 128000
               then Inl Document_review_error else Inr ps)
        else Inr (lo_passages lo)) = Inr ps"
      and lo': "lo' = lo\<lparr>lo_search_completed := True, lo_passages := ps,
                    lo_sources := fold List.insert (map source_key (rs_passages r)) (lo_sources lo)\<rparr>"
      using assms(1) Search_result True by (auto simp: observe_result_def)
    have good: "\<forall>p \<in> set (rs_passages r). G p" using assms(3) Search_result by (simp add: result_ok_def)
    have "evidence_ok G R ps (lo_sources lo)"
      using ps assms(2) observe_passages_ok [OF _ good assms(2)] by (auto split: if_splits)
    then show ?thesis using good key by (auto simp: lo' evidence_ok_def set_fold_insert)
  qed (use assms Search_result in \<open>simp add: observe_result_def\<close>)
qed (use assms in \<open>simp_all add: observe_result_def\<close>)

section \<open>The loop and its ports\<close>

locale loop_ports = decision_port "lp_decide deps" + review_port "lp_review deps" + tool_port "lp_tools deps"
  for deps :: loop_deps
begin

lemma frame_deadline:
  "preserves (frame w0) (remaining_seconds deps started)" "preserves (frame w0) (check_deadline deps started)"
  unfolding check_deadline_def remaining_seconds_def Let_def by (auto intro!: preserves_intro)

lemma frame_tool_call: "preserves (frame w0) (with_tool_budget a (dispatch_tool (lp_tools deps) name args ctx))"
  by (rule frame_with_tool_budget) (rule dispatch_frame)

lemmas port_frames = frame_deadline frame_tool_call decide_frame

lemma moved_ports [preserves_intro]:
  "preserves (moved k l w0) (remaining_seconds deps started)" "preserves (moved k l w0) (check_deadline deps started)"
  "preserves (moved k l w0) (with_tool_budget a (dispatch_tool (lp_tools deps) name args ctx))"
  "preserves (moved k l w0) (lp_decide deps messages tools a)"
  by (auto intro: preserves_of_frame port_frames moved_frame)

lemma moved_review: "lp_review deps = Some rv \<Longrightarrow> preserves (moved k l w0) (rv request a)"
  by (auto intro: preserves_of_frame review_frame moved_frame)

lemma moved_model_step:
  assumes "moved k l w0 w"
  shows "wp (model_step deps started lo) (\<lambda>_. moved (Suc k) l w0) (\<lambda>_. moved (Suc k) l w0) w"
proof -
  have rest: "preserves (moved (Suc k) l w0)
     (tryP
        (bindP (remaining_seconds deps started) (\<lambda>remaining.
         bindP (lp_decide deps (lo_history lo) (tool_names (lp_tools deps)) remaining) (\<lambda>out.
         bindP (liftR (validate_decision (lp_mode deps) out)) (\<lambda>decision.
         thenP (emit (Model_call_completed (lo_step lo))) (returnP (Some decision, lo))))))
        (\<lambda>e. if \<not> model_recoverable e then raiseP e
             else bindP recover (\<lambda>granted.
               if \<not> granted then raiseP e
               else thenP (emit (Recovery_requested (lo_step lo)))
                 (let lo' = add_message User_role (Text retry_prompt) lo
                  in thenP (save_progress deps lo' None False) (returnP (None, lo'))))))"
    unfolding Let_def by (intro preserves_intro moved_recover) simp_all
  have "preserves (moved k l w0) (save_progress deps lo None False)" by (rule moved_save) simp
  from preservesD [OF this assms]
  show ?thesis unfolding model_step_def wp_thenP
  proof (rule wp_mono, goal_cases)
    case (1 u v)
    then have "moved (Suc k) l w0 (v\<lparr>w_log := w_log v @ [Model_call_started (lo_step lo)]\<rparr>)"
      by (simp add: moved_def)
    then show ?case unfolding wp_emit by (rule preservesD [OF rest])
  qed (auto elim: moved_mono)
qed

lemma moved_tool_step:
  assumes "moved k l w0 w"
  shows "wp (tool_step deps started ctx lo name args) (\<lambda>_. moved k (Suc l) w0) (\<lambda>_. moved k (Suc l) w0) w"
proof -
  have call: "preserves (moved k m w0) (call_tool deps started ctx lo' name args)" for lo' m
    unfolding call_tool_def Let_def
    by (auto intro!: preserves_intro moved_recover split: sum.split)
  have "moved k (Suc l) w0 (w\<lparr>w_log := w_log w @ [Tool_call_started (lo_step lo) x]\<rparr>)" for x
    using assms by (simp add: moved_def)
  then show ?thesis unfolding tool_step_def Let_def wp_thenP [of "emit _"] wp_emit
    by (rule preservesD [rotated]) (auto intro!: preserves_intro call split: option.split)
qed

lemma moved_answer_step: "preserves (moved k l w0) (answer_step deps started lo d)"
proof -
  have "preserves (moved k l w0) (review_step deps started lo a)" for a
    unfolding review_step_def
    by (auto intro!: preserves_intro intro: moved_review simp: pending_ok_def split: option.split)
  then show ?thesis unfolding answer_step_def
    by (auto intro!: preserves_intro simp: pending_ok_def split: decision.split)
qed

lemma moved_loop_step:
  assumes "moved k l w0 w"
  shows "wp (loop_step deps started ctx step pending lo) (\<lambda>_. moved (Suc k) (Suc l) w0) (\<lambda>_. moved (Suc k) (Suc l) w0) w"
proof -
  have choose: "wp (case pending of
           Some d \<Rightarrow> bindP (liftR (validate_stored_decision (lp_mode deps) d)) (\<lambda>decision.
             thenP (emit (Tool_replay_started step)) (returnP (Some decision, lo')))
         | None \<Rightarrow> model_step deps started lo') (\<lambda>_. moved (Suc k) l w0) (\<lambda>_. moved (Suc k) l w0) v"
    if v: "moved k l w0 v" for v lo'
  proof (cases pending)
    case None
    with moved_model_step [OF v] show ?thesis by simp
  next
    case (Some d)
    have "preserves (moved (Suc k) l w0) (bindP (liftR (validate_stored_decision (lp_mode deps) d)) (\<lambda>decision.
             thenP (emit (Tool_replay_started step)) (returnP (Some decision, lo'))))"
      by (auto intro!: preserves_intro)
    from preservesD [OF this moved_mono [OF v]] Some show ?thesis by simp
  qed
  have finish: "wp (case out of None \<Rightarrow> returnP (Continue lo1) | Some decision \<Rightarrow>
        thenP (check_deadline deps started) (case decision of
             Tool_call name args \<Rightarrow> tool_step deps started ctx lo1 name args
           | Final_answer _ _ \<Rightarrow> answer_step deps started lo1 decision
           | Document_final _ \<Rightarrow> answer_step deps started lo1 decision))
      (\<lambda>_. moved (Suc k) (Suc l) w0) (\<lambda>_. moved (Suc k) (Suc l) w0) v"
    if v: "moved (Suc k) l w0 v" for out lo1 v
  proof (cases out)
    case None
    with v show ?thesis by (auto simp: wp_rules elim: moved_mono)
  next
    case (Some decision)
    have check: "wp (check_deadline deps started) (\<lambda>_. moved (Suc k) l w0) (\<lambda>_. moved (Suc k) l w0) v"
      by (rule preservesD [OF moved_ports(2) v])
    have "wp (case decision of Tool_call name args \<Rightarrow> tool_step deps started ctx lo1 name args
           | Final_answer _ _ \<Rightarrow> answer_step deps started lo1 decision
           | Document_final _ \<Rightarrow> answer_step deps started lo1 decision)
        (\<lambda>_. moved (Suc k) (Suc l) w0) (\<lambda>_. moved (Suc k) (Suc l) w0) u" if u: "moved (Suc k) l w0 u" for u
      using preservesD [OF moved_answer_step [of "Suc k" "Suc l" w0 started lo1 decision]] moved_mono [OF u, of "Suc k" "Suc l"]
        moved_tool_step [OF u] by (cases decision) auto
    then show ?thesis unfolding Some by (auto simp: wp_thenP intro!: wp_mono [OF check] elim: moved_mono)
  qed
  have start: "wp (check_deadline deps started) (\<lambda>_. moved k l w0) (\<lambda>_. moved k l w0) w"
    by (rule preservesD [OF moved_ports(2) assms])
  show ?thesis unfolding loop_step_def Let_def wp_thenP
  proof (rule wp_mono [OF start], goal_cases)
    case (1 u v)
    then show ?case unfolding wp_bindP
      by (intro wp_mono [OF choose]) (auto intro: finish elim: moved_mono)
  qed (auto elim: moved_mono)
qed

lemma moved_loop_steps:
  "moved k l w0 w \<Longrightarrow> wp (loop_steps deps started ctx steps pending lo)
     (\<lambda>_. moved (k + length steps) (l + length steps) w0) (\<lambda>_. moved (k + length steps) (l + length steps) w0) w"
proof (induction steps arbitrary: k l pending lo w)
  case Nil
  show ?case unfolding loop_steps.simps wp_thenP
    by (rule wp_mono [OF preservesD [OF moved_ports(2) Nil]]) (simp_all add: wp_raiseP)
next
  case (Cons s ss)
  show ?case unfolding loop_steps.simps wp_bindP
  proof (rule wp_mono [OF moved_loop_step [OF Cons.prems]], goal_cases)
    case (1 t v)
    then show ?case using Cons.IH [OF 1] by (cases t) (auto simp: wp_rules elim: moved_mono)
  qed (auto elim: moved_mono)
qed

lemma moved_run_loop:
  "wp (run_loop deps ctx messages)
     (\<lambda>_. moved (lp_max_decisions deps) (lp_max_decisions deps) w)
     (\<lambda>_. moved (lp_max_decisions deps) (lp_max_decisions deps) w) w"
proof -
  let ?n = "lp_max_decisions deps"
  have body: "wp (loop_body deps started ctx messages cp lo) (\<lambda>_. moved ?n ?n w) (\<lambda>_. moved ?n ?n w) v"
    if v: "moved 0 0 w v" for started cp lo v
  proof -
    have steps: "wp (loop_steps deps started ctx ss pending lo') (\<lambda>_. moved ?n ?n w) (\<lambda>_. moved ?n ?n w) v"
      if "length ss \<le> ?n" for ss pending lo'
      using that by (intro wp_mono [OF moved_loop_steps [OF v]]) (erule moved_mono; simp)+
    have "moved ?n ?n w v" using v by (rule moved_mono) simp_all
    with steps show ?thesis unfolding loop_body_def Let_def
      by (auto simp: wp_rules split: option.split simp del: upt_Suc intro!: steps)
  qed
  have "wp (thenP (emit Run_started) (tryP (loop_body deps started ctx messages cp lo)
          (\<lambda>e. thenP (emit (Run_failed (stop_reason e))) (raiseP e)))) (\<lambda>_. moved ?n ?n w) (\<lambda>_. moved ?n ?n w) v"
    if v: "moved 0 0 w v" for started cp lo v
    unfolding wp_thenP wp_emit wp_tryP
  proof (rule wp_mono [OF body], goal_cases)
    case 1
    from v show ?case by (simp add: moved_def)
  next
    case (3 e u)
    then show ?case by (simp add: wp_emit wp_raiseP) (simp add: moved_def)
  qed
  then have "wp (bindP (liftR (load_locals messages cp)) (\<lambda>lo. thenP (emit Run_started)
          (tryP (loop_body deps started ctx messages cp lo)
          (\<lambda>e. thenP (emit (Run_failed (stop_reason e))) (raiseP e))))) (\<lambda>_. moved ?n ?n w) (\<lambda>_. moved ?n ?n w) v"
    if "moved 0 0 w v" for started cp v
    using that moved_mono [OF that, of ?n ?n] by (auto simp: wp_bindP wp_liftR split: sum.split)
  moreover have "wp tick (\<lambda>_. moved 0 0 w) (\<lambda>_. moved ?n ?n w) w"
    using moved_refl [of w] by (simp add: wp_def tick_def moved_def)
  ultimately show ?thesis unfolding run_loop_def wp_bindP [of tick]
    by (auto simp: wp_bindP wp_getP elim!: wp_mono)
qed

text \<open>Everything the loop does to the run table is a history of its operations.\<close>

lemma reach_ports [preserves_intro]:
  "preserves (attempt_reach kd b cfg db0) (remaining_seconds deps started)"
  "preserves (attempt_reach kd b cfg db0) (check_deadline deps started)"
  "preserves (attempt_reach kd b cfg db0) (save_progress deps lo pending replay)"
  unfolding check_deadline_def remaining_seconds_def save_progress_def Let_def by (auto intro!: preserves_intro)

lemma reach_steps:
  "preserves (attempt_reach kd b cfg db0) (model_step deps started lo)"
  "preserves (attempt_reach kd b cfg db0) (review_step deps started lo a)"
  "preserves (attempt_reach kd b cfg db0) (call_tool deps started ctx lo name args)"
  unfolding model_step_def review_step_def call_tool_def Let_def
  by (auto intro!: preserves_intro decide_reach dispatch_reach intro: review_reach split: option.split sum.split)

lemma reach_loop_step: "preserves (attempt_reach kd b cfg db0) (loop_step deps started ctx step pending lo)"
  unfolding loop_step_def answer_step_def tool_step_def Let_def
  by (auto intro!: preserves_intro reach_steps split: option.split decision.split)

lemma reach_loop_steps: "preserves (attempt_reach kd b cfg db0) (loop_steps deps started ctx steps pending lo)"
  by (induction steps arbitrary: pending lo) (auto intro!: preserves_intro reach_loop_step split: turn.split)

lemma reach_run_loop: "preserves (attempt_reach kd b cfg db0) (run_loop deps ctx messages)"
proof -
  have "preserves (attempt_reach kd b cfg db0) (case h of None \<Rightarrow> returnP messages
      | Some h \<Rightarrow> if list_all valid_message h then returnP h else raiseP Validation_error)" for h
    by (cases h) (auto intro!: preserves_intro)
  then show ?thesis unfolding run_loop_def loop_body_def Let_def
    by (intro preserves_intro reach_loop_steps)
qed

text \<open>The loop returns within its budget.\<close>

lemma budget_ports:
  "preserves within_budget (remaining_seconds deps started)" "preserves within_budget (check_deadline deps started)"
  "preserves within_budget (save_progress deps lo pending replay)"
proof -
  show r: "preserves within_budget (remaining_seconds deps started)"
    unfolding remaining_seconds_def Let_def by (intro preserves_intro budget_tick preserves_budget_guard)
  show "preserves within_budget (check_deadline deps started)"
    unfolding check_deadline_def by (intro preserves_intro r)
  show "preserves within_budget (save_progress deps lo pending replay)"
    unfolding save_progress_def by (rule budget_persist) (simp_all add: save_locals_def)
qed

lemma budget_model_step: "keeps within_budget (model_step deps started lo)"
proof -
  let ?body = "bindP (remaining_seconds deps started) (\<lambda>remaining.
         bindP (lp_decide deps (lo_history lo) (tool_names (lp_tools deps)) remaining) (\<lambda>out.
         bindP (liftR (validate_decision (lp_mode deps) out)) (\<lambda>decision.
         thenP (emit (Model_call_completed (lo_step lo))) (returnP (Some decision, lo)))))"
  let ?handler = "\<lambda>e. if \<not> model_recoverable e then raiseP e
             else bindP recover (\<lambda>granted.
               if \<not> granted then raiseP e
               else thenP (emit (Recovery_requested (lo_step lo)))
                 (let lo' = add_message User_role (Text retry_prompt) lo
                  in thenP (save_progress deps lo' None False) (returnP (None, lo'))))"
  have body: "wp ?body (\<lambda>_. within_budget) (\<lambda>e w'. budget_fatal e \<or> within_budget w') w" if w: "within_budget w" for w
    unfolding wp_bindP [of "remaining_seconds deps started"]
  proof (rule wp_mono [OF preservesD [OF budget_ports(1) w]], goal_cases)
    case (1 remaining v)
    show ?case unfolding wp_bindP [of "lp_decide _ _ _ _"]
      by (rule wp_mono [OF decide_budget [OF 1]]) (auto simp: wp_rules split: sum.split)
  qed simp
  have handler: "wp (?handler e) (\<lambda>_. within_budget) (\<lambda>_ _. True) w" if "budget_fatal e \<or> within_budget w" for e w
  proof (cases "model_recoverable e")
    case True
    then have "within_budget w" using that by (auto simp: budget_fatal_def model_recoverable_def)
    moreover have "keeps within_budget (?handler e)" unfolding Let_def
      by (intro keeps_intro keeps_preserves [OF budget_recover] keeps_preserves [OF budget_emit]
          keeps_preserves [OF budget_ports(3)])
    ultimately show ?thesis by (rule keepsD [rotated])
  qed (simp add: wp_raiseP)
  have "keeps within_budget (tryP ?body ?handler)"
    by (rule keepsI) (auto simp: wp_tryP intro!: wp_mono [OF body] handler)
  then show ?thesis unfolding model_step_def
    by (intro keeps_thenP keeps_preserves [OF budget_ports(3)] keeps_preserves [OF budget_emit])
qed

lemma budget_call_tool: "preserves within_budget (call_tool deps started ctx lo name args)"
  unfolding call_tool_def Let_def
  by (auto intro!: preserves_intro budget_ports budget_emit budget_recover budget_with_tool_budget dispatch_budget
      split: sum.split)

lemma budget_answer_step: "keeps within_budget (answer_step deps started lo d)"
proof -
  have "keeps within_budget (case lp_review deps of None \<Rightarrow> raiseP (Other_error ''AttributeError'')
      | Some review \<Rightarrow> review request a)" for request a
    using review_budget by (auto simp: keeps_def wp_rules split: option.split)
  then have "keeps within_budget (review_step deps started lo a)" for a
    unfolding review_step_def
    by (intro keeps_intro keeps_preserves [OF budget_emit] keeps_preserves [OF budget_ports(1)]
        keeps_preserves [OF budget_ports(2)] keeps_preserves [OF budget_persist]) simp_all
  then show ?thesis unfolding answer_step_def
    by (intro keeps_intro keeps_preserves [OF budget_emit] keeps_preserves [OF budget_persist])
      (auto intro!: keeps_intro split: decision.split)
qed

lemma budget_loop_steps: "keeps within_budget (loop_steps deps started ctx steps pending lo)"
proof (induction steps arbitrary: pending lo)
  case Nil
  show ?case unfolding loop_steps.simps by (intro keeps_intro keeps_preserves [OF budget_ports(2)])
next
  case (Cons s ss)
  have tool: "keeps within_budget (tool_step deps started ctx lo1 name args)" for lo1 name args
    unfolding tool_step_def Let_def
    by (auto intro!: keeps_intro keeps_preserves [OF budget_emit] keeps_preserves [OF budget_ports(2)]
        keeps_preserves [OF budget_call_tool] keeps_preserves [OF budget_ports(3)] split: option.split)
  have "keeps within_budget (loop_step deps started ctx s pending lo)"
    unfolding loop_step_def Let_def
    by (auto intro!: keeps_intro keeps_preserves [OF budget_emit] keeps_preserves [OF budget_ports(2)]
        budget_model_step tool budget_answer_step split: option.split decision.split)
  then show ?case unfolding loop_steps.simps
    by (intro keeps_bindP) (auto intro: Cons.IH keeps_intro split: turn.split)
qed

lemma budget_run_loop: "keeps within_budget (run_loop deps ctx messages)"
proof -
  have history: "keeps within_budget (case h of None \<Rightarrow> returnP messages
      | Some h \<Rightarrow> if list_all valid_message h then returnP h else raiseP Validation_error)" for h
    by (cases h) (auto intro!: keeps_intro)
  show ?thesis unfolding run_loop_def loop_body_def Let_def
    by (intro keeps_intro keeps_preserves [OF budget_tick] keeps_preserves [OF budget_emit] history budget_loop_steps)
qed

text \<open>An answer the loop returns is stored with the evidence that justifies it.\<close>

lemma recorded_ports:
  "preserves (recorded mode lo) (remaining_seconds deps started)" "preserves (recorded mode lo) (check_deadline deps started)"
  "preserves (recorded mode lo) (lp_decide deps messages tools a)"
  "lp_review deps = Some rv \<Longrightarrow> preserves (recorded mode lo) (rv request a)"
  by (auto intro: preserves_of_frame port_frames review_frame recorded_frame)

definition same_evidence :: "locals \<Rightarrow> locals \<Rightarrow> bool" where
  "same_evidence lo lo' \<longleftrightarrow> lo_passages lo' = lo_passages lo \<and> lo_sources lo' = lo_sources lo"

lemma same_evidence_simps [simp]:
  "same_evidence lo lo" "same_evidence lo (add_message r c lo)" "same_evidence lo (add_message r c (add_message r' c' lo))"
  by (simp_all add: same_evidence_def add_message_def)

lemma model_step_post:
  "wp (model_step deps started lo)
     (\<lambda>(out, lo') w'. same_evidence lo lo' \<and>
        (\<forall>d. out = Some d \<longrightarrow> lo' = lo \<and> recorded (lp_mode deps) lo w' \<and> valid_decision d \<and> mode_allows (lp_mode deps) d))
     (\<lambda>_ _. True) w" (is "wp _ ?Q _ w")
proof -
  let ?R = "recorded (lp_mode deps) lo"
  have dec: "wp (lp_decide deps ms ts a) (\<lambda>out w'. ?R w' \<and> (\<forall>d. out = Some d \<longrightarrow> valid_decision d)) (\<lambda>_ _. True) v"
    if "?R v" for ms ts a v
  proof -
    have "wp (lp_decide deps ms ts a) (\<lambda>out _. \<forall>d. out = Some d \<longrightarrow> valid_decision d) (\<lambda>_ _. True) v"
      using decide_valid [of ms ts a v] by (auto simp: wp_def split: prod.split sum.split)
    from wp_conj [OF this preservesD [OF recorded_ports(3) that]] show ?thesis by (rule wp_mono) auto
  qed
  have validated: "wp (bindP (liftR (validate_decision (lp_mode deps) out)) (\<lambda>decision.
         thenP (emit (Model_call_completed (lo_step lo))) (returnP (Some decision, lo)))) ?Q (\<lambda>_ _. True) v"
    if "?R v" and "\<forall>d. out = Some d \<longrightarrow> valid_decision d" for out v
    using that by (auto simp: wp_rules validate_decision_def split: sum.split option.splits if_splits)
  have body: "wp (bindP (remaining_seconds deps started) (\<lambda>remaining.
         bindP (lp_decide deps (lo_history lo) (tool_names (lp_tools deps)) remaining) (\<lambda>out.
         bindP (liftR (validate_decision (lp_mode deps) out)) (\<lambda>decision.
         thenP (emit (Model_call_completed (lo_step lo))) (returnP (Some decision, lo)))))) ?Q (\<lambda>_ _. True) v"
    if "?R v" for v
    unfolding wp_bindP [of "remaining_seconds deps started"] wp_bindP [of "lp_decide _ _ _ _"]
    by (rule wp_mono [OF preservesD [OF recorded_ports(1) that]])
      (auto intro!: wp_mono [OF dec] validated)
  have handler: "wp (if \<not> model_recoverable e then raiseP e
             else bindP recover (\<lambda>granted.
               if \<not> granted then raiseP e
               else thenP (emit (Recovery_requested (lo_step lo)))
                 (let lo' = add_message User_role (Text retry_prompt) lo
                  in thenP (save_progress deps lo' None False) (returnP (None, lo'))))) ?Q (\<lambda>_ _. True) v" for e v
  proof -
    let ?lo = "add_message User_role (Text retry_prompt) lo"
    have save: "wp (thenP (save_progress deps ?lo None False) (returnP (None, ?lo))) ?Q (\<lambda>_ _. True) u" for u
      unfolding wp_thenP by (rule wp_mono [OF wp_any]) (simp_all add: wp_returnP)
    show ?thesis unfolding wp_if wp_bindP [of recover] Let_def
      by (auto simp: wp_raiseP wp_emit wp_thenP [of "emit _"] intro!: wp_mono [OF wp_any [of recover]] save)
  qed
  show ?thesis unfolding model_step_def wp_thenP wp_tryP
    by (rule wp_mono [OF save_progress_recorded])
      (auto simp: wp_emit intro!: wp_mono [OF body] handler)
qed

lemma review_step_post:
  assumes "recorded mode lo w"
  shows "wp (review_step deps started lo a)
     (\<lambda>_ w'. recorded mode lo w' \<and> (\<exists>request receipt. make_review_request (lo_question lo) a (lo_passages lo) = Inr request \<and>
        cp_review (state_of w') = Some receipt \<and>
        validate_review_receipt (lp_alnum deps) (lp_digest deps) request receipt = Inr ()))
     (\<lambda>_ _. True) w" (is "wp _ ?Q _ w")
proof (cases "make_review_request (lo_question lo) a (lo_passages lo)")
  case (Inl e)
  then show ?thesis by (simp add: review_step_def wp_rules)
next
  case (Inr request)
  let ?R = "recorded mode lo"
  have store: "wp (bindP (liftR (make_review_receipt (lp_alnum deps) (lp_digest deps) request rv)) (\<lambda>receipt.
          thenP (persist (\<lambda>cp. cp\<lparr>cp_review := Some receipt\<rparr>)) (emit (Review_completed (lo_step lo))))) ?Q (\<lambda>_ _. True) v"
    if v: "?R v" and rv: "valid_review rv" for rv v
  proof (cases "make_review_receipt (lp_alnum deps) (lp_digest deps) request rv")
    case (Inr receipt)
    have "validate_review_receipt (lp_alnum deps) (lp_digest deps) request receipt = Inr ()"
      by (rule receipt_replays [OF Inr rv])
    then show ?thesis using v \<open>make_review_request _ _ _ = Inr request\<close> unfolding Inr wp_bindP wp_liftR wp_thenP
      by (simp, intro wp_persist_states) (simp add: wp_emit recorded_def)
  qed (simp add: wp_rules)
  have reviewed: "wp (thenP (requireP (valid_review rv) Validation_error)
         (thenP (check_deadline deps started)
         (bindP (liftR (make_review_receipt (lp_alnum deps) (lp_digest deps) request rv)) (\<lambda>receipt.
          thenP (persist (\<lambda>cp. cp\<lparr>cp_review := Some receipt\<rparr>)) (emit (Review_completed (lo_step lo))))))) ?Q (\<lambda>_ _. True) v"
    if v: "?R v" for rv v
    unfolding wp_thenP [of "requireP _ _"] wp_thenP [of "check_deadline _ _"] wp_requireP
    using wp_mono [OF preservesD [OF recorded_ports(2) v]] store by auto
  have call: "wp (case lp_review deps of None \<Rightarrow> raiseP (Other_error ''AttributeError'')
                | Some review \<Rightarrow> review request x) (\<lambda>_. ?R) (\<lambda>_ _. True) v" if v: "?R v" for x v
    using wp_mono [OF preservesD [OF recorded_ports(4) v]] by (auto simp: wp_rules split: option.split)
  have body: "wp (bindP (remaining_seconds deps started) (\<lambda>remaining.
         bindP (case lp_review deps of None \<Rightarrow> raiseP (Other_error ''AttributeError'')
                | Some review \<Rightarrow> review request remaining) (\<lambda>rv.
         thenP (requireP (valid_review rv) Validation_error)
         (thenP (check_deadline deps started)
         (bindP (liftR (make_review_receipt (lp_alnum deps) (lp_digest deps) request rv)) (\<lambda>receipt.
          thenP (persist (\<lambda>cp. cp\<lparr>cp_review := Some receipt\<rparr>)) (emit (Review_completed (lo_step lo))))))))) ?Q (\<lambda>_ _. True) v"
    if v: "?R v" for v
    unfolding wp_bindP [of "remaining_seconds deps started"]
  proof (rule wp_mono [OF preservesD [OF recorded_ports(1) v]], goal_cases)
    case (1 x u)
    show ?case unfolding wp_bindP [of "case lp_review deps of None \<Rightarrow> _ | Some rv \<Rightarrow> _ rv"]
      by (rule wp_mono [OF call [OF 1]], erule reviewed, rule TrueI)
  qed simp
  have w: "?R (w\<lparr>w_log := w_log w @ [Review_started (lo_step lo)]\<rparr>)" using assms by simp
  have h: "wp (thenP (emit (Review_failed n)) (raiseP e)) ?Q (\<lambda>_ _. True) v" for e n v
    by (simp add: wp_rules)
  have t: "wp (tryP m (\<lambda>e. thenP (emit (Review_failed n)) (raiseP e))) ?Q (\<lambda>_ _. True) v"
    if "wp m ?Q (\<lambda>_ _. True) v" for m n v
    unfolding wp_tryP by (rule wp_mono [OF that], assumption, rule h)
  have "review_step deps started lo a w = thenP (emit (Review_started (lo_step lo)))
      (tryP (bindP (remaining_seconds deps started) (\<lambda>remaining.
         bindP (case lp_review deps of None \<Rightarrow> raiseP (Other_error ''AttributeError'')
                | Some review \<Rightarrow> review request remaining) (\<lambda>rv.
         thenP (requireP (valid_review rv) Validation_error)
         (thenP (check_deadline deps started)
         (bindP (liftR (make_review_receipt (lp_alnum deps) (lp_digest deps) request rv)) (\<lambda>receipt.
          thenP (persist (\<lambda>cp. cp\<lparr>cp_review := Some receipt\<rparr>)) (emit (Review_completed (lo_step lo)))))))))
        (\<lambda>e. thenP (emit (Review_failed (lo_step lo))) (raiseP e))) w"
    unfolding review_step_def Inr by (simp add: bindP_def [of "liftR _"] liftR_def)
  then show ?thesis
    by (rule wp_same) (unfold wp_thenP [of "emit _"] wp_emit, rule t [OF body [OF w]])
qed

lemma answer_step_post:
  assumes w: "recorded (lp_mode deps) lo w" and d: "valid_decision d" "mode_allows (lp_mode deps) d"
    and nt: "\<And>name args. d \<noteq> Tool_call name args" and ev: "locals_ok G R lo"
  shows "wp (answer_step deps started lo d)
     (\<lambda>t w'. t = Answer d \<and> answered (lp_alnum deps) (lp_digest deps) (lp_mode deps) d (state_of w') \<and>
        evidence_ok G R (cp_passages (state_of w')) (cp_sources (state_of w')))
     (\<lambda>_ _. True) w"
proof -
  have finish: "wp (thenP (persist (\<lambda>cp. cp\<lparr>cp_final := Some d\<rparr>)) (thenP (emit (Run_completed (lo_step lo))) (returnP (Answer d))))
     (\<lambda>t w'. t = Answer d \<and> answered (lp_alnum deps) (lp_digest deps) (lp_mode deps) d (state_of w') \<and>
        evidence_ok G R (cp_passages (state_of w')) (cp_sources (state_of w')))
     (\<lambda>_ _. True) v"
    if "answered (lp_alnum deps) (lp_digest deps) (lp_mode deps) d ((state_of v)\<lparr>cp_final := Some d\<rparr>)"
      and "recorded (lp_mode deps) lo v" for v
    unfolding wp_thenP wp_emit wp_returnP
    using that ev by (intro wp_persist_states) (auto simp: recorded_def evidence_ok_def)
  show ?thesis
  proof (cases d)
    case (Final_answer t cs)
    have "answered (lp_alnum deps) (lp_digest deps) (lp_mode deps) d ((state_of w)\<lparr>cp_final := Some d\<rparr>)"
      if "set cs \<subseteq> set (lo_sources lo)"
      using that w d Final_answer by (auto simp: answered_def recorded_def mode_allows_def)
    note stored = finish [OF this w, unfolded Final_answer]
    show ?thesis unfolding answer_step_def Final_answer decision.case wp_thenP [of "liftR _"] wp_liftR
    proof (cases "validate_answer_citations cs (set (lo_sources lo))", goal_cases)
      case (2 u)
      then have "set cs \<subseteq> set (lo_sources lo)" by simp
      from stored [OF this] show ?case unfolding 2 sum.case .
    qed simp
  next
    case (Document_final a)
    have doc: "lp_mode deps = Document" using d Document_final by (simp add: mode_allows_def)
    have "wp (review_step deps started lo a)
       (\<lambda>_. wp (thenP (persist (\<lambda>cp. cp\<lparr>cp_final := Some d\<rparr>)) (thenP (emit (Run_completed (lo_step lo))) (returnP (Answer d))))
         (\<lambda>t w'. t = Answer d \<and> answered (lp_alnum deps) (lp_digest deps) (lp_mode deps) d (state_of w') \<and>
            evidence_ok G R (cp_passages (state_of w')) (cp_sources (state_of w')))
         (\<lambda>_ _. True)) (\<lambda>_ _. True) w"
      if "validate_document_answer a (set (lo_sources lo)) (lo_search_completed lo) = Inr ()"
    proof (rule wp_mono [OF review_step_post [OF w, of started a]], goal_cases)
      case (1 u v)
      then have "answered (lp_alnum deps) (lp_digest deps) (lp_mode deps) d ((state_of v)\<lparr>cp_final := Some d\<rparr>)"
        using that d Document_final doc by (auto simp: answered_def recorded_def)
      then show ?case using 1 by (intro finish) simp_all
    qed simp
    then show ?thesis unfolding answer_step_def Document_final
      by (auto simp: wp_thenP [of "thenP _ _"] wp_thenP [of "liftR _"] wp_liftR split: sum.split)
  qed (use nt in blast)
qed

text \<open>The tools' results satisfy \<open>G\<close>, so the evidence of the locals stays good.\<close>

lemma call_tool_post:
  assumes good: "\<And>v. wp (dispatch_tool (lp_tools deps) name args ctx) (\<lambda>res _. result_ok G res) (\<lambda>_ _. True) v"
  shows "wp (call_tool deps started ctx lo name args)
     (\<lambda>(out, lo') _. same_evidence lo lo' \<and> (\<forall>res. out = Some res \<longrightarrow> result_ok G res)) (\<lambda>_ _. True) w"
    (is "wp _ ?Q _ w")
proof -
  define failed where "failed = (\<lambda>x. add_message Tool_role (Error_text x)
      (add_message Assistant_role (Decision_text (Tool_call name args)) lo))"
  have save: "wp (thenP (save_progress deps (failed x) None False) (returnP (None, failed x))) ?Q (\<lambda>_ _. True) u" for x u
    unfolding wp_thenP by (rule wp_mono [OF wp_any]) (simp_all add: wp_returnP failed_def)
  have handler: "wp (if \<not> tool_recoverable safe e then raiseP e else bindP recover (\<lambda>granted.
      if \<not> granted then raiseP e else thenP (emit (Recovery_requested (lo_step lo)))
        (thenP (save_progress deps (failed x) None False) (returnP (None, failed x))))) ?Q (\<lambda>_ _. True) u" for safe e x u
    unfolding wp_if wp_bindP [of recover]
    by (auto simp: wp_raiseP wp_emit wp_thenP [of "emit _"] intro!: wp_mono [OF wp_any [of recover]] save)
  have body: "wp (thenP (save_progress deps lo p safe) (bindP (remaining_seconds deps started) (\<lambda>remaining.
       bindP (with_tool_budget remaining (dispatch_tool (lp_tools deps) name args ctx)) (\<lambda>result.
       returnP (Some result, lo))))) ?Q (\<lambda>_ _. True) u" for p safe u
    unfolding wp_thenP wp_bindP
    by (rule wp_mono [OF wp_any], rule wp_mono [OF wp_any], rule wp_mono [OF wp_with_tool_budget [OF good]])
      (simp_all add: wp_returnP)
  have failed: "add_message Tool_role (Error_text x) (add_message Assistant_role (Decision_text (Tool_call name args)) lo) = failed x" for x
    by (simp add: failed_def)
  show ?thesis
  proof (cases "replay_safe (lp_tools deps) name")
    case (Inl e)
    show ?thesis unfolding call_tool_def Let_def failed Inl sum.case by (rule handler)
  next
    case (Inr safe)
    show ?thesis unfolding call_tool_def Let_def failed Inr sum.case wp_tryP
      by (rule wp_mono [OF body], assumption, rule handler)
  qed
qed

lemma tool_step_post:
  assumes good: "\<And>v. wp (dispatch_tool (lp_tools deps) name args ctx) (\<lambda>res _. result_ok G res) (\<lambda>_ _. True) v"
    and key: "\<And>p. G p \<Longrightarrow> R (source_key p)" and ev: "locals_ok G R lo"
  shows "wp (tool_step deps started ctx lo name args) (\<lambda>t _. \<exists>lo'. t = Continue lo' \<and> locals_ok G R lo') (\<lambda>_ _. True) w"
    (is "wp _ ?Q _ w")
proof -
  let ?lo1 = "lo\<lparr>lo_tool_calls := lo_tool_calls lo + 1\<rparr>"
  have after: "wp (bindP (liftR (observe_result deps name result lo2)) (\<lambda>lo3.
      let lo4 = lo3\<lparr>lo_tools_completed := lo_tools_completed lo3 + 1\<rparr>
      in thenP (emit (Tool_call_completed (lo_step lo) x)) (thenP (check_deadline deps started)
         (let lo5 = add_message Tool_role (Result_text name result) (add_message Assistant_role (Decision_text (Tool_call name args)) lo4)
          in thenP (save_progress deps lo5 None False) (returnP (Continue lo5)))))) ?Q (\<lambda>_ _. True) v"
    if "locals_ok G R lo2" and "result_ok G result" for result lo2 v x
  proof (cases "observe_result deps name result lo2")
    case (Inr lo3)
    have ok: "locals_ok G R lo3" by (rule observe_result_ok [OF Inr that key])
    show ?thesis unfolding Inr Let_def wp_bindP wp_liftR sum.case wp_thenP wp_emit
      by (rule wp_mono [OF wp_any], rule wp_mono [OF wp_any]) (simp_all add: wp_returnP add_message_def ok)
  qed (simp add: wp_bindP wp_liftR)
  have call: "wp (call_tool deps started ctx ?lo1 name args)
     (\<lambda>(out, lo') _. locals_ok G R lo' \<and> (\<forall>res. out = Some res \<longrightarrow> result_ok G res)) (\<lambda>_ _. True) v" for v
    using ev by (intro wp_mono [OF call_tool_post [OF good]]) (auto simp: same_evidence_def)
  show ?thesis
    unfolding tool_step_def Let_def [of ?lo1] Let_def [of "if _ then _ else _"] wp_thenP [of "emit _"] wp_emit
      wp_thenP [of "check_deadline _ _"] wp_bindP [of "call_tool _ _ _ _ _ _"]
  proof (rule wp_mono [OF wp_any], rule wp_mono [OF call], goal_cases)
    case (1 u v y v')
    obtain out lo2 where y: "y = (out, lo2)" by (cases y)
    show ?case
    proof (cases out)
      case None
      with 1 y show ?thesis by (simp add: wp_returnP)
    next
      case (Some result)
      with 1 y show ?thesis unfolding y Some prod.case option.case by (intro after) simp_all
    qed
  qed simp_all
qed

lemma loop_steps_post:
  assumes good: "\<And>name args v. wp (dispatch_tool (lp_tools deps) name args ctx) (\<lambda>res _. result_ok G res) (\<lambda>_ _. True) v"
    and key: "\<And>p. G p \<Longrightarrow> R (source_key p)"
  shows "locals_ok G R lo \<Longrightarrow> (case pending of None \<Rightarrow> True | Some d \<Rightarrow> \<exists>n a. d = Tool_call n a) \<Longrightarrow>
     wp (loop_steps deps started ctx steps pending lo)
       (\<lambda>d w'. answered (lp_alnum deps) (lp_digest deps) (lp_mode deps) d (state_of w') \<and>
          evidence_ok G R (cp_passages (state_of w')) (cp_sources (state_of w'))) (\<lambda>_ _. True) w"
    (is "_ \<Longrightarrow> _ \<Longrightarrow> wp _ ?A _ w")
proof (induction steps arbitrary: pending lo w)
  case Nil
  show ?case unfolding loop_steps.simps wp_thenP by (rule wp_mono [OF wp_any]) (simp_all add: wp_raiseP)
next
  case (Cons s ss pending lo w)
  let ?lo = "lo\<lparr>lo_step := s\<rparr>"
  let ?Q = "\<lambda>t w'. case t of Answer d \<Rightarrow> ?A d w' | Continue lo' \<Rightarrow> locals_ok G R lo'"
  have ev: "locals_ok G R ?lo" using Cons.prems by simp
  have decide: "wp (case pending of
                   Some d \<Rightarrow>
                     bindP (liftR (validate_stored_decision (lp_mode deps) d)) (\<lambda>decision.
                     thenP (emit (Tool_replay_started s)) (returnP (Some decision, ?lo)))
                 | None \<Rightarrow> model_step deps started ?lo)
     (\<lambda>(out, lo') w'. locals_ok G R lo' \<and> (\<forall>d. out = Some d \<longrightarrow> (\<exists>n a. d = Tool_call n a) \<or>
        recorded (lp_mode deps) lo' w' \<and> valid_decision d \<and> mode_allows (lp_mode deps) d)) (\<lambda>_ _. True) v" for v
  proof (cases pending)
    case None
    then show ?thesis using ev by (auto intro!: wp_mono [OF model_step_post] simp: same_evidence_def)
  next
    case (Some d)
    then show ?thesis using ev Cons.prems(2)
      by (auto simp: wp_rules validate_stored_decision_def split: sum.split if_splits)
  qed
  have act: "wp (case decision of Tool_call name args \<Rightarrow> tool_step deps started ctx lo1 name args
       | Final_answer _ _ \<Rightarrow> answer_step deps started lo1 decision
       | Document_final _ \<Rightarrow> answer_step deps started lo1 decision) ?Q (\<lambda>_ _. True) v"
    if "locals_ok G R lo1" and "(\<exists>n a. decision = Tool_call n a) \<or>
        recorded (lp_mode deps) lo1 v \<and> valid_decision decision \<and> mode_allows (lp_mode deps) decision" for decision lo1 v
  proof (cases "\<exists>n a. decision = Tool_call n a")
    case True
    then show ?thesis by (auto intro!: wp_mono [OF tool_step_post [OF good key that(1)]])
  next
    case False
    with that have "wp (answer_step deps started lo1 decision) ?Q (\<lambda>_ _. True) v"
      by (intro wp_mono [OF answer_step_post [of lo1 v decision G R]]) auto
    with False show ?thesis by (cases decision) auto
  qed
  have step: "wp (loop_step deps started ctx s pending lo) ?Q (\<lambda>_ _. True) w"
    unfolding loop_step_def Let_def wp_thenP [of "check_deadline _ _"]
  proof (rule wp_mono [OF wp_any], goal_cases)
    case (1 u v)
    show ?case unfolding wp_bindP
    proof (rule wp_mono [OF decide], goal_cases)
      case (1 x v)
      obtain out lo1 where x: "x = (out, lo1)" by (cases x)
      show ?case
      proof (cases out)
        case None
        with 1 x show ?thesis by (simp add: wp_returnP)
      next
        case (Some decision)
        have "wp (check_deadline deps started) (\<lambda>_ v'. recorded (lp_mode deps) lo1 v \<longrightarrow> recorded (lp_mode deps) lo1 v') (\<lambda>_ _. True) v"
          by (cases "recorded (lp_mode deps) lo1 v")
            (auto intro: wp_mono [OF preservesD [OF recorded_ports(2)]] wp_any)
        then show ?thesis using 1 unfolding x Some prod.case option.case wp_thenP
          by (elim wp_mono) (auto intro!: act)
      qed
    qed simp
  qed simp
  show ?case unfolding loop_steps.simps wp_bindP
    by (rule wp_mono [OF step]) (auto simp: wp_returnP intro!: Cons.IH split: turn.splits)
qed

lemma run_loop_post:
  assumes good: "\<And>name args v. wp (dispatch_tool (lp_tools deps) name args ctx) (\<lambda>res _. result_ok G res) (\<lambda>_ _. True) v"
    and key: "\<And>p. G p \<Longrightarrow> R (source_key p)" and w: "pending_ok (state_of w)"
    and ev: "evidence_ok G R (cp_passages (state_of w)) (cp_sources (state_of w))"
  shows "wp (run_loop deps ctx messages)
     (\<lambda>d w'. answered (lp_alnum deps) (lp_digest deps) (lp_mode deps) d (state_of w') \<and>
        evidence_ok G R (cp_passages (state_of w')) (cp_sources (state_of w'))) (\<lambda>_ _. True) w"
    (is "wp _ ?A _ w")
proof -
  let ?cp = "state_of w"
  have pend: "case cp_pending ?cp of None \<Rightarrow> True | Some d \<Rightarrow> \<exists>n a. d = Tool_call n a"
    using w by (auto simp: pending_ok_def split: option.splits decision.splits)
  have body: "wp (loop_body deps started ctx messages ?cp lo) ?A (\<lambda>_ _. True) v" if "locals_ok G R lo" for started lo v
  proof -
    have steps: "wp (loop_steps deps started ctx ss (cp_pending ?cp) (lo\<lparr>lo_history := h\<rparr>)) ?A (\<lambda>_ _. True) v" for ss h
      using that pend by (intro loop_steps_post [where G = G and R = R, OF good key]) simp_all
    show ?thesis
    proof (cases "cp_history ?cp")
      case None
      show ?thesis unfolding loop_body_def Let_def wp_if wp_raiseP
        by (simp add: None wp_bindP wp_returnP steps del: upt_Suc loop_steps.simps)
    next
      case (Some h)
      show ?thesis unfolding loop_body_def Let_def wp_if wp_raiseP
        by (simp add: Some wp_bindP wp_if wp_returnP wp_raiseP steps del: upt_Suc loop_steps.simps)
    qed
  qed
  have "wp (bindP (liftR (load_locals messages ?cp)) (\<lambda>lo. thenP (emit Run_started)
       (tryP (loop_body deps started ctx messages ?cp lo)
          (\<lambda>e. thenP (emit (Run_failed (stop_reason e))) (raiseP e))))) ?A (\<lambda>_ _. True) v" for started v
  proof (cases "load_locals messages ?cp")
    case (Inr lo)
    have "evidence_ok G R (fold put_passage (cp_passages ?cp) []) (cp_sources ?cp)"
      using ev by (intro evidence_fold_put) (auto simp: evidence_ok_def)
    then have "locals_ok G R lo" using Inr by (auto simp: load_locals_def evidence_ok_def split: if_splits)
    then show ?thesis unfolding Inr wp_bindP wp_liftR sum.case wp_thenP wp_emit wp_tryP
      by (intro wp_mono [OF body]) (simp_all add: wp_rules)
  qed (simp add: wp_bindP wp_liftR)
  then show ?thesis unfolding run_loop_def wp_bindP [of tick] wp_bindP [of "getP _"] wp_getP
    by (simp add: wp_def [of tick] tick_def)
qed

end

end
