(* ===== verification/Job_Runner.thy ===== *)
theory Job_Runner
  imports Agent_Safety Tenancy
begin

text \<open>
  Assembly and durable execution of an agent run: the loop the program builds
  (\<open>core/agent_setup.py\<close>), the fenced, checkpointed execution of a registered job
  (\<open>core/agent_job_runner.py\<close>) and its Celery transport (\<open>workers/agent_task.py\<close>). The outside of a run
  (the chat model, Redis, the result backend, the document database) is the record \<open>agent_env\<close>.
\<close>

section \<open>Settings and assembly\<close>

record agent_settings =
  as_tenants :: tenant_settings
  as_store :: run_cfg
  as_max_decisions :: nat
  as_max_tokens :: nat
  as_max_output :: nat
  as_max_recoveries :: nat
  as_max_cost :: "rat option"
  as_input_rate :: "rat option"
  as_output_rate :: "rat option"
  as_llm_timeout :: rat

text \<open>The bounds of the settings' fields and \<open>cost_rates_required\<close>.\<close>

definition valid_settings :: "agent_settings \<Rightarrow> bool" where
  "valid_settings st \<longleftrightarrow>
     0 < lease_seconds (as_store st) \<and> 1 \<le> max_attempts (as_store st) \<and> max_attempts (as_store st) \<le> 10 \<and>
     1 \<le> as_max_decisions st \<and> as_max_decisions st \<le> 100 \<and> 1 \<le> as_max_tokens st \<and>
     1 \<le> as_max_output st \<and> as_max_output st \<le> 8192 \<and> as_max_recoveries st \<le> 3 \<and>
     0 < as_llm_timeout st \<and> as_llm_timeout st \<le> 120 \<and>
     (\<forall>a. a = as_max_cost st \<or> a = as_input_rate st \<or> a = as_output_rate st \<longrightarrow>
        (case a of None \<Rightarrow> True | Some x \<Rightarrow> 0 \<le> x)) \<and>
     (as_input_rate st = None) = (as_output_rate st = None) \<and>
     (as_max_cost st \<noteq> None \<longrightarrow> as_input_rate st \<noteq> None \<and> as_output_rate st \<noteq> None)"

record agent_env =
  en_prompt_bytes :: "message list \<Rightarrow> ustr list \<Rightarrow> nat"
  en_invoke :: "nat \<Rightarrow> (message list \<times> ustr list) model_request \<Rightarrow> exn + model_response"
  en_parse :: "ustr \<Rightarrow> decision option"
  en_instructions :: nat
  en_payload_bytes :: "review_request \<Rightarrow> nat"
  en_invoke_review :: "nat \<Rightarrow> review_request model_request \<Rightarrow> exn + model_response"
  en_parse_review :: "ustr \<Rightarrow> document_review option"
  en_tasks :: task_backend
  en_result_bytes :: "retrieval_result \<Rightarrow> nat"
  en_words :: "ustr \<Rightarrow> ustr list"
  en_log1p :: "rat \<Rightarrow> rat"
  en_row_bytes :: "version_row \<Rightarrow> nat"
  en_corpus :: "nat \<Rightarrow> doc_db"
  en_alnum :: "nat \<Rightarrow> bool"
  en_digest :: "review_request \<Rightarrow> string"
  en_passage_bytes :: "passage \<Rightarrow> nat"

text \<open>
  \<open>build_agent_retrieval\<close> with the defaults of \<open>build_bm25_retrieval\<close>: \<open>k1 = 1.2\<close>, \<open>b = 0.75\<close>, twenty
  documents, eight million bytes, and 8000 characters of output.
\<close>

definition agent_bm25 :: "agent_env \<Rightarrow> bm25_cfg" where
  "agent_bm25 env = \<lparr>bm_k1 = 6/5, bm_b = 3/4, bm_output = 8000, bm_log1p = en_log1p env\<rparr>"

lemma agent_bm25_constructed:
  "make_bm25 (PyFloat (6/5)) (PyFloat (3/4)) (PyInt 20) (PyInt 8000000) (PyInt 8000) (en_log1p env) = Inr (agent_bm25 env)"
  by (simp add: make_bm25_def agent_bm25_def positive_int_def type_is_int_def type_is_int_or_float_def is_finite_num_def)

definition retrieval_corpus :: "agent_env \<Rightarrow> world corpus" where
  "retrieval_corpus env = world_corpus (en_row_bytes env) (PyInt 20) (PyInt 8000000) (en_corpus env)"

text \<open>The loop's dependencies, as \<open>build_agent_loop\<close> passes them.\<close>

definition agent_deps ::
  "agent_env \<Rightarrow> decision_adapter \<Rightarrow> review_adapter option \<Rightarrow> answer_mode \<Rightarrow> nat \<Rightarrow> rat \<Rightarrow> loop_deps" where
  "agent_deps env ad reviewer mode decisions duration =
     \<lparr>lp_decide = json_decide ad (en_prompt_bytes env) (en_invoke env) (en_parse env),
      lp_review = map_option (\<lambda>ra. json_review ra (en_instructions env) (en_payload_bytes env)
                    (en_invoke_review env) (en_parse_review env)) reviewer,
      lp_tools = agent_tools (en_tasks env) (en_result_bytes env) (en_words env) (agent_bm25 env) (retrieval_corpus env),
      lp_mode = mode, lp_max_decisions = decisions, lp_max_duration = duration,
      lp_alnum = en_alnum env, lp_digest = en_digest env, lp_passage_bytes = en_passage_bytes env\<rparr>"

definition build_agent_loop ::
  "agent_settings \<Rightarrow> agent_env \<Rightarrow> nat \<Rightarrow> answer_mode \<Rightarrow> pynum \<Rightarrow> exn + loop_deps" where
  "build_agent_loop st env decisions mode duration =
     (if decisions > as_max_decisions st then Inl Value_error
      else bindR (make_decision_adapter (PyFloat (as_llm_timeout st)) (PyInt (int (as_max_output st))) mode) (\<lambda>ad.
        bindR (if mode = Document
               then bindR (make_review_adapter (PyFloat (as_llm_timeout st)) (PyInt 2048)) (\<lambda>ra. Inr (Some ra))
               else Inr None) (\<lambda>reviewer.
        make_loop (PyInt (int decisions)) duration (agent_deps env ad reviewer mode))))"

text \<open>Every loop the program builds satisfies the contracts of its ports.\<close>

lemma agent_review_port: "review_port (lp_review (agent_deps env ad reviewer mode n t))"
  using no_review.review_port_axioms json_reviews.review_port_axioms
  by (cases reviewer) (simp_all add: agent_deps_def)

interpretation agent: loop_ports "agent_deps env ad reviewer mode n t"
  for env ad reviewer mode n t
proof (intro loop_ports.intro agent_review_port)
  show "decision_port (lp_decide (agent_deps env ad reviewer mode n t))"
    by (simp add: agent_deps_def json_decisions.decision_port_axioms)
  show "tool_port (lp_tools (agent_deps env ad reviewer mode n t))"
    by (simp add: agent_deps_def retrieval_corpus_def dispatcher.tool_port_axioms)
qed

lemma build_agent_loop_InrD:
  assumes "build_agent_loop st env decisions mode duration = Inr deps"
  obtains ad reviewer t where "deps = agent_deps env ad reviewer mode decisions t" and "1 \<le> decisions"
    and "decisions \<le> as_max_decisions st" and "0 < t" and "num_value duration = t"
proof -
  obtain ad reviewer where d: "decisions \<le> as_max_decisions st"
    and ml: "make_loop (PyInt (int decisions)) duration (agent_deps env ad reviewer mode) = Inr deps"
    using assms by (auto simp: build_agent_loop_def split: if_splits)
  then show thesis using that [of ad reviewer "num_value duration"]
    by (auto simp: make_loop_def positive_int_iff Let_def split: if_splits)
qed

section \<open>Executing a job\<close>

text \<open>The validation of a stored answer by the job's \<open>answer_adapter\<close>.\<close>

definition validate_answer :: "answer_mode \<Rightarrow> decision \<Rightarrow> exn + decision" where
  "validate_answer mode d =
     (case d of
        Tool_call _ _ \<Rightarrow> Inl Validation_error
      | _ \<Rightarrow> if mode_allows mode d \<and> valid_decision d then Inr d else Inl Validation_error)"

text \<open>The checks a stored final answer passes again before it is finished.\<close>

definition recheck_answer ::
  "(nat \<Rightarrow> bool) \<Rightarrow> (review_request \<Rightarrow> string) \<Rightarrow> run_job \<Rightarrow> checkpoint \<Rightarrow> decision \<Rightarrow> exn + decision" where
  "recheck_answer alnum digest job cp stored =
     bindR (validate_answer (jb_mode job) stored) (\<lambda>answer.
     if \<not> list_all valid_reference (cp_sources cp) then Inl Validation_error
     else (case answer of
             Document_final a \<Rightarrow>
               if cp_answer_mode cp \<noteq> Some Document then Inl Value_error
               else
                 bindR (validate_document_answer a (set (cp_sources cp)) (cp_search_completed cp)) (\<lambda>_.
                 if \<not> list_all valid_passage (cp_passages cp) then Inl Validation_error
                 else
                   bindR (make_review_request
                            (case cp_question cp of None \<Rightarrow> jb_message job | Some q \<Rightarrow> q) a (cp_passages cp)) (\<lambda>request.
                   bindR (validate_review_receipt alnum digest request
                            (case cp_review cp of None \<Rightarrow> empty_receipt | Some r \<Rightarrow> r)) (\<lambda>_.
                   Inr answer)))
           | Final_answer _ citations \<Rightarrow>
               bindR (validate_answer_citations citations (set (cp_sources cp))) (\<lambda>_. Inr answer)
           | Tool_call _ _ \<Rightarrow> Inr answer))"

text \<open>The limits of the run and the merged cost limit.\<close>

definition run_limits_of :: "agent_settings \<Rightarrow> checkpoint \<Rightarrow> run_limits" where
  "run_limits_of st cp =
     (case cp_limits cp of
        Some limits \<Rightarrow> limits
      | None \<Rightarrow> \<lparr>lim_max_tokens = as_max_tokens st, lim_max_cost = as_max_cost st,
                 lim_max_recoveries = as_max_recoveries st\<rparr>)"

definition merged_cost :: "rat option \<Rightarrow> rat option \<Rightarrow> rat option" where
  "merged_cost original current =
     (case (original, current) of
        (Some a, Some b) \<Rightarrow> Some (min a b)
      | (Some a, None) \<Rightarrow> Some a
      | (None, c) \<Rightarrow> c)"

definition job_control ::
  "agent_settings \<Rightarrow> run_row \<Rightarrow> string \<Rightarrow> run_limits \<Rightarrow> exn + control" where
  "job_control st record token limits =
     make_control
       (Some (\<lparr>sb_cfg = as_store st, sb_run = ru_id record, sb_tenant = ru_tenant record, sb_token = token\<rparr>,
              ru_checkpoint record))
       (PyInt (int (min (lim_max_tokens limits) (as_max_tokens st))))
       (map_option PyFloat (merged_cost (lim_max_cost limits) (as_max_cost st)))
       (map_option PyFloat (as_input_rate st)) (map_option PyFloat (as_output_rate st))
       (PyInt (int (min (lim_max_recoveries limits) (as_max_recoveries st))))"

definition duration_of :: "allowance \<Rightarrow> pynum" where
  "duration_of a = (case a of Secs s \<Rightarrow> PyFloat s | Unbounded \<Rightarrow> PyPosInf)"

text \<open>The answer of an attempt: the stored one, checked again, or the loop's.\<close>

definition attempt_answer ::
  "agent_settings \<Rightarrow> agent_env \<Rightarrow> run_job \<Rightarrow> run_row \<Rightarrow> (world, exn, decision) proc" where
  "attempt_answer st env job record =
     (case cp_final (ru_checkpoint record) of
        Some stored \<Rightarrow> liftR (recheck_answer (en_alnum env) (en_digest env) job (ru_checkpoint record) stored)
      | None \<Rightarrow>
          bindP guard (\<lambda>remaining.
          if remaining \<le> Secs 0 then raiseP Agent_deadline_exceeded
          else
            bindP (liftR (get_tool_execution_context (as_tenants st) (jb_tenant job))) (\<lambda>ctx.
            bindP (liftR (build_agent_loop st env (jb_max_decisions job) (jb_mode job) (duration_of remaining))) (\<lambda>deps.
            run_loop deps ctx [\<lparr>msg_role = User_role, msg_content = Text (jb_message job)\<rparr>]))))"

text \<open>The terminal state of a failed attempt; \<open>control\<close> tells whether the control was constructed.\<close>

definition failure_state :: "bool \<Rightarrow> checkpoint \<Rightarrow> exn \<Rightarrow> run_state" where
  "failure_state constructed cp e =
     (if e = Run_cancelled then Cancelled
      else if e \<in> {Agent_deadline_exceeded, Decision_limit_exceeded, Resource_budget_exceeded} then Exhausted
      else if constructed \<and> unsafe_pending cp then Needs_review
      else Failed)"

text \<open>\<open>except Exception\<close>: the state is written unless the lease is lost, and the error raised again.\<close>

definition record_failure :: "run_job \<Rightarrow> string \<Rightarrow> bool \<Rightarrow> exn \<Rightarrow> (world, exn, decision) proc" where
  "record_failure job token constructed e =
     bindP (getP state_of) (\<lambda>cp.
     thenP (tryP (store_call (finish_run (jb_run_id job) (jb_tenant job) token
                   (failure_state constructed cp e) None (Some (exn_name e))))
                 (\<lambda>e'. if e' = Run_lease_lost \<or> e' = Sqlite_error then returnP () else raiseP e'))
       (raiseP e))"

definition execute_attempt ::
  "agent_settings \<Rightarrow> agent_env \<Rightarrow> run_job \<Rightarrow> run_row \<Rightarrow> string \<Rightarrow> (world, exn, decision) proc" where
  "execute_attempt st env job record token =
     (let limits = run_limits_of st (ru_checkpoint record)
      in case job_control st record token limits of
           Inl e \<Rightarrow> record_failure job token False e
         | Inr control \<Rightarrow>
             thenP (modifyP (set_control (\<lambda>_. control)))
             (tryP
               (thenP (persist (\<lambda>cp. cp\<lparr>cp_limits := Some limits\<rparr>))
               (bindP (attempt_answer st env job record) (\<lambda>answer.
                thenP (store_call (finish_run (jb_run_id job) (jb_tenant job) token Succeeded (Some answer) None))
                (bindP (store_call (get_run (jb_run_id job) (jb_tenant job))) (\<lambda>(row, _).
                 if ru_state row = Cancelled then raiseP Run_cancelled else returnP answer)))))
               (record_failure job token True)))"

text \<open>\<open>execute_agent_job\<close>; \<open>token\<close> is the fresh identifier \<open>claim\<close> draws.\<close>

definition execute_agent_job ::
  "agent_settings \<Rightarrow> agent_env \<Rightarrow> string \<Rightarrow> run_job \<Rightarrow> (world, exn, decision) proc" where
  "execute_agent_job st env token job =
     (if \<not> valid_run_job job then raiseP Validation_error
      else if jb_max_decisions job > as_max_decisions st then raiseP Value_error
      else bindP (store_call (claim_run (as_store st) job token)) (\<lambda>record.
        if ru_state record = Succeeded
        then (case ru_result record of
                None \<Rightarrow> raiseP Validation_error
              | Some d \<Rightarrow> liftR (validate_answer (jb_mode job) d))
        else execute_attempt st env job record token))"

text \<open>\<open>run_agent\<close>: the delivery must carry the run's identifier and the tenant's routing key.\<close>

definition run_agent ::
  "agent_settings \<Rightarrow> agent_env \<Rightarrow> string \<Rightarrow> string \<Rightarrow> string option \<Rightarrow> run_job \<Rightarrow> (world, exn, decision) proc" where
  "run_agent st env token request_id routing_key job =
     (if \<not> valid_run_job job then raiseP Validation_error
      else if request_id \<noteq> jb_run_id job then raiseP Value_error
      else bindP (liftR (tenant_queue (as_tenants st) (jb_tenant job))) (\<lambda>queue.
        if routing_key \<noteq> Some queue then raiseP Value_error
        else tryP (execute_agent_job st env token job)
               (\<lambda>e. if is_run_conflict e \<or> e = Run_cancelled then raiseP Celery_ignore else raiseP e)))"

end
