(* ===== verification/Agent_Properties.thy ===== *)
theory Agent_Properties
  imports Job_Runner
begin

text \<open>
  The properties of an agent run as the program executes it: bounded work, the run table's protocol,
  the budget, grounded and replayable answers, and what a worker leaves in the run table when it
  returns or fails.
\<close>

section \<open>Bounds of a run\<close>


text \<open>
  C21. The budget of a run. A run of the loop that starts within its token and cost limits and returns
  an answer has never spent more than they admit: the tokens and the cost reserved for its model calls,
  corrected by the usage the provider reported, are within the limits at the end.
\<close>

theorem agent_budget_respected:
  assumes "build_agent_loop st env decisions mode duration = Inr deps"
    and "within_budget w" and "run_loop deps ctx messages w = (Inr answer, w')"
  shows "int (cp_reserved_tokens (state_of w')) \<le> ct_max_tokens (w_control w') \<and>
     (\<forall>m. ct_max_cost (w_control w') = Some m \<longrightarrow> cp_reserved_cost (state_of w') \<le> m)"
proof -
  obtain ad reviewer t where deps: "deps = agent_deps env ad reviewer mode decisions t"
    using assms(1) by (rule build_agent_loop_InrD)
  have "within_budget w'"
    using wp_returns [OF keepsD [OF agent.budget_run_loop assms(2)] assms(3) [unfolded deps]] .
  then show ?thesis by (auto simp: within_budget_def over_budget_def split: option.splits)
qed

section \<open>Answers\<close>

lemma agent_deps_simps:
  "lp_alnum (agent_deps env ad reviewer mode k t) = en_alnum env"
  "lp_digest (agent_deps env ad reviewer mode k t) = en_digest env"
  "lp_mode (agent_deps env ad reviewer mode k t) = mode"
  "lp_max_decisions (agent_deps env ad reviewer mode k t) = k"
  by (simp_all add: agent_deps_def)

text \<open>The passage is a chunk of the latest version of a document of tenant \<open>t\<close> in some reading of the corpus.\<close>

definition corpus_chunk :: "(nat \<Rightarrow> doc_db) \<Rightarrow> string \<Rightarrow> passage \<Rightarrow> bool" where
  "corpus_chunk corpus t p \<longleftrightarrow>
     (\<exists>n d. versions_of (corpus n) t (pa_document_id p) \<noteq> [] \<and>
        d = last (versions_of (corpus n) t (pa_document_id p)) \<and> sv_version d = pa_version p \<and>
        pa_chunk p \<in> set (cs_chunks (sv_chunking d)) \<and>
        ch_text (pa_chunk p) = py_slice (di_text (sv_document d)) (ch_start (pa_chunk p)) (ch_end (pa_chunk p)))"

definition grounded :: "(nat \<Rightarrow> doc_db) \<Rightarrow> string \<Rightarrow> source_reference \<Rightarrow> bool" where
  "grounded corpus t r \<longleftrightarrow> (\<exists>p. corpus_chunk corpus t p \<and> source_key p = r)"

definition cited_sources :: "decision \<Rightarrow> source_reference set" where
  "cited_sources d =
     (case d of
        Final_answer _ citations \<Rightarrow> set citations
      | Document_final (Answered _ citations) \<Rightarrow> set citations
      | _ \<Rightarrow> {})"

lemma corpus_read_chunk:
  assumes inv: "\<And>n. versions_inv (corpus n)"
    and rd: "world_corpus jb md mb corpus t w = (Inr ds, w')"
    and d: "d \<in> set ds" and c: "c \<in> set (cs_chunks (sv_chunking d))"
  shows "corpus_chunk corpus t (to_passage d c)"
proof -
  obtain db' where "read_latest_documents jb t md mb (corpus (w_reads w)) = Inr (ds, db')"
    using rd by (auto simp: world_corpus_def external_def)
  note docs = read_latest_documents_InrD [OF inv this]
  have "check_spans (di_text (sv_document d)) 0 0 (cs_chunks (sv_chunking d)) = Some (length (di_text (sv_document d)))"
    using docs d by (auto simp: valid_stored_def saved_chunks_ok_def)
  then have "ch_text c = py_slice (di_text (sv_document d)) (ch_start c) (ch_end c)"
    using c by (rule check_spans_text)
  with docs d c show ?thesis
    unfolding corpus_chunk_def by (intro exI [of _ "w_reads w"] exI [of _ d]) (auto simp: to_passage_def)
qed

lemma search_grounded:
  assumes inv: "\<And>n. versions_inv (corpus n)"
    and r: "facade_search (bm25_search words bm (world_corpus jb md mb corpus)) request ctx u = (Inr result, u')"
    and p: "p \<in> set (rs_passages result)"
  shows "corpus_chunk corpus (tenant_id ctx) p"
proof -
  from bm25.facade_result [OF r] p obtain ds d c
    where "world_corpus jb md mb corpus (tenant_id ctx) u = (Inr ds, u')"
      and "d \<in> set ds" and "c \<in> set (cs_chunks (sv_chunking d))" and "p = to_passage d c"
    by (elim conjE disjE exE) (simp, blast)
  then show ?thesis using corpus_read_chunk [OF inv] by simp
qed

lemma dispatch_grounded:
  assumes inv: "\<And>n. versions_inv (en_corpus env n)"
  shows "wp (dispatch_tool (lp_tools (agent_deps env ad reviewer mode k t)) name args ctx)
     (\<lambda>res _. result_ok (corpus_chunk (en_corpus env) (tenant_id ctx)) res) (\<lambda>_ _. True) v"
proof -
  have search: "wp (search_documents rb (bm25_search words bm (world_corpus jb md mb (en_corpus env))) request ctx)
      (\<lambda>r _. \<forall>p \<in> set (rs_passages r). corpus_chunk (en_corpus env) (tenant_id ctx) p) (\<lambda>_ _. True) u"
    for rb words bm jb md mb request u
  proof -
    have "wp (facade_search (bm25_search words bm (world_corpus jb md mb (en_corpus env))) request ctx)
      (\<lambda>r _. \<forall>p \<in> set (rs_passages r). corpus_chunk (en_corpus env) (tenant_id ctx) p) (\<lambda>_ _. True) u"
      unfolding wp_def by (simp split: prod.split sum.split) (intro allI impI ballI, elim exE, rule search_grounded [OF inv])
    then show ?thesis unfolding search_documents_def wp_bindP
      by (rule wp_mono) (auto simp: wp_rules)
  qed
  have status: "wp (get_agent_task_status (read_task_status tb) task ctx)
      (\<lambda>res _. result_ok G res) (\<lambda>_ _. True) u" for tb task u G
    unfolding get_agent_task_status_def authorized_eq
    by (auto simp: wp_rules result_ok_def intro: wp_mono [OF read_task_status_result])
  show ?thesis
    unfolding agent_deps_def retrieval_corpus_def agent_tools_eq
    by (auto simp: dispatch_tool_def get_tool_def status_tool_def search_tool_def wp_rules result_ok_def
        intro!: wp_mono [OF search] wp_mono [OF status] split: sum.split)
qed

text \<open>
  C19. Grounded answers. When the loop returns an answer, every source the answer cites is a chunk of
  the latest version of a document of the caller's own tenant, as some reading of the corpus during the
  run held it; for a resumed run, provided the sources in its checkpoint were.
\<close>

theorem agent_answer_grounded:
  assumes "build_agent_loop st env decisions mode duration = Inr deps"
    and inv: "\<And>n. versions_inv (en_corpus env n)" and pend: "pending_ok (state_of w)"
    and ps: "\<And>p. p \<in> set (cp_passages (state_of w)) \<Longrightarrow> corpus_chunk (en_corpus env) (tenant_id ctx) p"
    and rs: "\<And>r. r \<in> set (cp_sources (state_of w)) \<Longrightarrow> grounded (en_corpus env) (tenant_id ctx) r"
    and run: "run_loop deps ctx messages w = (Inr answer, w')" and cited: "r \<in> cited_sources answer"
  shows "grounded (en_corpus env) (tenant_id ctx) r"
proof -
  obtain ad reviewer t where deps: "deps = agent_deps env ad reviewer mode decisions t"
    using assms(1) by (rule build_agent_loop_InrD)
  let ?G = "corpus_chunk (en_corpus env) (tenant_id ctx)" and ?R = "grounded (en_corpus env) (tenant_id ctx)"
  have "evidence_ok ?G ?R (cp_passages (state_of w)) (cp_sources (state_of w))"
    using ps rs by (simp add: evidence_ok_def)
  moreover have "\<And>p. ?G p \<Longrightarrow> ?R (source_key p)" by (auto simp: grounded_def)
  ultimately have "answered (en_alnum env) (en_digest env) mode answer (state_of w') \<and>
      evidence_ok ?G ?R (cp_passages (state_of w')) (cp_sources (state_of w'))"
    using wp_returns [OF agent.run_loop_post [where R = ?R, OF dispatch_grounded [OF inv] _ pend] run [unfolded deps]]
    by (simp add: agent_deps_simps)
  then have "answered (en_alnum env) (en_digest env) mode answer (state_of w')"
    and "\<forall>r \<in> set (cp_sources (state_of w')). ?R r"
    by (simp_all add: evidence_ok_def)
  moreover from this(1) cited have "r \<in> set (cp_sources (state_of w'))"
    by (auto simp: answered_def cited_sources_def validate_document_answer_ok
        split: decision.splits document_answer.splits)
  ultimately show ?thesis by blast
qed

lemma dispatch_valid_evidence:
  "wp (dispatch_tool (lp_tools (agent_deps env ad reviewer mode k t)) name args ctx)
     (\<lambda>res _. result_ok valid_passage res) (\<lambda>_ _. True) v"
  using agent.dispatch_valid [of env ad reviewer mode k t name args ctx v]
  by (auto simp: wp_def result_ok_def valid_retrieval_result_def list_all_iff
      split: prod.split sum.split tool_result.split)

lemma run_loop_checked:
  assumes "run_loop deps ctx messages w = (Inr answer, w')"
  shows "list_all valid_reference (cp_sources (state_of w)) \<and> list_all valid_passage (cp_passages (state_of w))"
  using assms
  by (auto simp: run_loop_def bindP_def getP_def liftR_def tick_def load_locals_def
      split: prod.splits sum.splits if_splits)

text \<open>
  C22. Answers survive a crash. The checkpoint that a returning loop leaves behind passes, with the
  answer it holds, every check a later attempt makes of a stored final answer: another worker that
  claims the run returns the same answer without calling the model again.
\<close>

theorem agent_answer_replays:
  assumes "build_agent_loop st env decisions (jb_mode job) duration = Inr deps" and pend: "pending_ok (state_of w)"
    and run: "run_loop deps ctx messages w = (Inr answer, w')"
  shows "cp_final (state_of w') = Some answer \<and>
     recheck_answer (en_alnum env) (en_digest env) job (state_of w') answer = Inr answer"
proof -
  obtain ad reviewer t where deps: "deps = agent_deps env ad reviewer (jb_mode job) decisions t"
    using assms(1) by (rule build_agent_loop_InrD)
  have "evidence_ok valid_passage valid_reference (cp_passages (state_of w)) (cp_sources (state_of w))"
    using run_loop_checked [OF run] by (simp add: evidence_ok_def list_all_iff)
  moreover have "\<And>p. valid_passage p \<Longrightarrow> valid_reference (source_key p)"
    by (simp add: valid_passage_def valid_reference_def source_key_def)
  ultimately have "answered (en_alnum env) (en_digest env) (jb_mode job) answer (state_of w') \<and>
      evidence_ok valid_passage valid_reference (cp_passages (state_of w')) (cp_sources (state_of w'))"
    using wp_returns [OF agent.run_loop_post [where R = valid_reference, OF dispatch_valid_evidence _ pend] run [unfolded deps]]
    by (simp add: agent_deps_simps)
  then have "answered (en_alnum env) (en_digest env) (jb_mode job) answer (state_of w')"
    and "list_all valid_reference (cp_sources (state_of w'))" "list_all valid_passage (cp_passages (state_of w'))"
    by (simp_all add: evidence_ok_def list_all_iff)
  then show ?thesis
    by (auto simp: answered_def recheck_answer_def validate_answer_def mode_allows_def split: decision.splits)
qed

end
