(* ===== verification/Job_Properties.thy ===== *)
theory Job_Properties
  imports Agent_Properties
begin

text \<open>
  What a worker that executes an agent job leaves in the run table, whatever other processes do to the
  table meanwhile: its protocol, its durable answers, its failures and its refusals.
\<close>

section \<open>The protocol\<close>

lemma finish_run_step:
  assumes "finish_run rid t tok s res e clk db = Inr (u, db')"
  shows "\<exists>ev. run_step cfg kd db ev db'"
proof -
  obtain row where row: "find_run db rid t = Inr row"
    using assms by (auto simp: finish_run_def owned_run_def split: if_splits)
  then have "run_of db rid \<noteq> None"
    using find_run_InrD [OF row] by (auto simp: run_of_def select1_None_iff)
  then have "\<exists>r. run_of db' rid = Some r"
    using assms by (auto simp: finish_run_def run_of_update row_simps Let_def split: if_splits)
  then show ?thesis using run_finish [OF assms] by blast
qed

lemma claim_run_step:
  "claim_run cfg job tok clk db = Inr (row, db') \<Longrightarrow> \<exists>ev. run_step cfg kd db ev db'"
  using run_claim [of cfg job tok clk db row db' kd] run_replay [of cfg job tok clk db row db' kd] by blast

lemma reach_finish [preserves_intro]:
  "preserves (attempt_reach kd b cfg db0) (store_call (finish_run rid t tok s res e))"
  by (rule reach_store_call) (rule finish_run_step)

lemma reach_get [preserves_intro]: "preserves (attempt_reach kd b cfg db0) (store_call (get_run rid t))"
  by (rule reach_store_call) (auto dest: run_get)

lemma reach_claim [preserves_intro]: "preserves (attempt_reach kd b cfg db0) (store_call (claim_run cfg job tok))"
  by (rule reach_store_call) (rule claim_run_step)

lemma reach_record_failure [preserves_intro]:
  "preserves (attempt_reach kd b cfg db0) (record_failure job tok c e)"
  unfolding record_failure_def by (auto intro!: preserves_intro)

lemma reach_attempt_answer [preserves_intro]:
  "preserves (attempt_reach kd b cfg db0) (attempt_answer st env job record)"
proof -
  have run: "preserves (attempt_reach kd b cfg db0) (bindP (liftR (build_agent_loop st env n mode t)) (\<lambda>deps.
     run_loop deps ctx messages))" for n mode t ctx messages
    by (auto simp: preserves_def wp_bindP wp_liftR split: sum.split elim!: build_agent_loop_InrD
        intro!: preservesD [OF agent.reach_run_loop])
  show ?thesis
  proof (cases "cp_final (ru_checkpoint record)")
    case None
    show ?thesis unfolding attempt_answer_def None option.case
      by (rule preserves_bindP [OF reach_guard], rule preserves_if [OF preserves_basic(2)],
          rule preserves_bindP [OF preserves_basic(4)], rule run)
  qed (auto simp: attempt_answer_def intro!: preserves_intro)
qed

lemma job_control_InrD:
  "job_control st record tok limits = Inr control \<Longrightarrow>
     \<exists>b. ct_store control = Some b \<and> sb_cfg b = as_store st \<and> ct_state control = ru_checkpoint record"
  by (auto simp: job_control_def make_control_def split: if_splits)

lemma execute_claimed:
  "valid_run_job job \<and> jb_max_decisions job \<le> as_max_decisions st \<Longrightarrow>
     execute_agent_job st env token job =
       bindP (store_call (claim_run (as_store st) job token)) (\<lambda>record.
         if ru_state record = Succeeded
         then (case ru_result record of
                 None \<Rightarrow> raiseP Validation_error
               | Some d \<Rightarrow> liftR (validate_answer (jb_mode job) d))
         else execute_attempt st env job record token)"
  by (simp add: execute_agent_job_def)

text \<open>The part of an attempt that runs under its control.\<close>

definition controlled_body ::
  "agent_settings \<Rightarrow> agent_env \<Rightarrow> run_job \<Rightarrow> run_row \<Rightarrow> string \<Rightarrow> (world, exn, decision) proc" where
  "controlled_body st env job record token =
     thenP (persist (\<lambda>cp. cp\<lparr>cp_limits := Some (run_limits_of st (ru_checkpoint record))\<rparr>))
     (bindP (attempt_answer st env job record) (\<lambda>answer.
      thenP (store_call (finish_run (jb_run_id job) (jb_tenant job) token Succeeded (Some answer) None))
      (bindP (store_call (get_run (jb_run_id job) (jb_tenant job))) (\<lambda>(row, _).
       if ru_state row = Cancelled then raiseP Run_cancelled else returnP answer))))"

lemma execute_attempt_eq:
  "execute_attempt st env job record token =
     (case job_control st record token (run_limits_of st (ru_checkpoint record)) of
        Inl e \<Rightarrow> record_failure job token False e
      | Inr control \<Rightarrow> thenP (modifyP (set_control (\<lambda>_. control))) (tryP (controlled_body st env job record token) (record_failure job token True)))"
  by (simp add: execute_attempt_def controlled_body_def Let_def cong: sum.case_cong)

lemma reach_controlled [preserves_intro]:
  "preserves (attempt_reach kd b cfg db0) (controlled_body st env job record token)"
  unfolding controlled_body_def by (auto intro!: preserves_intro)

lemma reach_execute_attempt:
  assumes "attempt_reach kd None (as_store st) db0 w"
  shows "wp (execute_attempt st env job record token) (\<lambda>_ w'. \<exists>b. attempt_reach kd b (as_store st) db0 w')
     (\<lambda>_ w'. \<exists>b. attempt_reach kd b (as_store st) db0 w') w"
proof (cases "job_control st record token (run_limits_of st (ru_checkpoint record))")
  case (Inl e)
  show ?thesis unfolding execute_attempt_eq Inl sum.case
    by (rule wp_mono [OF preservesD [OF reach_record_failure assms]]) blast+
next
  case (Inr control)
  obtain b where b: "ct_store control = Some b" "sb_cfg b = as_store st"
    using job_control_InrD [OF Inr] by blast
  then have "attempt_reach kd (Some b) (as_store st) db0 (set_control (\<lambda>_. control) w)"
    using assms by (simp add: attempt_reach_def set_control_def)
  then show ?thesis unfolding execute_attempt_eq Inr sum.case wp_thenP wp_modifyP
    by (rule wp_mono [OF preservesD [OF preserves_tryP [OF reach_controlled reach_record_failure]]]) blast+
qed


section \<open>Durable answers\<close>

definition durable_result :: "string \<Rightarrow> string \<Rightarrow> decision \<Rightarrow> run_db \<Rightarrow> bool" where
  "durable_result rid t d db \<longleftrightarrow>
     (\<exists>row. run_of db rid = Some row \<and> ru_tenant row = t \<and> ru_state row = Succeeded \<and> ru_result row = Some d)"

lemma get_run_found: "get_run rid t clk db = Inr ((row, as), db') \<Longrightarrow> find_run db' rid t = Inr row"
  by (auto simp: get_run_def)

lemma reach_inv: "attempt_reach kd b cfg db0 w \<Longrightarrow> run_inv cfg db0 \<Longrightarrow> run_inv cfg (w_db w)"
  by (auto simp: attempt_reach_def dest: run_trace_inv)

lemma reach_env:
  assumes "attempt_reach kd b cfg db0 w"
  shows "\<exists>evs. run_trace cfg kd (w_db w) evs (w_env w n (w_db w))"
  using assms by (auto simp: attempt_reach_def)

lemma finished_run:
  assumes inv: "run_inv cfg db" and fin: "finish_run rid t tok Succeeded (Some d) None clk db = Inr (u, db')"
  obtains row where "run_of db' rid = Some row" and "terminal (ru_state row)" and "ru_state row \<noteq> Cancelled \<Longrightarrow>
     ru_state row = Succeeded \<and> ru_result row = Some d"
proof (rule finish_run_InrD [OF fin])
  fix row s' r' e'
  assume row: "find_run db rid t = Inr row"
    and s': "(s', r', e') = (if ru_cancel row then (Cancelled, None, Some ''cancelled'') else (Succeeded, Some d, None))"
    and db': "db' = update_run rid (\<lambda>r. (close_run s' (clk 2) r)\<lparr>ru_result := r', ru_error := e'\<rparr>)
             (update_attempt (Some tok) (end_attempt_error (Attempt s') (clk 1) e') db)"
  have "run_of db' rid = Some ((close_run s' (clk 2) row)\<lparr>ru_result := r', ru_error := e'\<rparr>)"
    using run_of_find [OF inv row] by (simp add: db' run_of_update row_simps)
  then show thesis using s' by (intro that) (auto simp: close_run_def terminal_def split: if_splits)
qed

lemma finish_is_durable:
  assumes w: "attempt_reach kd b cfg db0 w" and inv: "run_inv cfg db0"
  shows "wp (thenP (store_call (finish_run rid t tok Succeeded (Some d) None))
       (bindP (store_call (get_run rid t)) (\<lambda>(row, _).
         if ru_state row = Cancelled then raiseP Run_cancelled else returnP d)))
     (\<lambda>x w'. durable_result rid t x (w_db w')) (\<lambda>_ _. True) w"
proof -
  let ?k = "w_calls w" and ?db1 = "w_env w (w_calls w) (w_db w)"
  have inv1: "run_inv cfg ?db1" using reach_env [OF w] reach_inv [OF w inv] run_trace_inv by blast
  have got: "durable_result rid t d db4"
    if fin: "finish_run rid t tok Succeeded (Some d) None (w_clock w ?k) ?db1 = Inr (u, db2)"
      and get: "get_run rid t clk (w_env w (?k + 1) db2) = Inr ((data, as), db4)" and nc: "ru_state data \<noteq> Cancelled"
    for u db2 data as db4 clk
  proof -
    obtain row where row: "run_of db2 rid = Some row" "terminal (ru_state row)"
      and ok: "ru_state row \<noteq> Cancelled \<Longrightarrow> ru_state row = Succeeded \<and> ru_result row = Some d"
      using finished_run [OF inv1 fin] by blast
    obtain e where "run_step cfg kd ?db1 e db2" using finish_run_step [OF fin] by blast
    then have inv2: "run_inv cfg db2" using inv1 by (rule run_step_inv)
    obtain evs where "run_trace cfg kd db2 evs (w_env w (?k + 1) db2)"
      using w by (auto simp: attempt_reach_def)
    then have tr: "run_trace cfg kd db2 (evs @ [Ev_silent]) db4" using run_get [OF get] by (rule run_snoc)
    have "find_run db4 rid t = Inr data" using get by (rule get_run_found)
    then have "run_of db4 rid = Some data" "ru_tenant data = t"
      using run_of_find [OF run_trace_inv [OF tr inv2]] by (auto dest: find_run_InrD)
    with run_trace_frozen [OF inv2 row tr] ok nc show ?thesis
      by (auto simp: durable_result_def frozen_run_def)
  qed
  show ?thesis unfolding wp_thenP wp_bindP wp_store_call
    by (auto simp: wp_rules intro: got split: sum.split)
qed

lemma record_failure_raises: "wp (record_failure job tok c e) (\<lambda>_ _. False) (\<lambda>_ _. True) w"
  unfolding record_failure_def wp_bindP wp_getP wp_thenP
  by (rule wp_mono [OF wp_any]) (simp_all add: wp_rules)

lemma controlled_durable:
  assumes w: "attempt_reach kd b cfg db0 w" and inv: "run_inv cfg db0"
  shows "wp (controlled_body st env job record token)
     (\<lambda>d w'. durable_result (jb_run_id job) (jb_tenant job) d (w_db w')) (\<lambda>_ v. attempt_reach kd b cfg db0 v) w"
proof -
  have "wp (controlled_body st env job record token)
     (\<lambda>d w'. durable_result (jb_run_id job) (jb_tenant job) d (w_db w')) (\<lambda>_ _. True) w"
    unfolding controlled_body_def wp_thenP [of "persist _"]
  proof (rule wp_mono [OF preservesD [OF reach_persist w]], goal_cases)
    case (1 u v)
    show ?case unfolding wp_bindP [of "attempt_answer _ _ _ _"]
      by (rule wp_mono [OF preservesD [OF reach_attempt_answer 1]])
        (auto intro!: wp_mono [OF finish_is_durable [OF _ inv]])
  qed simp
  then show ?thesis
    by (rule wp_mono [OF wp_conj [OF _ preservesD [OF reach_controlled w]]]) simp_all
qed

text \<open>
  C18. Answers are durable. When a worker returns an answer, the run is recorded as succeeded with
  exactly this answer, under the tenant of the job; this also holds when the answer was stored by an
  earlier attempt, and no matter how other workers and requests interleave with the execution.
\<close>

theorem job_answer_is_durable:
  assumes inv: "run_inv (as_store st) (w_db w)"
    and env: "\<And>k db. \<exists>evs. run_trace (as_store st) kd db evs (w_env w k db)"
    and none: "ct_store (w_control w) = None" and run: "execute_agent_job st env token job w = (Inr answer, w')"
  shows "\<exists>row. run_of (w_db w') (jb_run_id job) = Some row \<and> ru_tenant row = jb_tenant job \<and>
     ru_state row = Succeeded \<and> ru_result row = Some answer"
proof -
  let ?P = "\<lambda>d w'. durable_result (jb_run_id job) (jb_tenant job) d (w_db w')"
  have w: "attempt_reach kd None (as_store st) (w_db w) w"
    using env none run_start [of "as_store st" kd "w_db w"] by (auto simp: attempt_reach_def)
  have valid: "valid_run_job job \<and> jb_max_decisions job \<le> as_max_decisions st"
    using run by (auto simp: execute_agent_job_def raiseP_def split: if_splits)
  have attempt: "wp (execute_attempt st env job rw token) ?P (\<lambda>_ _. True) v"
    if v: "attempt_reach kd None (as_store st) (w_db w) v" for rw v
  proof (cases "job_control st rw token (run_limits_of st (ru_checkpoint rw))")
    case (Inl e)
    show ?thesis unfolding execute_attempt_eq Inl sum.case
      by (rule wp_mono [OF record_failure_raises]) simp_all
  next
    case (Inr control)
    obtain b where b: "ct_store control = Some b" "sb_cfg b = as_store st"
      using job_control_InrD [OF Inr] by blast
    then have "attempt_reach kd (Some b) (as_store st) (w_db w) (set_control (\<lambda>_. control) v)"
      using v by (simp add: attempt_reach_def set_control_def)
    then show ?thesis unfolding execute_attempt_eq Inr sum.case wp_thenP wp_modifyP wp_tryP
      by (intro wp_mono [OF controlled_durable [OF _ inv]] wp_mono [OF record_failure_raises]) simp_all
  qed
  let ?db1 = "w_env w (w_calls w) (w_db w)"
  have inv1: "run_inv (as_store st) ?db1" using reach_env [OF w] run_trace_inv inv by blast
  have stored: "durable_result (jb_run_id job) (jb_tenant job) d db'"
    if cl: "claim_run (as_store st) job token clk ?db1 = Inr (rw, db')" and s: "ru_state rw = Succeeded"
      and d: "ru_result rw = Some d" for clk rw db' d
    using run_of_find [OF inv1] find_run_InrD s d
    by (rule_tac claim_run_InrD [OF cl]) (auto simp: durable_result_def start_run_def)
  have "wp (store_call (claim_run (as_store st) job token))
     (\<lambda>record v. attempt_reach kd None (as_store st) (w_db w) v \<and>
        (\<forall>d. ru_state record = Succeeded \<and> ru_result record = Some d \<longrightarrow> ?P d v)) (\<lambda>_ _. True) w"
    (is "wp _ ?Q _ _")
  proof -
    have "wp (store_call (claim_run (as_store st) job token))
       (\<lambda>rw v. \<forall>d. ru_state rw = Succeeded \<and> ru_result rw = Some d \<longrightarrow> ?P d v) (\<lambda>_ _. True) w"
      by (auto simp: wp_store_call intro: stored split: sum.split)
    then show ?thesis by (rule wp_mono [OF wp_conj [OF preservesD [OF reach_claim w]]]) simp_all
  qed
  then have "wp (execute_agent_job st env token job) ?P (\<lambda>_ _. True) w"
    unfolding execute_claimed [OF valid] wp_bindP
    by (rule wp_mono) (auto simp: wp_rules validate_answer_def split: option.split sum.split decision.split intro: attempt)
  from wp_returns [OF this run] show ?thesis by (simp add: durable_result_def)
qed

section \<open>Failures\<close>

lemma failure_state_finished:
  "failure_state c cp e \<in> {Succeeded, Failed, Cancelled, Exhausted, Needs_review}"
  by (simp add: failure_state_def)


lemma close_run_sel [simp]:
  "ru_state (close_run s n r) = s" "ru_token (close_run s n r) = None"
  by (simp_all add: close_run_def)

text \<open>The run is not held under the token any more: not running, under another token, or its lease expired.\<close>

definition lease_released :: "string \<Rightarrow> string \<Rightarrow> string \<Rightarrow> world \<Rightarrow> bool" where
  "lease_released rid t tok w \<longleftrightarrow>
     (\<forall>row. run_of (w_db w) rid = Some row \<and> ru_tenant row = t \<and> ru_state row = Running \<and> ru_token row = Some tok \<longrightarrow>
        (\<exists>l. ru_lease_until row = Some l \<and> l \<le> w_clock w (w_calls w - 1) 0))"

lemma record_failure_releases:
  assumes w: "attempt_reach kd b cfg db0 w" and inv: "run_inv cfg db0"
  shows "wp (record_failure job tok c e) (\<lambda>_ _. False) (\<lambda>_. lease_released (jb_run_id job) (jb_tenant job) tok) w"
proof -
  let ?db = "w_env w (w_calls w) (w_db w)" and ?rid = "jb_run_id job" and ?t = "jb_tenant job"
  let ?now = "w_clock w (w_calls w) 0"
  have inv1: "run_inv cfg ?db" using reach_env [OF w] reach_inv [OF w inv] run_trace_inv by blast
  have lost: "\<exists>l. ru_lease_until row = Some l \<and> l \<le> ?now"
    if o: "owned_run ?db ?rid ?t tok ?now = Inl e'" and row: "run_of ?db ?rid = Some row" "ru_tenant row = ?t"
      "ru_state row = Running" "ru_token row = Some tok" for e' row
  proof -
    have mem: "row \<in> set (db_runs ?db)" "ru_id row = ?rid"
      using row(1) by (auto simp: run_of_def dest: select1_SomeD)
    then have "find_run ?db ?rid ?t = Inr row"
      using row(2) inv1 select1_unique [of ru_id "db_runs ?db" row "\<lambda>r. ru_id r = ?rid \<and> ru_tenant r = ?t"]
      by (auto simp: find_run_def run_inv_def)
    moreover have "ru_lease_until row \<noteq> None" using inv1 mem row(3) by (auto simp: run_inv_def run_ok_def)
    ultimately show ?thesis using o row(3,4) by (auto simp: owned_run_def until_passed_def split: if_splits)
  qed
  have kept: "lease_released ?rid ?t tok (w\<lparr>w_db := ?db, w_calls := w_calls w + 1\<rparr>)"
    if "finish_run ?rid ?t tok s res err (w_clock w (w_calls w)) ?db = Inl e'"
      and "s \<in> {Succeeded, Failed, Cancelled, Exhausted, Needs_review}" for s res err e'
    using that lost by (auto simp: lease_released_def finish_run_def bindR_Inl_iff Let_def split: if_splits)
  have finished: "lease_released ?rid ?t tok (w\<lparr>w_db := db', w_calls := w_calls w + 1\<rparr>)"
    if fin: "finish_run ?rid ?t tok s res err (w_clock w (w_calls w)) ?db = Inr (u, db')" for s res err u db'
    by (rule finish_run_InrD [OF fin])
      (auto simp: lease_released_def run_of_update row_simps run_of_find [OF inv1])
  show ?thesis
    unfolding record_failure_def wp_bindP wp_getP wp_thenP wp_tryP wp_store_call
    using kept [OF _ failure_state_finished] finished
    by (auto simp: wp_rules split: sum.split)
qed


section \<open>Deliveries\<close>

lemma claim_stored:
  assumes "find_run db (jb_run_id job) (jb_tenant job) = Inr row" and "ru_job row = job" and "ru_state row = Succeeded"
  shows "claim_run cfg job token clk db = Inr (row, db)"
  using assms by (simp add: claim_run_def)

text \<open>
  C26. Redelivery. A job whose run has succeeded is answered from the run table, whenever and however
  often it is delivered again: the stored result is returned, the run table is left as it was, and
  neither a clock, the model, a tool nor the log is touched.
\<close>

theorem redelivery_returns_stored_answer:
  assumes "valid_run_job job" and "jb_max_decisions job \<le> as_max_decisions st"
    and "find_run (w_env w (w_calls w) (w_db w)) (jb_run_id job) (jb_tenant job) = Inr row"
    and "ru_job row = job" and "ru_state row = Succeeded" and "ru_result row = Some answer"
    and "validate_answer (jb_mode job) answer = Inr answer"
  shows "execute_agent_job st env token job w =
     (Inr answer, w\<lparr>w_db := w_env w (w_calls w) (w_db w), w_calls := w_calls w + 1\<rparr>)"
  using assms claim_stored [OF assms(3-5)]
  by (simp add: execute_agent_job_def bindP_def store_call_def liftR_def Let_def)

text \<open>
  C27. The transport. A delivery under another identifier or routing key than its job's is refused
  before anything is read or written. The worker's task never fails with a run conflict or a
  cancellation: those end as Celery's \<open>Ignore\<close>, so that the stored outcome of the run is not replaced.
\<close>

theorem run_agent_delivery:
  assumes "run_agent st env token request_id routing_key job w = (r, w')"
  shows "(request_id \<noteq> jb_run_id job \<or>
      routing_key \<noteq> Some (celery_queue_name (as_tenants st) @ ''.'' @ jb_tenant job) \<longrightarrow>
        w' = w \<and> (r = Inl Value_error \<or> r = Inl Validation_error)) \<and>
     (\<forall>e. r = Inl e \<longrightarrow> \<not> is_run_conflict e \<and> e \<noteq> Run_cancelled)"
  using assms
  by (auto simp: run_agent_def raiseP_def bindP_def liftR_def tenant_queue_def tryP_def
      split: if_splits sum.splits prod.splits)

end
