(* ===== verification/Agent_Examples.thy ===== *)
theory Agent_Examples
  imports Run_Examples Heartbeat Job_Properties
begin

text \<open>
  Concrete runs of the agent: a world, a model that answers, and the executions on which the properties
  of the adapters, the loop and the worker are applied.
\<close>

definition demo_world :: "run_db \<Rightarrow> control \<Rightarrow> world" where
  "demo_world db control =
     \<lparr>w_db = db, w_calls = 0, w_env = (\<lambda>_ db. db), w_clock = (\<lambda>_ _. 0), w_heartbeat = (\<lambda>_. None),
      w_ticks = (\<lambda>_. 0), w_reads = 0, w_control = control, w_log = []\<rparr>"

definition demo_control :: "checkpoint \<Rightarrow> control" where
  "demo_control cp =
     \<lparr>ct_store = None, ct_state = cp, ct_max_tokens = 1000, ct_max_cost = None, ct_input_rate = None,
      ct_output_rate = None, ct_max_recoveries = 1, ct_tool_deadline = None\<rparr>"

definition demo_settings :: agent_settings where
  "demo_settings =
     \<lparr>as_tenants = \<lparr>celery_queue_name = ''crewai'', tenant_api_keys = [''acme'' \<mapsto> ''k''],
        tenant_permissions = [''acme'' \<mapsto> {''document.search'', ''document.read''}]\<rparr>,
      as_store = demo_run_cfg, as_max_decisions = 20, as_max_tokens = 1000, as_max_output = 512,
      as_max_recoveries = 1, as_max_cost = None, as_input_rate = None, as_output_rate = None, as_llm_timeout = 30\<rparr>"

lemma demo_settings_valid: "valid_settings demo_settings"
  by (simp add: valid_settings_def demo_settings_def demo_run_cfg_def)

definition demo_backend :: task_backend where
  "demo_backend =
     \<lparr>tb_digest = (\<lambda>_. ''t''), tb_owner = (\<lambda>_ k _. Inr (if k = ''crewos:task-owner:t'' then Some ''acme'' else None)),
      tb_state = (\<lambda>_ _ _. Inr ''SUCCESS''), tb_timeout = 2\<rparr>"

text \<open>A model that answers with a citation of the demonstration passage.\<close>

definition demo_env :: agent_env where
  "demo_env =
     \<lparr>en_prompt_bytes = (\<lambda>_ _. 100),
      en_invoke = (\<lambda>_ _. Inr \<lparr>mr_usage = Some (PyInt 90, PyInt 10), mr_refusal = False, mr_tool_calls = False, mr_content = Some [1]\<rparr>),
      en_parse = (\<lambda>_. Some (Final_answer [104] [demo_ref])), en_instructions = 100, en_payload_bytes = (\<lambda>_. 100),
      en_invoke_review = (\<lambda>_ _. Inl Timeout_error), en_parse_review = (\<lambda>_. None), en_tasks = demo_backend,
      en_result_bytes = (\<lambda>_. 100), en_words = demo_words, en_log1p = id, en_row_bytes = (\<lambda>_. 10),
      en_corpus = (\<lambda>_. demo_done), en_alnum = (\<lambda>_. True), en_digest = demo_review_digest, en_passage_bytes = (\<lambda>_. 100)\<rparr>"

definition demo_deps :: loop_deps where
  "demo_deps = agent_deps demo_env \<lparr>da_mode = General, da_timeout = 30, da_max_output = 512\<rparr> None General 3 60"

lemma demo_deps_built: "build_agent_loop demo_settings demo_env 3 General (PyFloat 60) = Inr demo_deps"
  by (simp add: build_agent_loop_def demo_settings_def make_decision_adapter_def bad_timeout_def type_is_int_or_float_def
      is_finite_num_def positive_int_def type_is_int_def make_loop_def demo_deps_def agent_deps_def Let_def)

text \<open>A resumed attempt that has already observed the passage.\<close>

definition demo_checkpoint :: checkpoint where
  "demo_checkpoint = empty_checkpoint\<lparr>cp_sources := [demo_ref], cp_search_completed := True\<rparr>"

definition demo_messages :: "message list" where
  "demo_messages = [\<lparr>msg_role = User_role, msg_content = Text [63]\<rparr>]"

abbreviation demo_start :: world where
  "demo_start \<equiv> demo_world empty_run_db (demo_control demo_checkpoint)"

definition demo_finish :: world where
  "demo_finish = snd (run_loop demo_deps demo_searcher demo_messages demo_start)"

text \<open>Execution without a store.\<close>

lemma wp_tick: "wp tick Q E w = Q (w_ticks w (w_reads w)) (w\<lparr>w_reads := w_reads w + 1\<rparr>)"
  by (simp add: wp_def tick_def)

lemma wp_persist_local: "ct_store (w_control w) = None \<Longrightarrow> wp (persist f) Q E w = Q () (set_state f w)"
  by (simp add: persist_def wp_rules set_state_def set_control_def)

lemma wp_guard_local:
  "ct_store (w_control w) = None \<Longrightarrow> w_heartbeat w (w_calls w) = None \<Longrightarrow> wp guard Q E w = Q Unbounded w"
  by (simp add: guard_def wp_rules)

lemmas demo_defs = demo_world_def demo_control_def demo_checkpoint_def empty_checkpoint_def demo_messages_def
  demo_deps_def agent_deps_def demo_env_def

lemmas eval_loop = wp_rules wp_tick wp_persist_local wp_guard_local wp_emit set_state_def set_control_def

lemma demo_loaded:
  "load_locals demo_messages demo_checkpoint =
     Inr \<lparr>lo_step = 0, lo_tool_calls = 0, lo_tools_completed = 0, lo_sources = [demo_ref], lo_search_completed = True,
       lo_passages = [], lo_question = [63], lo_history = []\<rparr>"
  by (simp add: load_locals_def demo_defs valid_reference_def demo_ref_def last_question_def)


definition quiet :: "world \<Rightarrow> bool" where
  "quiet w \<longleftrightarrow> ct_store (w_control w) = None \<and> (\<forall>n. w_heartbeat w n = None) \<and> (\<forall>n. w_ticks w n = 0) \<and>
     ct_max_cost (w_control w) = None"

lemma quiet_steps:
  assumes "quiet w"
  shows "wp tick Q E w = Q 0 (w\<lparr>w_reads := w_reads w + 1\<rparr>)" "wp guard Q' E w = Q' Unbounded w"
    "wp (persist f) Q'' E w = Q'' () (set_state f w)" "ct_max_cost (w_control w) = None"
    "quiet (w\<lparr>w_reads := n\<rparr>)" "quiet (w\<lparr>w_log := l\<rparr>)" "quiet (set_state f w)"
  using assms by (simp_all add: quiet_def wp_tick wp_guard_local wp_persist_local set_state_def set_control_def)

lemma demo_answer_recorded:
  assumes "quiet w" and "lo_sources lo = [demo_ref]"
  shows "wp (answer_step demo_deps 0 lo (Final_answer [104] [demo_ref]))
     (\<lambda>t _. t = Answer (Final_answer [104] [demo_ref])) (\<lambda>_ _. False) w"
  using assms by (simp add: answer_step_def validate_answer_citations_def wp_rules wp_emit quiet_steps)

lemma set_state_simps [simp]:
  "state_of (set_state f w) = f (state_of w)" "ct_max_tokens (w_control (set_state f w)) = ct_max_tokens (w_control w)"
  by (simp_all add: set_state_def set_control_def)

lemma demo_checkpoint_simps [simp]:
  "cp_pending demo_checkpoint = None" "cp_history demo_checkpoint = None" "cp_answer_mode demo_checkpoint = None"
  "cp_reserved_tokens demo_checkpoint = 0" "cp_sources demo_checkpoint = [demo_ref]" "cp_passages demo_checkpoint = []"
  by (simp_all add: demo_checkpoint_def empty_checkpoint_def)

lemma demo_deps_simps [simp]:
  "lp_max_duration demo_deps = 60" "lp_mode demo_deps = General" "lp_max_decisions demo_deps = 3"
  by (simp_all add: demo_deps_def agent_deps_def)

lemma demo_asked:
  assumes "quiet w" and "cp_reserved_tokens (state_of w) = 0" and "ct_max_tokens (w_control w) = 1000"
  shows "wp (lp_decide demo_deps messages tools (Secs 60)) (\<lambda>d v. d = Some (Final_answer [104] [demo_ref]) \<and> quiet v)
     (\<lambda>_ _. False) w"
  using assms
  by (simp add: demo_deps_def agent_deps_def json_decide_def Let_def demo_env_def reserve_def wp_rules quiet_steps
      over_budget_def reconcile_usage_def reconcile_def type_is_int_def decision_of_def validate_stored_decision_def
      mode_allows_def valid_decision_def valid_citations_def)

lemma demo_model:
  assumes "quiet w" and "cp_reserved_tokens (state_of w) = 0" and "ct_max_tokens (w_control w) = 1000"
  shows "wp (model_step demo_deps 0 lo) (\<lambda>x v. x = (Some (Final_answer [104] [demo_ref]), lo) \<and> quiet v) (\<lambda>_ _. False) w"
  unfolding model_step_def save_progress_def remaining_seconds_def wp_thenP wp_tryP wp_bindP
  using assms
  by (simp add: wp_bindP wp_if wp_raiseP wp_returnP wp_emit quiet_steps Let_def, intro wp_mono [OF demo_asked])
    (simp_all add: quiet_steps wp_rules wp_emit save_locals_def validate_decision_def mode_allows_def)

lemma demo_first_step:
  assumes "quiet v" and "cp_reserved_tokens (state_of v) = 0" and "ct_max_tokens (w_control v) = 1000"
    and "lo_sources lo = [demo_ref]"
  shows "wp (loop_step demo_deps 0 ctx 1 None lo) (\<lambda>t _. t = Answer (Final_answer [104] [demo_ref])) (\<lambda>_ _. False) v"
  using assms unfolding loop_step_def Let_def check_deadline_def remaining_seconds_def
  by (simp add: wp_thenP wp_bindP wp_if wp_raiseP wp_returnP quiet_steps Let_def, intro wp_mono [OF demo_model])
    (auto simp: quiet_steps wp_rules intro: demo_answer_recorded)

lemma demo_body:
  assumes "quiet v" and "cp_reserved_tokens (state_of v) = 0" and "ct_max_tokens (w_control v) = 1000"
    and "lo_sources lo = [demo_ref]" and "lo_step lo = 0"
  shows "wp (loop_body demo_deps 0 ctx demo_messages demo_checkpoint lo) (\<lambda>d _. d = Final_answer [104] [demo_ref]) (\<lambda>_ _. False) v"
proof -
  have returned: "bindP (returnP x) f = f x" for x and f :: "message list \<Rightarrow> (world, exn, decision) proc"
    by (rule ext) (simp add: bindP_def returnP_def)
  have body: "loop_body demo_deps 0 ctx demo_messages demo_checkpoint lo =
      loop_steps demo_deps 0 ctx [1, 2, 3] None (lo\<lparr>lo_history := demo_messages\<rparr>)"
    using assms(5) by (simp add: loop_body_def returned upt_rec eval_nat_numeral del: loop_steps.simps)
  show ?thesis unfolding body loop_steps.simps wp_bindP
    by (rule wp_mono [OF demo_first_step]) (simp_all add: assms wp_returnP)
qed

lemma demo_run:
  assumes "quiet w" and "state_of w = demo_checkpoint" and "ct_max_tokens (w_control w) = 1000"
  shows "wp (run_loop demo_deps ctx demo_messages) (\<lambda>d _. d = Final_answer [104] [demo_ref]) (\<lambda>_ _. False) w"
  unfolding run_loop_def using assms
  by (simp add: wp_bindP wp_getP quiet_steps demo_loaded wp_liftR wp_thenP wp_emit wp_tryP, intro wp_mono [OF demo_body])
    (simp_all add: quiet_steps)

lemma demo_start_quiet: "quiet demo_start" "state_of demo_start = demo_checkpoint" "ct_max_tokens (w_control demo_start) = 1000"
  by (simp_all add: quiet_def demo_world_def demo_control_def)

lemma demo_run_returns:
  "run_loop demo_deps demo_searcher demo_messages demo_start = (Inr (Final_answer [104] [demo_ref]), demo_finish)"
  using demo_run [OF demo_start_quiet, of demo_searcher]
  by (auto simp: wp_def demo_finish_def split: prod.splits sum.splits)

section \<open>The adapters\<close>

lemma demo_reservation:
  "\<exists>w'. reserve 10 20 demo_start = (Inr (), w') \<and> cp_reserved_tokens (state_of w') = 30"
proof -
  have "wp (reserve 10 20) (\<lambda>_ _. True) (\<lambda>_ _. False) demo_start"
    using demo_start_quiet by (simp add: reserve_def wp_rules quiet_steps over_budget_def Let_def)
  then obtain w' where r: "reserve 10 20 demo_start = (Inr (), w')"
    by (auto simp: wp_def split: prod.splits sum.splits)
  from reserve_admits [OF r] have "int (cp_reserved_tokens (state_of w')) = 30"
    using demo_start_quiet(2) by simp
  with r show ?thesis by auto
qed

text \<open>A heartbeat that renews the lease of the demonstration run twice, around a checkpoint, until it is closed.\<close>

definition demo_binding :: store_binding where
  "demo_binding = \<lparr>sb_cfg = demo_run_cfg, sb_run = ''r1'', sb_tenant = ''acme'', sb_token = ''t1''\<rparr>"

definition demo_wakeups :: "wakeup list" where
  "demo_wakeups =
     [\<lparr>wk_stop = False, wk_others = (\<lambda>db. case checkpoint_run demo_run_cfg (sb_run demo_binding) ''acme'' ''t1''
          empty_checkpoint (\<lambda>_. 5) db of Inl e \<Rightarrow> db | Inr (_, db') \<Rightarrow> db'), wk_clock = (\<lambda>_. 10)\<rparr>,
      \<lparr>wk_stop = False, wk_others = (\<lambda>db. db), wk_clock = (\<lambda>_. 20)\<rparr>,
      \<lparr>wk_stop = True, wk_others = (\<lambda>db. db), wk_clock = (\<lambda>_. 25)\<rparr>]"

lemma demo_punctual: "punctual demo_binding 30 60 demo_wakeups"
  unfolding demo_wakeups_def
  by (simp add: leaves_lease_checkpoint leaves_lease_other demo_run_cfg_def demo_binding_def [THEN arg_cong [of _ _ sb_cfg]])

lemma heartbeat_keeps_lease_witness:
  "\<exists>db'. start_heartbeat ((demo_control empty_checkpoint)\<lparr>ct_store := Some demo_binding\<rparr>) demo_wakeups (demo_runs 1)
     = (Hb_stopped, db') \<and> holds_lease demo_binding 50 60 db'"
proof -
  have "holds_lease demo_binding 30 60 (demo_runs 1)"
    by (simp add: holds_lease_def demo_binding_def find_run_def demo_run_defs)
  from heartbeat_keeps_lease [OF _ this demo_punctual,
      of "(demo_control empty_checkpoint)\<lparr>ct_store := Some demo_binding\<rparr>"]
  show ?thesis by (auto simp: demo_wakeups_def demo_binding_def demo_run_cfg_def)
qed

definition demo_observer :: tool_context where
  "demo_observer = \<lparr>tenant_id = ''acme'', permissions = {''agent_task.read''}\<rparr>"

lemma demo_start_deadline: "ct_tool_deadline (w_control demo_start) = None"
  by (simp add: demo_world_def demo_control_def)

lemma task_status_needs_owner_witness:
  "\<exists>w'. get_agent_task_status (read_task_status demo_backend) [116] demo_observer demo_start
       = (Inr (Task_result (Some ''succeeded'') [116]), w') \<and>
     (\<exists>n left. tb_owner demo_backend n (owner_key (tb_digest demo_backend) [116]) left = Inr (Some ''acme''))"
proof -
  have "wp (get_agent_task_status (read_task_status demo_backend) [116] demo_observer)
      (\<lambda>r _. r = Task_result (Some ''succeeded'') [116]) (\<lambda>_ _. False) demo_start"
    using demo_start_quiet demo_start_deadline
    by (simp add: get_agent_task_status_def authorized_eq demo_observer_def read_task_status_def require_owner_def
        ownership_client_def bounded_result_def tool_remaining_def demo_backend_def owner_key_def map_celery_state_def
        wp_rules quiet_steps Let_def)
  then obtain w' where r: "get_agent_task_status (read_task_status demo_backend) [116] demo_observer demo_start
       = (Inr (Task_result (Some ''succeeded'') [116]), w')"
    by (auto simp: wp_def split: prod.splits sum.splits)
  from task_status_needs_owner [OF r] have "\<exists>n left. tb_owner demo_backend n (owner_key (tb_digest demo_backend) [116]) left
      = Inr (Some (tenant_id demo_observer))" by blast
  with r show ?thesis by (auto simp: demo_observer_def)
qed

section \<open>The loop\<close>


lemma agent_budget_respected_witness:
  "int (cp_reserved_tokens (state_of demo_finish)) \<le> ct_max_tokens (w_control demo_finish)"
proof -
  have "within_budget demo_start"
    using demo_start_quiet by (simp add: within_budget_def over_budget_def quiet_steps)
  from agent_budget_respected [OF demo_deps_built this demo_run_returns] show ?thesis by blast
qed

lemma demo_versions: "versions_inv demo_done"
  using demo_invariants(3) by (simp add: doc_inv_def)

lemma demo_passage_stored: "corpus_chunk (\<lambda>_. demo_done) ''acme'' demo_passage"
  unfolding corpus_chunk_def
  by (intro exI [of _ 0] exI [of _ demo_stored])
    (simp add: versions_of_def demo_done_def of_document_def demo_passage_def demo_stored_def py_slice_def)

lemma agent_answer_grounded_witness: "grounded (\<lambda>_. demo_done) ''acme'' demo_ref"
proof -
  have "source_key demo_passage = demo_ref" by (simp add: source_key_def demo_passage_def demo_ref_def)
  then have ref: "grounded (\<lambda>_. demo_done) ''acme'' demo_ref"
    using demo_passage_stored by (auto simp: grounded_def)
  have "grounded (en_corpus demo_env) (tenant_id demo_searcher) demo_ref"
    by (rule agent_answer_grounded [OF demo_deps_built _ _ _ _ demo_run_returns])
      (auto simp: demo_env_def demo_versions demo_start_quiet(2) pending_ok_def demo_searcher_def ref cited_sources_def)
  then show ?thesis by (simp add: demo_env_def demo_searcher_def)
qed

lemma agent_answer_replays_witness:
  "recheck_answer (\<lambda>_. True) demo_review_digest demo_run_job (state_of demo_finish) (Final_answer [104] [demo_ref])
     = Inr (Final_answer [104] [demo_ref])"
proof -
  have "build_agent_loop demo_settings demo_env 3 (jb_mode demo_run_job) (PyFloat 60) = Inr demo_deps"
    using demo_deps_built by (simp add: demo_run_job_def)
  from agent_answer_replays [OF this _ demo_run_returns] show ?thesis
    by (simp add: demo_start_quiet(2) pending_ok_def demo_env_def)
qed

section \<open>The worker\<close>

definition demo_job_world :: "nat \<Rightarrow> world" where
  "demo_job_world k = demo_world (demo_runs k) (demo_control empty_checkpoint)"

lemma demo_job_world_simps [simp]:
  "w_db (demo_job_world k) = demo_runs k" "w_env (demo_job_world k) n db = db" "w_clock (demo_job_world k) n i = 0"
  "w_calls (demo_job_world k) = 0" "ct_store (w_control (demo_job_world k)) = None" "w_log (demo_job_world k) = []"
  by (simp_all add: demo_job_world_def demo_world_def demo_control_def)

lemma demo_undisturbed: "\<exists>evs. run_trace (as_store demo_settings) kd db evs (w_env (demo_job_world k) n db)"
  using run_start [of "as_store demo_settings" kd db] by auto

lemma demo_settings_store [simp]: "as_store demo_settings = demo_run_cfg" "as_max_decisions demo_settings = 20"
  by (simp_all add: demo_settings_def)

lemma demo_runs_inv1: "run_inv demo_run_cfg (demo_runs 1)"
  by (simp add: run_inv_def run_ok_def demo_run_defs empty_checkpoint_def)


lemma demo_job_valid: "valid_run_job demo_run_job"
  by (simp add: valid_run_job_def demo_run_job_def pattern_defs)

lemma demo_stored_row: "find_run (demo_runs 2) (jb_run_id demo_run_job) (jb_tenant demo_run_job) = Inr demo_done_run"
  by (simp add: find_run_def demo_run_defs)

lemma demo_done_simps:
  "ru_job demo_done_run = demo_run_job" "ru_state demo_done_run = Succeeded"
  "ru_result demo_done_run = Some (Final_answer [104] [])" "jb_max_decisions demo_run_job = 3" "jb_mode demo_run_job = General"
  by (simp_all add: demo_run_defs)

lemma demo_answer_valid: "validate_answer General (Final_answer [104] []) = Inr (Final_answer [104] [])"
  by (simp add: validate_answer_def mode_allows_def valid_decision_def valid_citations_def)

lemma redelivery_returns_stored_answer_witness:
  "fst (execute_agent_job demo_settings demo_env ''t9'' demo_run_job (demo_job_world 2)) = Inr (Final_answer [104] [])"
  using redelivery_returns_stored_answer [of demo_run_job demo_settings "demo_job_world 2" demo_done_run
      "Final_answer [104] []" demo_env "''t9''"]
    demo_job_valid demo_stored_row demo_done_simps demo_answer_valid
  by simp

lemma job_answer_is_durable_witness: "\<exists>row. run_of (demo_runs 2) ''r1'' = Some row \<and> ru_state row = Succeeded"
proof -
  have "fst (execute_agent_job demo_settings demo_env ''t9'' demo_run_job (demo_job_world 2)) = Inr (Final_answer [104] []) \<and>
      w_db (snd (execute_agent_job demo_settings demo_env ''t9'' demo_run_job (demo_job_world 2))) = demo_runs 2"
    using demo_job_valid demo_done_simps demo_answer_valid
      claim_stored [OF demo_stored_row demo_done_simps(1,2), of demo_run_cfg "''t9''" "w_clock (demo_job_world 2) 0"]
    by (simp add: execute_agent_job_def bindP_def store_call_def liftR_def Let_def)
  moreover then have "execute_agent_job demo_settings demo_env ''t9'' demo_run_job (demo_job_world 2)
      = (Inr (Final_answer [104] []), snd (execute_agent_job demo_settings demo_env ''t9'' demo_run_job (demo_job_world 2)))"
    by (simp add: prod_eq_iff)
  ultimately show ?thesis
    using job_answer_is_durable [OF _ demo_undisturbed [of id] demo_job_world_simps(5)] demo_runs_inv
    by (fastforce simp: demo_run_job_def)
qed



lemma run_agent_delivery_witness:
  "run_agent demo_settings demo_env ''t1'' ''r2'' (Some ''crewai.acme'') demo_run_job (demo_job_world 0)
     = (Inl Value_error, demo_job_world 0)"
proof -
  have "run_agent demo_settings demo_env ''t1'' ''r2'' (Some ''crewai.acme'') demo_run_job (demo_job_world 0)
     = (fst (run_agent demo_settings demo_env ''t1'' ''r2'' (Some ''crewai.acme'') demo_run_job (demo_job_world 0)), demo_job_world 0)"
    using run_agent_delivery [OF prod.collapse [symmetric], where st = demo_settings and env = demo_env and token = "''t1''"
      and request_id = "''r2''" and routing_key = "Some ''crewai.acme''" and job = demo_run_job and w = "demo_job_world 0"]
    by (simp add: prod_eq_iff) (simp add: demo_run_job_def)
  then show ?thesis using demo_job_valid by (simp add: run_agent_def raiseP_def demo_run_job_def)
qed

end
