(* ===== verification/Crew.thy ===== *)
theory Crew
  imports Tenancy
begin

text \<open>
  The inference-only crew: the domain entities and factories (\<open>domain/entities\<close>, \<open>domain/factories\<close>),
  the use case (\<open>use_cases/run_crew.py\<close>), its runner (\<open>services/crew_runner.py\<close>) and the Celery task with
  its retries (\<open>workers/crew_task.py\<close>). The chat model is \<open>llm n message\<close>, its reply or exception at the
  \<open>n\<close>-th call; the state is the number of calls made. Agents and tasks are mutable and shared: they
  live in the lists of the crew and are referred to by index.
\<close>

section \<open>Entities\<close>

type_synonym llm = "nat \<Rightarrow> ustr \<Rightarrow> exn + ustr"

definition generate :: "llm \<Rightarrow> ustr \<Rightarrow> (nat, exn, ustr) proc" where
  "generate llm prompt n = (llm n prompt, n + 1)"

text \<open>The payload \<open>Crew.kickoff\<close> hands to an agent; \<open>None\<close> where the key is absent.\<close>

record agent_payload =
  pl_task_description :: "ustr option"
  pl_expected_output :: "ustr option"
  pl_context :: "ustr option"

record agent =
  ae_role :: ustr
  ae_goal :: ustr
  ae_backstory :: ustr
  ae_verbose :: bool
  ae_payload :: agent_payload
  ae_llm :: "llm option"

record task =
  tk_name :: ustr
  tk_description :: ustr
  tk_agent :: nat
  tk_expected_output :: ustr
  tk_context :: "nat list"
  tk_result :: "ustr option"

record crew =
  cr_agents :: "agent list"
  cr_tasks :: "task list"

definition newline :: ustr where
  "newline = [10]"

definition context_heading :: ustr where
  "context_heading = newline @ newline @ ucs ''Previous task output:'' @ newline"

text \<open>\<open>Agent.kickoff\<close>: its response; the other entries of the returned dictionary are the agent's fields.\<close>

definition agent_message :: "agent_payload \<Rightarrow> ustr" where
  "agent_message pl =
     (case pl_task_description pl of None \<Rightarrow> [] | Some d \<Rightarrow> d) @
     (case pl_context pl of None \<Rightarrow> [] | Some c \<Rightarrow> if c = [] then [] else context_heading @ c)"

definition agent_kickoff :: "agent \<Rightarrow> (nat, exn, ustr) proc" where
  "agent_kickoff a =
     (case ae_llm a of
        None \<Rightarrow> returnP (ucs ''Processed by '' @ ae_role a)
      | Some llm \<Rightarrow> generate llm (agent_message (ae_payload a)))"

text \<open>\<open>"\n".join(\<dots>)\<close>\<close>

fun join_with :: "'a list \<Rightarrow> 'a list list \<Rightarrow> 'a list" where
  "join_with sep [] = []"
| "join_with sep [x] = x"
| "join_with sep (x # y # zs) = x @ sep @ join_with sep (y # zs)"

definition nonempty_results :: "ustr option list \<Rightarrow> ustr list" where
  "nonempty_results rs = concat (map (\<lambda>r. case r of None \<Rightarrow> [] | Some x \<Rightarrow> if x = [] then [] else [x]) rs)"

text \<open>The payload of a task: its own context when it names tasks, else the previous output.\<close>

definition task_payload :: "crew \<Rightarrow> task \<Rightarrow> ustr option \<Rightarrow> agent_payload" where
  "task_payload crew task previous =
     \<lparr>pl_task_description = Some (tk_description task), pl_expected_output = Some (tk_expected_output task),
      pl_context =
        (if tk_context task \<noteq> []
         then Some (join_with newline (nonempty_results (map (\<lambda>i. tk_result (cr_tasks crew ! i)) (tk_context task))))
         else (case previous of None \<Rightarrow> None | Some c \<Rightarrow> if c = [] then None else Some c))\<rparr>"

definition set_payload :: "nat \<Rightarrow> agent_payload \<Rightarrow> crew \<Rightarrow> crew" where
  "set_payload i pl crew = crew\<lparr>cr_agents := (cr_agents crew)[i := (cr_agents crew ! i)\<lparr>ae_payload := pl\<rparr>]\<rparr>"

definition set_result :: "nat \<Rightarrow> ustr \<Rightarrow> crew \<Rightarrow> crew" where
  "set_result i r crew = crew\<lparr>cr_tasks := (cr_tasks crew)[i := (cr_tasks crew ! i)\<lparr>tk_result := Some r\<rparr>]\<rparr>"

text \<open>An entry of \<open>Crew.kickoff\<close>'s results: the agent's role, the task's description and the output.\<close>

type_synonym crew_result = "ustr \<times> ustr \<times> ustr"

text \<open>\<open>Crew.kickoff\<close>: the loop over the tasks from the \<open>i\<close>-th on.\<close>

fun kickoff_tasks :: "nat list \<Rightarrow> crew \<Rightarrow> ustr option \<Rightarrow> (nat, exn, crew_result list \<times> crew) proc" where
  "kickoff_tasks [] crew previous = returnP ([], crew)"
| "kickoff_tasks (i # is) crew previous =
     (let task = cr_tasks crew ! i; agent = tk_agent task;
          crew1 = set_payload agent (task_payload crew task previous) crew
      in bindP (agent_kickoff (cr_agents crew1 ! agent)) (\<lambda>out.
         let crew2 = set_result i out crew1
         in bindP (kickoff_tasks is crew2 (Some out)) (\<lambda>(results, crew3).
            returnP ((ae_role (cr_agents crew1 ! agent), tk_description task, out) # results, crew3))))"

definition kickoff :: "crew \<Rightarrow> (nat, exn, crew_result list \<times> crew) proc" where
  "kickoff crew = kickoff_tasks [0..<length (cr_tasks crew)] crew None"

section \<open>Factories\<close>

definition empty_payload :: agent_payload where
  "empty_payload = \<lparr>pl_task_description = None, pl_expected_output = None, pl_context = None\<rparr>"

definition make_agent :: "string \<Rightarrow> string \<Rightarrow> string \<Rightarrow> llm \<Rightarrow> agent" where
  "make_agent role goal backstory llm =
     \<lparr>ae_role = ucs role, ae_goal = ucs goal, ae_backstory = ucs backstory, ae_verbose = True,
      ae_payload = empty_payload, ae_llm = Some llm\<rparr>"

definition research_agent :: "llm \<Rightarrow> agent" where
  "research_agent = make_agent ''Research Specialist'' ''Analyze problems deeply and extract insights''
     ''Expert researcher with strong analytical skills''"

definition processing_agent :: "llm \<Rightarrow> agent" where
  "processing_agent = make_agent ''Processing Specialist'' ''Convert research into structured actionable output''
     ''Expert in summarization''"

text \<open>\<open>LLMAgentFactory.create\<close>\<close>

definition create_agent :: "string \<Rightarrow> llm \<Rightarrow> exn + agent" where
  "create_agent agent_type llm =
     (if agent_type = ''research'' then Inr (research_agent llm)
      else if agent_type = ''processing'' then Inr (processing_agent llm)
      else Inl Value_error)"

text \<open>\<open>TaskFactory\<close>; \<open>payload\<close> is the rendering of the payload dictionary in the description.\<close>

definition analysis_task :: "ustr \<Rightarrow> nat \<Rightarrow> task" where
  "analysis_task payload agent =
     \<lparr>tk_name = ucs ''Engineering Analysis'',
      tk_description = ucs ''Analyze the following input and extract key points:'' @ newline @ payload,
      tk_agent = agent, tk_expected_output = ucs ''Structured understanding of the input'',
      tk_context = [], tk_result = None\<rparr>"

definition quoted :: "ustr \<Rightarrow> ustr" where
  "quoted t = [39] @ t @ [39]"

definition processing_task :: "ustr \<Rightarrow> nat \<Rightarrow> task" where
  "processing_task payload agent =
     \<lparr>tk_name = ucs ''Engineering Processing'',
      tk_description =
        ucs (''Using the research analysis provided in context, generate a direct and concise response. '' @
          ''Do not include any preamble, meta-commentary, or phrases like '') @ quoted (ucs ''Based on the input'') @
        ucs '' or '' @ quoted (ucs ''I'' @ [39] @ ucs ''ll generate'') @
        ucs ''. Start your response directly with the answer.'' @ newline @ payload,
      tk_agent = agent,
      tk_expected_output = ucs ''A direct, concise final response with no preamble or meta-commentary'',
      tk_context = [], tk_result = None\<rparr>"

text \<open>\<open>CrewFactory.create\<close>: agent and task 1 come second, and task 1 has task 0 as its context.\<close>

definition create_crew :: "ustr \<Rightarrow> llm \<Rightarrow> exn + crew" where
  "create_crew payload llm =
     bindR (create_agent ''research'' llm) (\<lambda>research.
     bindR (create_agent ''processing'' llm) (\<lambda>processing.
     Inr \<lparr>cr_agents = [research, processing],
          cr_tasks = [analysis_task payload 0, (processing_task payload 1)\<lparr>tk_context := [0]\<rparr>]\<rparr>))"

section \<open>The use case, the runner and the task\<close>

record crew_response =
  cw_tenant :: string
  cw_agent_type :: ustr
  cw_input :: ustr
  cw_output :: ustr

text \<open>
  \<open>RunCrewUseCase.execute\<close>. \<open>render message agent_type\<close> is the text of the payload dictionary, \<open>provider\<close>
  what \<open>llm_provider.get()\<close> returns or raises.
\<close>

definition run_crew_use_case ::
  "(ustr \<Rightarrow> ustr \<Rightarrow> ustr) \<Rightarrow> (exn + llm) \<Rightarrow> string \<Rightarrow> ustr \<Rightarrow> ustr \<Rightarrow> (nat, exn, crew_response) proc" where
  "run_crew_use_case render provider t agent_type message =
     (if message = [] then raiseP Value_error
      else bindP (liftR provider) (\<lambda>llm.
        bindP (liftR (create_crew (render message agent_type) llm)) (\<lambda>crew.
        bindP (kickoff crew) (\<lambda>(results, _).
        returnP \<lparr>cw_tenant = t, cw_agent_type = agent_type, cw_input = message, cw_output = snd (snd (last results))\<rparr>))))"

text \<open>\<open>CrewRunner.run\<close>, on a payload with its agent type and its message where they are present.\<close>

definition crew_runner ::
  "(ustr \<Rightarrow> ustr \<Rightarrow> ustr) \<Rightarrow> (exn + llm) \<Rightarrow> string \<Rightarrow> ustr option \<Rightarrow> ustr option \<Rightarrow> (nat, exn, crew_response) proc" where
  "crew_runner render provider t agent_type message =
     run_crew_use_case render provider t (case agent_type of None \<Rightarrow> ucs ''research'' | Some a \<Rightarrow> a)
       (py_strip (case message of None \<Rightarrow> [] | Some m \<Rightarrow> m))"

text \<open>A Celery payload: a JSON text, an object with its agent type (a text) and input, or any other value.\<close>

datatype message_value = Msg_text ustr | Msg_other

datatype input_value = Input_object "message_value option" | Input_other

datatype crew_payload = Payload_text ustr | Payload_object "ustr option" "input_value option" | Payload_other

record crew_task_cfg =
  ck_settings :: tenant_settings
  ck_max_retries :: nat
  ck_loads :: "ustr \<Rightarrow> exn + crew_payload"
  ck_render :: "ustr \<Rightarrow> ustr \<Rightarrow> ustr"
  ck_provider :: "exn + llm"
  ck_draw :: "nat \<Rightarrow> rat"

text \<open>The message of a payload object, as the task reads it.\<close>

definition payload_message :: "input_value option \<Rightarrow> exn + ustr" where
  "payload_message input =
     (case input of
        Some (Input_object (Some (Msg_text m))) \<Rightarrow> if py_strip m = [] then Inl Value_error else Inr m
      | _ \<Rightarrow> Inl Value_error)"

definition check_payload :: "crew_task_cfg \<Rightarrow> string \<Rightarrow> crew_payload \<Rightarrow> exn + ustr option \<times> ustr" where
  "check_payload ck t payload =
     (if t = [] then Inl Value_error
      else bindR (tenant_queue (ck_settings ck) t) (\<lambda>_.
        bindR (case payload of Payload_text s \<Rightarrow> ck_loads ck s | p \<Rightarrow> Inr p) (\<lambda>p.
        case p of
          Payload_object agent_type input \<Rightarrow>
            bindR (payload_message input) (\<lambda>m. Inr (agent_type, m))
        | _ \<Rightarrow> Inl Value_error)))"

text \<open>What a delivery ends with, when it does not fail: a response, or a retry after a delay.\<close>

datatype crew_delivery = Crew_done crew_response | Crew_retry rat

text \<open>\<open>run_crew\<close>, at its \<open>retries\<close>-th retry; \<open>ck_draw n\<close> is the random draw after \<open>n\<close> model calls.\<close>

definition run_crew_task ::
  "crew_task_cfg \<Rightarrow> nat \<Rightarrow> string \<Rightarrow> crew_payload \<Rightarrow> (nat, exn, crew_delivery) proc" where
  "run_crew_task ck retries t payload =
     bindP (liftR (check_payload ck t payload)) (\<lambda>(agent_type, message).
     tryP (bindP (crew_runner (ck_render ck) (ck_provider ck) t agent_type (Some message)) (\<lambda>r. returnP (Crew_done r)))
       (\<lambda>e. if is_retryable e \<and> retries < ck_max_retries ck
            then bindP (getP (ck_draw ck)) (\<lambda>u.
              case retry_delay retries e u of
                Some d \<Rightarrow> returnP (Crew_retry d)
              | None \<Rightarrow> raiseP e)
            else raiseP e))"

section \<open>The crew computes its outputs in order\<close>

text \<open>
  A reference definition without mutation: the replies so far determine the prompt of the next task.
\<close>

definition task_context_text :: "task list \<Rightarrow> ustr list \<Rightarrow> nat \<Rightarrow> ustr" where
  "task_context_text tasks replies i =
     (if tk_context (tasks ! i) \<noteq> []
      then join_with newline (filter (\<lambda>r. r \<noteq> []) (map (\<lambda>j. replies ! j) (tk_context (tasks ! i))))
      else if i = 0 then [] else replies ! (i - 1))"

definition task_prompt :: "task list \<Rightarrow> ustr list \<Rightarrow> nat \<Rightarrow> ustr" where
  "task_prompt tasks replies i =
     tk_description (tasks ! i) @
     (let c = task_context_text tasks replies i in if c = [] then [] else context_heading @ c)"

definition agent_reply :: "agent \<Rightarrow> ustr \<Rightarrow> (nat, exn, ustr) proc" where
  "agent_reply a prompt =
     (case ae_llm a of None \<Rightarrow> returnP (ucs ''Processed by '' @ ae_role a) | Some llm \<Rightarrow> generate llm prompt)"

fun crew_replies :: "crew \<Rightarrow> nat list \<Rightarrow> ustr list \<Rightarrow> (nat, exn, ustr list) proc" where
  "crew_replies crew [] replies = returnP replies"
| "crew_replies crew (i # is) replies =
     bindP (agent_reply (cr_agents crew ! tk_agent (cr_tasks crew ! i)) (task_prompt (cr_tasks crew) replies i))
       (\<lambda>out. crew_replies crew is (replies @ [out]))"

definition result_entry :: "crew \<Rightarrow> nat \<Rightarrow> ustr \<Rightarrow> crew_result" where
  "result_entry crew i out =
     (ae_role (cr_agents crew ! tk_agent (cr_tasks crew ! i)), tk_description (cr_tasks crew ! i), out)"

text \<open>A crew whose tasks name existing agents and only earlier tasks as their context.\<close>

definition well_formed_crew :: "crew \<Rightarrow> bool" where
  "well_formed_crew crew \<longleftrightarrow>
     (\<forall>i < length (cr_tasks crew). tk_agent (cr_tasks crew ! i) < length (cr_agents crew) \<and>
        (\<forall>j \<in> set (tk_context (cr_tasks crew ! i)). j < i))"

text \<open>The crew in the middle of a kickoff, after the replies \<open>rs\<close>.\<close>

definition crew_after :: "crew \<Rightarrow> ustr list \<Rightarrow> crew \<Rightarrow> bool" where
  "crew_after crew rs c \<longleftrightarrow>
     length (cr_agents c) = length (cr_agents crew) \<and> length (cr_tasks c) = length (cr_tasks crew) \<and>
     (\<forall>i < length (cr_agents crew). ae_llm (cr_agents c ! i) = ae_llm (cr_agents crew ! i) \<and>
        ae_role (cr_agents c ! i) = ae_role (cr_agents crew ! i)) \<and>
     (\<forall>i < length (cr_tasks crew). tk_description (cr_tasks c ! i) = tk_description (cr_tasks crew ! i) \<and>
        tk_agent (cr_tasks c ! i) = tk_agent (cr_tasks crew ! i) \<and>
        tk_context (cr_tasks c ! i) = tk_context (cr_tasks crew ! i)) \<and>
     (\<forall>i < length rs. tk_result (cr_tasks c ! i) = Some (rs ! i))"

lemma nonempty_results_Some: "nonempty_results (map (\<lambda>i. Some (f i)) is) = filter (\<lambda>r. r \<noteq> []) (map f is)"
  by (induction "is") (auto simp: nonempty_results_def)

lemma crew_after_message:
  assumes wf: "well_formed_crew crew" and c: "crew_after crew rs c" and i: "length rs < length (cr_tasks crew)"
  shows "agent_message (task_payload c (cr_tasks c ! length rs) (if rs = [] then None else Some (last rs)))
    = task_prompt (cr_tasks crew) rs (length rs)"
proof -
  let ?t = "cr_tasks crew ! length rs"
  have "map (\<lambda>j. tk_result (cr_tasks c ! j)) (tk_context ?t) = map (\<lambda>j. Some (rs ! j)) (tk_context ?t)"
    using wf c i by (auto simp: well_formed_crew_def crew_after_def)
  then have "nonempty_results (map (\<lambda>j. tk_result (cr_tasks c ! j)) (tk_context ?t))
      = filter (\<lambda>r. r \<noteq> []) (map (\<lambda>j. rs ! j) (tk_context ?t))"
    by (simp only: nonempty_results_Some)
  then show ?thesis using c i
    by (auto simp: agent_message_def task_payload_def crew_after_def task_prompt_def task_context_text_def
        last_conv_nth Let_def)
qed

lemma crew_after_step:
  assumes c: "crew_after crew rs c" and i: "length rs < length (cr_tasks crew)" and a: "a < length (cr_agents crew)"
  shows "crew_after crew (rs @ [out]) (set_result (length rs) out (set_payload a pl c))"
  using c i a by (auto simp: crew_after_def set_result_def set_payload_def nth_list_update nth_append less_Suc_eq)

lemma crew_replies_prefix: "crew_replies crew is rs s = (Inr os, s') \<Longrightarrow> \<exists>more. os = rs @ more"
  by (induction "is" arbitrary: rs s) (fastforce simp: returnP_def bindP_def split: prod.splits sum.splits)+

lemma kickoff_tasks_eq:
  assumes wf: "well_formed_crew crew" and "crew_after crew rs c" and "length rs \<le> length (cr_tasks crew)"
    and "prev = (if rs = [] then None else Some (last rs))"
  shows "bindP (kickoff_tasks [length rs..<length (cr_tasks crew)] c prev) (\<lambda>(results, _). returnP results) =
     bindP (crew_replies crew [length rs..<length (cr_tasks crew)] rs)
       (\<lambda>out. returnP (map (\<lambda>i. result_entry crew i (out ! i)) [length rs..<length (cr_tasks crew)]))"
  using assms(2-)
proof (induction "length (cr_tasks crew) - length rs" arbitrary: rs c prev)
  case 0
  then show ?case by (simp add: bindP_def returnP_def)
next
  case (Suc k)
  let ?n = "length (cr_tasks crew)" and ?i = "length rs"
  have i: "?i < ?n" using Suc by simp
  let ?t = "cr_tasks crew ! ?i" and ?a = "tk_agent (cr_tasks crew ! ?i)"
  let ?c1 = "set_payload ?a (task_payload c (cr_tasks c ! ?i) prev) c"
  have t: "tk_description (cr_tasks c ! ?i) = tk_description ?t" "tk_agent (cr_tasks c ! ?i) = ?a"
    and a: "?a < length (cr_agents crew)"
    using Suc.prems(1) i wf by (auto simp: crew_after_def well_formed_crew_def)
  have agent: "cr_agents ?c1 ! ?a = (cr_agents c ! ?a)\<lparr>ae_payload := task_payload c (cr_tasks c ! ?i) prev\<rparr>"
    and same: "ae_llm (cr_agents c ! ?a) = ae_llm (cr_agents crew ! ?a)" "ae_role (cr_agents c ! ?a) = ae_role (cr_agents crew ! ?a)"
    using Suc.prems(1) a by (auto simp: crew_after_def set_payload_def)
  have msg: "agent_message (task_payload c (cr_tasks c ! ?i) prev) = task_prompt (cr_tasks crew) rs ?i"
    using crew_after_message [OF wf Suc.prems(1) i] by (simp add: Suc.prems(3))
  have asked: "agent_kickoff (cr_agents ?c1 ! ?a) = agent_reply (cr_agents crew ! ?a) (task_prompt (cr_tasks crew) rs ?i)"
    by (simp add: agent_kickoff_def agent_reply_def agent same msg split: option.split)
  have role: "ae_role (cr_agents ?c1 ! ?a) = ae_role (cr_agents crew ! ?a)" by (simp add: agent same)
  have ih: "bindP (kickoff_tasks [Suc ?i..<?n] (set_result ?i out ?c1) (Some out)) (\<lambda>(results, _). returnP results) =
     bindP (crew_replies crew [Suc ?i..<?n] (rs @ [out]))
       (\<lambda>out. returnP (map (\<lambda>i. result_entry crew i (out ! i)) [Suc ?i..<?n]))" for out
    using Suc.hyps(1) [of "rs @ [out]" "set_result ?i out ?c1" "Some out"] Suc.hyps(2) i
      crew_after_step [OF Suc.prems(1) i a] by simp
  have rest: "bindP (kickoff_tasks [Suc ?i..<?n] (set_result ?i out ?c1) (Some out))
       (\<lambda>(results, _). returnP (result_entry crew ?i out # results)) s =
     bindP (crew_replies crew [Suc ?i..<?n] (rs @ [out]))
       (\<lambda>os. returnP (map (\<lambda>i. result_entry crew i (os ! i)) (?i # [Suc ?i..<?n]))) s" for out s
  proof -
    have "bindP (kickoff_tasks [Suc ?i..<?n] (set_result ?i out ?c1) (Some out))
        (\<lambda>(results, _). returnP (result_entry crew ?i out # results))
      = bindP (bindP (kickoff_tasks [Suc ?i..<?n] (set_result ?i out ?c1) (Some out)) (\<lambda>(results, _). returnP results))
          (\<lambda>results. returnP (result_entry crew ?i out # results))"
      by (simp add: bindP_assoc bindP_returnP split_def)
    also have "\<dots> = bindP (crew_replies crew [Suc ?i..<?n] (rs @ [out]))
        (\<lambda>os. returnP (result_entry crew ?i out # map (\<lambda>i. result_entry crew i (os ! i)) [Suc ?i..<?n]))"
      by (simp add: ih bindP_assoc bindP_returnP)
    finally show ?thesis
      by (simp, intro bindP_cong) (auto dest!: crew_replies_prefix simp: nth_append)
  qed
  show ?case
    unfolding upt_conv_Cons [OF i] kickoff_tasks.simps crew_replies.simps Let_def t asked role bindP_assoc
    by (rule ext, rule bindP_cong) (simp add: bindP_assoc bindP_returnP split_def result_entry_def [symmetric]
      rest [unfolded split_def] del: upt_Suc)
qed

text \<open>
  C30. The kickoff loop is the reference. For every crew whose tasks name existing agents and have only
  earlier tasks as their context, running the tasks with shared, mutated agents and stored results gives
  exactly the entries, the model calls and the exceptions of the reference, in which the replies so far
  alone determine the next prompt.
\<close>

theorem crew_kickoff_equivalence:
  assumes "well_formed_crew crew"
  shows "bindP (kickoff crew) (\<lambda>(results, _). returnP results) =
     bindP (crew_replies crew [0..<length (cr_tasks crew)] [])
       (\<lambda>out. returnP (map (\<lambda>i. result_entry crew i (out ! i)) [0..<length (cr_tasks crew)]))"
  using kickoff_tasks_eq [OF assms, of "[]" crew None] by (simp add: kickoff_def crew_after_def)

lemma created_crew:
  "create_crew payload llm = Inr \<lparr>cr_agents = [research_agent llm, processing_agent llm],
     cr_tasks = [analysis_task payload 0, (processing_task payload 1)\<lparr>tk_context := [0]\<rparr>]\<rparr>"
  by (simp add: create_crew_def create_agent_def)

lemma two_calls:
  assumes "bindP (generate llm p) (\<lambda>a. bindP (generate llm (q a)) (\<lambda>b. returnP (f [a, b]))) n = (Inr rs, n')"
  shows "\<exists>a b. llm n p = Inr a \<and> llm (n + 1) (q a) = Inr b \<and> n' = n + 2 \<and> rs = f [a, b]"
  using assms by (auto simp: bindP_def generate_def returnP_def split: sum.splits)

lemma created_crew_kickoff:
  assumes "create_crew payload llm = Inr crew" and "kickoff crew n = (Inr (results, crew'), n')"
  shows "\<exists>a. n' = n + 2 \<and> llm n (tk_description (analysis_task payload 0)) = Inr a \<and>
     llm (n + 1) (tk_description (processing_task payload 1) @ (if a = [] then [] else context_heading @ a))
       = Inr (snd (snd (last results)))"
proof -
  have crew: "crew = \<lparr>cr_agents = [research_agent llm, processing_agent llm],
     cr_tasks = [analysis_task payload 0, (processing_task payload 1)\<lparr>tk_context := [0]\<rparr>]\<rparr>"
    using assms(1) by (simp add: created_crew)
  have wf: "well_formed_crew crew"
    by (auto simp: crew well_formed_crew_def analysis_task_def processing_task_def less_Suc_eq)
  have two: "[0..<length (cr_tasks crew)] = [0, 1]" by (simp add: crew upt_rec)
  have prompts: "task_prompt (cr_tasks crew) [] 0 = tk_description (analysis_task payload 0)"
    "task_prompt (cr_tasks crew) [a] 1
       = tk_description (processing_task payload 1) @ (if a = [] then [] else context_heading @ a)" for a
    by (simp_all add: crew task_prompt_def task_context_text_def analysis_task_def processing_task_def Let_def)
  have agents: "agent_reply (cr_agents crew ! tk_agent (cr_tasks crew ! 0)) = generate llm"
    "agent_reply (cr_agents crew ! tk_agent (cr_tasks crew ! 1)) = generate llm"
    by (simp_all add: crew fun_eq_iff agent_reply_def analysis_task_def processing_task_def research_agent_def
        processing_agent_def make_agent_def)
  have "bindP (kickoff crew) (\<lambda>(results, _). returnP results) n = (Inr results, n')"
    by (simp add: bindP_def assms(2) returnP_def)
  then have "bindP (crew_replies crew [0, 1] [])
       (\<lambda>out. returnP (map (\<lambda>i. result_entry crew i (out ! i)) [0, 1])) n = (Inr results, n')"
    using kickoff_tasks_eq [OF wf, of "[]" crew None] by (simp add: kickoff_def crew_after_def two)
  then obtain a b where "llm n (task_prompt (cr_tasks crew) [] 0) = Inr a"
      and "llm (n + 1) (task_prompt (cr_tasks crew) [a] 1) = Inr b" and "n' = n + 2"
      and "results = map (\<lambda>i. result_entry crew i ([a, b] ! i)) [0, 1]"
    unfolding crew_replies.simps agents append_Nil append_Cons bindP_assoc bindP_returnP
    using two_calls [of llm "task_prompt (cr_tasks crew) [] 0" "\<lambda>x. task_prompt (cr_tasks crew) [x] 1"
      "\<lambda>l. map (\<lambda>i. result_entry crew i (l ! i)) [0, 1]" n results n'] by blast
  then show ?thesis by (auto simp: prompts(1) prompts(2) [simplified] result_entry_def)
qed

text \<open>
  The crew's answer. A crew run returns the model's reply to its second prompt: the processing
  task's description, followed by the reply to the analysis prompt where that reply is not empty. It
  makes exactly these two model calls, in this order.
\<close>

lemma crew_answer_chain:
  assumes "run_crew_use_case render provider t agent_type message n = (Inr r, n')"
  shows "\<exists>llm a. provider = Inr llm \<and> n' = n + 2 \<and>
     llm n (tk_description (analysis_task (render message agent_type) 0)) = Inr a \<and>
     llm (n + 1) (tk_description (processing_task (render message agent_type) 1) @
        (if a = [] then [] else context_heading @ a)) = Inr (cw_output r) \<and>
     cw_tenant r = t \<and> cw_input r = message"
proof -
  obtain llm crew results crew' where "provider = Inr llm" and "create_crew (render message agent_type) llm = Inr crew"
    and "kickoff crew n = (Inr (results, crew'), n')" and "cw_output r = snd (snd (last results))"
    and "cw_tenant r = t" and "cw_input r = message"
    using assms
    by (auto simp: run_crew_use_case_def raiseP_def bindP_def liftR_def returnP_def split: if_splits sum.splits prod.splits)
  then show ?thesis using created_crew_kickoff by metis
qed

section \<open>Retries\<close>

lemma run_crew_task_retryD:
  assumes "run_crew_task ck retries t payload n = (Inr (Crew_retry d), n')"
  shows "retries < ck_max_retries ck \<and> (\<exists>e u. is_retryable e \<and> retry_delay retries e (ck_draw ck u) = Some d)"
  using assms
  by (auto simp: run_crew_task_def bindP_def liftR_def tryP_def returnP_def raiseP_def getP_def
      split: sum.splits prod.splits if_splits option.splits)

text \<open>
  Retries are bounded and polite. The task asks for another delivery only after a transient
  inference failure and while retries are left, after a delay between 0 and 60 seconds, which without a
  header of the provider is at most 30 seconds and at most two to the number of retries.
\<close>

lemma crew_retry_bounds:
  assumes "\<And>k. 0 \<le> ck_draw ck k \<and> ck_draw ck k \<le> 1"
    and "run_crew_task ck retries t payload n = (Inr (Crew_retry d), n')"
  shows "retries < ck_max_retries ck \<and> 0 \<le> d \<and> d \<le> 60 \<and>
     (\<exists>e. is_retryable e \<and> (retry_after_header e = None \<longrightarrow> d \<le> 30 \<and> d \<le> 2 ^ retries))"
  using run_crew_task_retryD [OF assms(2)] retry_delay_bounds assms(1) by meson

text \<open>
  All the deliveries of a task: Celery delivers it again after a retry, with the next retry number.
  The number of deliveries and of model calls made is counted.
\<close>

function crew_deliveries :: "crew_task_cfg \<Rightarrow> string \<Rightarrow> crew_payload \<Rightarrow> nat \<Rightarrow> nat \<Rightarrow> (exn + crew_response) \<times> nat \<times> nat" where
  "crew_deliveries ck t payload retries n =
     (case run_crew_task ck retries t payload n of
        (Inl e, n') \<Rightarrow> (Inl e, 1, n')
      | (Inr (Crew_done r), n') \<Rightarrow> (Inr r, 1, n')
      | (Inr (Crew_retry d), n') \<Rightarrow>
          let (r, k, n'') = crew_deliveries ck t payload (retries + 1) n' in (r, k + 1, n''))"
  by pat_completeness auto

termination
  by (relation "measure (\<lambda>(ck, t, payload, retries, n). ck_max_retries ck - retries)")
    (auto dest!: sym [of _ "run_crew_task _ _ _ _ _"] run_crew_task_retryD)

declare crew_deliveries.simps [simp del]

lemma kickoff_tasks_calls: "wp (kickoff_tasks is crew prev) (\<lambda>_ m. m \<le> n + length is) (\<lambda>_ m. m \<le> n + length is) n"
proof (induction "is" arbitrary: crew prev n)
  case (Cons i "is")
  have one: "wp (agent_kickoff a) (\<lambda>_ m. m \<le> n + 1) (\<lambda>_ m. m \<le> n + 1) n" for a n
    by (auto simp: wp_def agent_kickoff_def returnP_def generate_def split: option.split sum.split)
  show ?case unfolding kickoff_tasks.simps Let_def wp_bindP [of "agent_kickoff _"]
    by (rule wp_mono [OF one])
      (auto simp: wp_bindP intro!: wp_mono [OF Cons] wp_returnP [THEN iffD2] split: prod.split)
qed (simp add: wp_returnP)

lemma crew_runner_calls:
  "wp (crew_runner render provider t agent_type message) (\<lambda>_ m. m \<le> n + 2) (\<lambda>_ m. m \<le> n + 2) n"
proof -
  have kick: "wp (kickoff crew) (\<lambda>_ m. m \<le> n + 2) (\<lambda>_ m. m \<le> n + 2) n" if "create_crew p llm = Inr crew" for p llm crew
    using kickoff_tasks_calls [of "[0..<length (cr_tasks crew)]" crew None n] that by (auto simp: kickoff_def created_crew)
  have "wp (bindP (liftR (create_crew p llm)) (\<lambda>crew. bindP (kickoff crew) (\<lambda>(results, _). returnP (f results))))
      (\<lambda>_ m. m \<le> n + 2) (\<lambda>_ m. m \<le> n + 2) n" for p llm and f :: "crew_result list \<Rightarrow> crew_response"
  proof (cases "create_crew p llm")
    case (Inr crew)
    show ?thesis unfolding Inr wp_bindP wp_liftR sum.case
      by (rule wp_mono [OF kick [OF Inr]]) (auto simp: wp_returnP)
  qed (simp add: wp_bindP wp_liftR)
  then show ?thesis unfolding crew_runner_def run_crew_use_case_def wp_if wp_raiseP wp_bindP [of "liftR provider"] wp_liftR
    by (simp split: sum.split)
qed

lemma run_crew_task_calls: "wp (run_crew_task ck retries t payload) (\<lambda>_ m. m \<le> n + 2) (\<lambda>_ m. m \<le> n + 2) n"
proof (cases "check_payload ck t payload")
  case (Inr p)
  show ?thesis unfolding run_crew_task_def Inr wp_bindP [of "liftR _"] wp_liftR sum.case
    by (cases p; simp add: wp_tryP wp_bindP; rule wp_mono [OF crew_runner_calls])
      (auto simp: wp_rules split: option.split)
qed (simp add: run_crew_task_def wp_bindP wp_liftR)

text \<open>
  C31. Crew tasks end. The deliveries of a crew task end after at most its retry limit plus one, however
  the model fails, and all of them together make at most two model calls each.
\<close>

theorem crew_deliveries_bounded:
  assumes "crew_deliveries ck t payload retries n = (r, k, n')" and "retries \<le> ck_max_retries ck"
  shows "k + retries \<le> ck_max_retries ck + 1 \<and> n' \<le> n + 2 * k"
  using assms
proof (induction ck t payload retries n arbitrary: r k n' rule: crew_deliveries.induct)
  case (1 ck t payload retries n)
  have calls: "snd (run_crew_task ck retries t payload n) \<le> n + 2"
    using run_crew_task_calls [of ck retries t payload n] by (auto simp: wp_def split: prod.splits sum.splits)
  obtain out m where run: "run_crew_task ck retries t payload n = (out, m)" by (cases "run_crew_task ck retries t payload n")
  show ?case
  proof (cases "\<exists>d. out = Inr (Crew_retry d)")
    case True
    then obtain d where out: "out = Inr (Crew_retry d)" by blast
    have more: "retries + 1 \<le> ck_max_retries ck" using run_crew_task_retryD [OF run [unfolded out]] by simp
    obtain r' k' n'' where rest: "crew_deliveries ck t payload (retries + 1) m = (r', k', n'')"
      by (cases "crew_deliveries ck t payload (retries + 1) m")
    have "k = k' + 1 \<and> n' = n''"
      using 1(2) rest by (simp add: crew_deliveries.simps [of ck t payload retries n] run out)
    moreover have "k' + (retries + 1) \<le> ck_max_retries ck + 1 \<and> n'' \<le> m + 2 * k'"
      using 1(1) [OF run [symmetric] out refl rest more] by simp
    ultimately show ?thesis using calls run by simp
  next
    case False
    then have "k = 1 \<and> n' = m"
      using 1(2) by (auto simp: crew_deliveries.simps [of ck t payload retries n] run split: sum.splits crew_delivery.splits)
    then show ?thesis using calls run 1(3) by simp
  qed
qed

end
