(* ===== verification/Agent_Api.thy ===== *)
theory Agent_Api
  imports Job_Runner
begin

text \<open>
  The HTTP operations on agent runs (\<open>api/agent_routes.py\<close>): submission, reading, cancellation and
  resumption, behind the permission gate, with the run table, the ownership store and the broker as the
  outside. FastAPI's own validation has produced the request and the trusted context. A handler runs
  among other processes: before each of its calls they may change the run table, and a call may fail
  with or without having taken effect.
\<close>

section \<open>The outside of the API\<close>

record api_state =
  ap_db :: run_db
  ap_owners :: "string \<rightharpoonup> string"
  ap_queue :: "(string \<times> string \<times> run_job) list"
  ap_calls :: nat
  ap_env :: "nat \<Rightarrow> run_db \<Rightarrow> run_db"
  ap_fault :: "nat \<Rightarrow> (bool \<times> exn) option"
  ap_clock :: "nat \<Rightarrow> nat \<Rightarrow> rat"
  ap_fresh :: "nat \<Rightarrow> string"

text \<open>
  The \<open>k\<close>-th call: \<open>ap_fault k = Some (applied, e)\<close> makes it raise \<open>e\<close>, after its effect when
  \<open>applied\<close> (a write that was made but not confirmed).
\<close>

definition outside :: "(nat \<Rightarrow> api_state \<Rightarrow> exn + 'a \<times> api_state) \<Rightarrow> (api_state, exn, 'a) proc" where
  "outside f s =
     (let k = ap_calls s; s' = s\<lparr>ap_db := ap_env s k (ap_db s), ap_calls := k + 1\<rparr>
      in case ap_fault s k of
           None \<Rightarrow> (case f k s' of Inl e \<Rightarrow> (Inl e, s') | Inr (x, s'') \<Rightarrow> (Inr x, s''))
         | Some (applied, e) \<Rightarrow>
             (Inl e, if applied then (case f k s' of Inl _ \<Rightarrow> s' | Inr (_, s'') \<Rightarrow> s'') else s'))"

definition run_call :: "((nat \<Rightarrow> rat) \<Rightarrow> (run_db, exn, 'a) tx) \<Rightarrow> (api_state, exn, 'a) proc" where
  "run_call f = outside (\<lambda>k s.
     case f (ap_clock s k) (ap_db s) of Inl e \<Rightarrow> Inl e | Inr (x, db) \<Rightarrow> Inr (x, s\<lparr>ap_db := db\<rparr>))"

definition new_id :: "(api_state, exn, string) proc" where
  "new_id = getP (\<lambda>s. ap_fresh s (ap_calls s))"

record api_cfg =
  ac_settings :: agent_settings
  ac_max_duration :: rat
  ac_key_digest :: "string \<Rightarrow> string"
  ac_owner_digest :: "ustr \<Rightarrow> string"

text \<open>
  \<open>task_store.require_owner\<close> outside an attempt, and the registration that follows when it answers 404,
  as submission and resumption do.
\<close>

definition api_require_owner :: "api_cfg \<Rightarrow> string \<Rightarrow> string \<Rightarrow> (api_state, exn, unit) proc" where
  "api_require_owner ac rid t =
     outside (\<lambda>_ s. if ap_owners s (owner_key (ac_owner_digest ac) (ucs rid)) \<noteq> Some t
                    then Inl (Http_exception 404) else Inr ((), s))"

definition api_register :: "api_cfg \<Rightarrow> string \<Rightarrow> string \<Rightarrow> (api_state, exn, unit) proc" where
  "api_register ac rid t =
     outside (\<lambda>_ s. case register_owner (ac_owner_digest ac) (ucs rid) t (ap_owners s) of
                      Inl e \<Rightarrow> Inl e | Inr (u, owners) \<Rightarrow> Inr (u, s\<lparr>ap_owners := owners\<rparr>))"

definition ensure_owner :: "api_cfg \<Rightarrow> string \<Rightarrow> string \<Rightarrow> (api_state, exn, unit) proc" where
  "ensure_owner ac rid t =
     tryP (api_require_owner ac rid t)
       (\<lambda>e. if e = Http_exception 404 then api_register ac rid t else raiseP e)"

text \<open>\<open>run_agent.apply_async\<close>\<close>

definition publish_run :: "string \<Rightarrow> string \<Rightarrow> run_job \<Rightarrow> (api_state, exn, unit) proc" where
  "publish_run rid queue job = outside (\<lambda>_ s. Inr ((), s\<lparr>ap_queue := ap_queue s @ [(rid, queue, job)]\<rparr>))"

section \<open>Submission\<close>

text \<open>\<open>AgentRunRequest\<close> and \<open>AgentRunAccepted\<close>\<close>

record run_request =
  rq_message :: ustr
  rq_max_decisions :: nat
  rq_mode :: answer_mode

definition valid_run_request :: "run_request \<Rightarrow> bool" where
  "valid_run_request r \<longleftrightarrow> py_strip (rq_message r) \<noteq> [] \<and> length (rq_message r) \<le> 32768 \<and> 1 \<le> rq_max_decisions r"

record run_accepted =
  ra_run_id :: string
  ra_status :: run_state
  ra_replayed :: bool

definition request_job :: "string \<Rightarrow> string \<Rightarrow> run_request \<Rightarrow> run_job" where
  "request_job rid t r =
     \<lparr>jb_run_id = rid, jb_tenant = t, jb_message = rq_message r, jb_max_decisions = rq_max_decisions r, jb_mode = rq_mode r\<rparr>"

text \<open>\<open>enqueue\<close>: registration of the run, then publication of its job, then its confirmation.\<close>

definition enqueue_run :: "api_cfg \<Rightarrow> run_request \<Rightarrow> string \<Rightarrow> string option \<Rightarrow> (api_state, exn, run_accepted) proc" where
  "enqueue_run ac request t key =
     (if rq_max_decisions request > as_max_decisions (ac_settings ac) then raiseP (Http_exception 422)
      else bindP new_id (\<lambda>rid.
        let job = request_job rid t request
        in if \<not> valid_run_job job then raiseP Validation_error
        else bindP (run_call (create_run (ac_key_digest ac) job (PyFloat (ac_max_duration ac)) key)) (\<lambda>record.
          let replayed = (ru_id record \<noteq> rid)
          in if replayed \<and> (ru_published record \<or> ru_state record \<noteq> Queued)
             then returnP \<lparr>ra_run_id = ru_id record, ra_status = ru_state record, ra_replayed = True\<rparr>
             else let job = ru_job record; run_id = jb_run_id job
             in if \<not> valid_run_job job then raiseP Validation_error
             else bindP (liftR (tenant_queue (as_tenants (ac_settings ac)) t)) (\<lambda>queue.
               thenP (ensure_owner ac run_id t)
               (thenP (publish_run run_id queue job)
               (thenP (run_call (mark_published run_id t))
               (returnP \<lparr>ra_run_id = run_id, ra_status = Queued, ra_replayed = replayed\<rparr>)))))))"

text \<open>The handlers of \<open>submit_agent_run\<close> and of \<open>run_operation\<close>.\<close>

definition submission_error :: "exn \<Rightarrow> exn" where
  "submission_error e =
     (if e = Policy_denied_error then Http_exception 403
      else if e = Policy_evaluation_error then Http_exception 503
      else case e of
        Http_exception c \<Rightarrow> e
      | _ \<Rightarrow> if is_run_conflict e then Http_exception 409
             else if e = Redis_error \<or> e = Sqlite_error then Http_exception 503
             else Http_exception 500)"

definition operation_error :: "exn \<Rightarrow> exn" where
  "operation_error e =
     (if e = Policy_denied_error then Http_exception 403
      else if e = Policy_evaluation_error then Http_exception 503
      else if e = Run_not_found then Http_exception 404
      else if is_run_conflict e then Http_exception 409
      else if e = Sqlite_error \<or> e = Redis_error then Http_exception 503
      else case e of Http_exception c \<Rightarrow> e | _ \<Rightarrow> Http_exception 500)"

definition submit_agent_run ::
  "api_cfg \<Rightarrow> run_request \<Rightarrow> tool_context \<Rightarrow> string option \<Rightarrow> (api_state, exn, run_accepted) proc" where
  "submit_agent_run ac request ctx key =
     tryP (authorized ctx ''agent_run.create'' (enqueue_run ac request (tenant_id ctx) key))
       (\<lambda>e. raiseP (submission_error e))"

definition run_operation :: "tool_context \<Rightarrow> string \<Rightarrow> (api_state, exn, 'a) proc \<Rightarrow> (api_state, exn, 'a) proc" where
  "run_operation ctx action operation =
     tryP (authorized ctx action operation) (\<lambda>e. raiseP (operation_error e))"

section \<open>Reading, cancelling, resuming\<close>

text \<open>
  \<open>public_record\<close>, at time \<open>now\<close>; the two reported token counts, whose presence the checkpoint's model
  does not keep, are left out.
\<close>

record public_run =
  pr_run_id :: string
  pr_state :: run_state
  pr_created :: rat
  pr_updated :: rat
  pr_attempts :: nat
  pr_published :: bool
  pr_history :: "attempt_row list"
  pr_cancel :: bool
  pr_deadline :: "rat option"
  pr_lease_active :: bool
  pr_result :: "decision option"
  pr_error :: "string option"
  pr_decisions :: nat
  pr_reserved_tokens :: nat
  pr_cost :: "rat option"

definition public_record :: "rat \<Rightarrow> run_row \<Rightarrow> attempt_row list \<Rightarrow> exn + public_run" where
  "public_record now r history =
     bindR (if ru_state r = Running
            then (case ru_lease_until r of None \<Rightarrow> Inl Type_error | Some l \<Rightarrow> Inr (l > now))
            else Inr False) (\<lambda>active.
     Inr \<lparr>pr_run_id = ru_id r, pr_state = ru_state r, pr_created = ru_created r, pr_updated = ru_updated r,
       pr_attempts = ru_attempts r, pr_published = ru_published r, pr_history = history, pr_cancel = ru_cancel r,
       pr_deadline = ru_deadline r, pr_lease_active = active, pr_result = ru_result r, pr_error = ru_error r,
       pr_decisions = cp_decisions (ru_checkpoint r), pr_reserved_tokens = cp_reserved_tokens (ru_checkpoint r),
       pr_cost = (if cp_pricing_configured (ru_checkpoint r) then Some (cp_reserved_cost (ru_checkpoint r)) else None)\<rparr>)"

definition now_time :: "(api_state, exn, rat) proc" where
  "now_time = getP (\<lambda>s. ap_clock s (ap_calls s) 0)"

definition read_agent_run :: "string \<Rightarrow> tool_context \<Rightarrow> (api_state, exn, public_run) proc" where
  "read_agent_run rid ctx =
     run_operation ctx ''agent_run.read''
       (bindP (run_call (get_run rid (tenant_id ctx))) (\<lambda>(row, history).
        bindP now_time (\<lambda>now. liftR (public_record now row history))))"

definition cancel_agent_run :: "string \<Rightarrow> tool_context \<Rightarrow> (api_state, exn, public_run) proc" where
  "cancel_agent_run rid ctx =
     run_operation ctx ''agent_run.cancel''
       (bindP (run_call (cancel_run rid (tenant_id ctx))) (\<lambda>row.
        bindP now_time (\<lambda>now. liftR (public_record now row []))))"

definition resume_agent_run :: "api_cfg \<Rightarrow> string \<Rightarrow> tool_context \<Rightarrow> (api_state, exn, string) proc" where
  "resume_agent_run ac rid ctx =
     run_operation ctx ''agent_run.resume''
       (bindP (run_call (resume_run (as_store (ac_settings ac)) rid (tenant_id ctx))) (\<lambda>record.
        thenP (ensure_owner ac rid (tenant_id ctx))
        (bindP (liftR (tenant_queue (as_tenants (ac_settings ac)) (tenant_id ctx))) (\<lambda>queue.
         thenP (publish_run rid queue (ru_job record))
         (thenP (run_call (mark_published rid (tenant_id ctx)))
         (returnP rid))))))"

section \<open>Errors\<close>

lemma submission_error_http: "\<exists>c. submission_error e = Http_exception c"
  by (auto simp: submission_error_def split: exn.split)

lemma operation_error_http: "\<exists>c. operation_error e = Http_exception c"
  by (auto simp: operation_error_def split: exn.split)

definition http_only :: "exn + 'a \<Rightarrow> bool" where
  "http_only r \<longleftrightarrow> (case r of Inl e \<Rightarrow> (\<exists>c. e = Http_exception c) | Inr _ \<Rightarrow> True)"

lemma http_only_try:
  assumes "\<And>e. \<exists>c. f e = Http_exception c"
  shows "http_only (fst (tryP m (\<lambda>e. raiseP (f e)) s))"
  using assms by (auto simp: http_only_def tryP_def raiseP_def split: prod.split sum.split)

text \<open>
  Closed errors. Whatever the run table, the broker, the ownership service or a validation raises,
  the four operations on agent runs answer with an HTTP status only: no other exception leaves them.
\<close>

lemma agent_routes_errors:
  "http_only (fst (submit_agent_run ac request ctx key s)) \<and> http_only (fst (read_agent_run rid ctx s)) \<and>
   http_only (fst (cancel_agent_run rid ctx s)) \<and> http_only (fst (resume_agent_run ac rid ctx s))"
  unfolding submit_agent_run_def read_agent_run_def cancel_agent_run_def resume_agent_run_def run_operation_def
  by (intro conjI http_only_try submission_error_http operation_error_http)

section \<open>What is published\<close>

definition registered :: "string \<Rightarrow> run_job \<Rightarrow> string \<Rightarrow> api_state \<Rightarrow> bool" where
  "registered rid job t s \<longleftrightarrow>
     (\<exists>row. run_of (ap_db s) rid = Some row \<and> ru_job row = job \<and> ru_tenant row = t) \<and> jb_run_id job = rid \<and> jb_tenant job = t"

definition owned_by :: "api_cfg \<Rightarrow> string \<Rightarrow> string \<Rightarrow> api_state \<Rightarrow> bool" where
  "owned_by ac rid t s \<longleftrightarrow> ap_owners s (owner_key (ac_owner_digest ac) (ucs rid)) = Some t"

text \<open>A delivery in the broker belongs to a registered, owned run and lies in its tenant's queue.\<close>

definition delivery_ok :: "api_cfg \<Rightarrow> api_state \<Rightarrow> string \<times> string \<times> run_job \<Rightarrow> bool" where
  "delivery_ok ac s d \<longleftrightarrow>
     (case d of (rid, queue, job) \<Rightarrow>
        registered rid job (jb_tenant job) s \<and> owned_by ac rid (jb_tenant job) s \<and>
        tenant_queue (as_tenants (ac_settings ac)) (jb_tenant job) = Inr queue)"

definition api_inv :: "(string \<Rightarrow> string) \<Rightarrow> api_cfg \<Rightarrow> api_state \<Rightarrow> bool" where
  "api_inv kd ac s \<longleftrightarrow>
     run_inv (as_store (ac_settings ac)) (ap_db s) \<and>
     (\<forall>k db. \<exists>evs. run_trace (as_store (ac_settings ac)) kd db evs (ap_env s k db)) \<and>
     (\<forall>d \<in> set (ap_queue s). delivery_ok ac s d)"

text \<open>The facts a handler has established, which nothing later undoes.\<close>

definition knows ::
  "(string \<Rightarrow> string) \<Rightarrow> api_cfg \<Rightarrow> (string \<times> run_job \<times> string) set \<Rightarrow> (string \<times> string) set \<Rightarrow> api_state \<Rightarrow> bool" where
  "knows kd ac rs os s \<longleftrightarrow> api_inv kd ac s \<and>
     (\<forall>(rid, job, t) \<in> rs. registered rid job t s) \<and> (\<forall>(rid, t) \<in> os. owned_by ac rid t s)"

lemma run_trace_same:
  assumes "run_inv cfg db" and "run_trace cfg kd db evs db'" and "run_of db rid = Some r"
  shows "\<exists>r'. run_of db' rid = Some r' \<and> ru_job r' = ru_job r \<and> ru_tenant r' = ru_tenant r"
proof -
  have "\<exists>r'. run_of db' rid = Some r' \<and> same_run r r'"
    by (rule run_trace_row [OF assms(2,1,3), where P = "\<lambda>r' _. same_run r r'"])
      (auto simp: same_run_def run_changes_def)
  then show ?thesis by (auto simp: same_run_def)
qed

lemma knows_moved:
  assumes "knows kd ac rs os s" and "run_trace (as_store (ac_settings ac)) kd (ap_db s) evs db"
  shows "knows kd ac rs os (s\<lparr>ap_db := db\<rparr>)"
proof -
  have inv: "run_inv (as_store (ac_settings ac)) (ap_db s)" using assms(1) by (simp add: knows_def api_inv_def)
  have reg: "registered rid job t (s\<lparr>ap_db := db\<rparr>)" if "registered rid job t s" for rid job t
    using that run_trace_same [OF inv assms(2)] by (fastforce simp: registered_def)
  then show ?thesis using assms run_trace_inv [OF assms(2) inv]
    by (auto simp: knows_def api_inv_def delivery_ok_def owned_by_def)
qed

lemma knows_called [simp]: "knows kd ac rs os (s\<lparr>ap_calls := n\<rparr>) = knows kd ac rs os s"
  by (simp add: knows_def api_inv_def delivery_ok_def registered_def owned_by_def)

lemma preserves_outside:
  assumes "\<And>k s x s'. knows kd ac rs os s \<Longrightarrow> f k s = Inr (x, s') \<Longrightarrow> knows kd ac rs os s'"
  shows "preserves (knows kd ac rs os) (outside f)"
proof (rule preservesI)
  fix s
  assume s: "knows kd ac rs os s"
  let ?k = "ap_calls s"
  obtain evs where "run_trace (as_store (ac_settings ac)) kd (ap_db s) evs (ap_env s ?k (ap_db s))"
    using s unfolding knows_def api_inv_def by blast
  from knows_moved [OF s this] have "knows kd ac rs os (s\<lparr>ap_db := ap_env s ?k (ap_db s), ap_calls := ?k + 1\<rparr>)"
    using knows_called [of kd ac rs os "?k + 1" "s\<lparr>ap_db := ap_env s ?k (ap_db s)\<rparr>"] by blast
  note k1 = this
  show "wp (outside f) (\<lambda>_. knows kd ac rs os) (\<lambda>_. knows kd ac rs os) s"
    using k1 assms [OF k1]
    by (auto simp: wp_def outside_def Let_def simp del: knows_called split: option.split sum.split prod.split)
qed

lemma preserves_run_call:
  assumes "\<And>clk db x db'. f clk db = Inr (x, db') \<Longrightarrow> \<exists>ev. run_step (as_store (ac_settings ac)) kd db ev db'"
  shows "preserves (knows kd ac rs os) (run_call f)"
  unfolding run_call_def
proof (rule preserves_outside)
  fix k s x s'
  assume s: "knows kd ac rs os s"
    and "(case f (ap_clock s k) (ap_db s) of Inl e \<Rightarrow> Inl e | Inr (x, db) \<Rightarrow> Inr (x, s\<lparr>ap_db := db\<rparr>)) = Inr (x, s')"
  then obtain db where f: "f (ap_clock s k) (ap_db s) = Inr (x, db)" and s': "s' = s\<lparr>ap_db := db\<rparr>"
    by (auto split: sum.splits)
  then obtain ev where "run_step (as_store (ac_settings ac)) kd (ap_db s) ev db" using assms by blast
  then have "run_trace (as_store (ac_settings ac)) kd (ap_db s) ([] @ [ev]) db"
    by (rule run_trace.run_snoc [OF run_trace.run_start])
  from knows_moved [OF s this] show "knows kd ac rs os s'" by (simp add: s')
qed

lemma knows_owners:
  assumes "knows kd ac rs os s" and "\<And>k v. ap_owners s k = Some v \<Longrightarrow> owners k = Some v"
  shows "knows kd ac rs os (s\<lparr>ap_owners := owners\<rparr>)"
proof -
  have own: "owned_by ac rid t (s\<lparr>ap_owners := owners\<rparr>)" if "owned_by ac rid t s" for rid t
    using that assms(2) by (simp add: owned_by_def)
  have reg: "registered rid job t (s\<lparr>ap_owners := owners\<rparr>) = registered rid job t s" for rid job t
    by (simp add: registered_def)
  show ?thesis using assms(1) own unfolding knows_def api_inv_def delivery_ok_def reg by fastforce
qed

lemma register_owner_mono:
  "register_owner d x t owners = Inr (u, owners') \<Longrightarrow> owners k = Some v \<Longrightarrow> owners' k = Some v"
  by (auto simp: register_owner_def split: if_splits)

lemma knows_register [preserves_intro]: "preserves (knows kd ac rs os) (api_register ac rid t)"
  unfolding api_register_def
  by (rule preserves_outside) (auto split: sum.splits intro!: knows_owners elim: register_owner_mono)

lemma knows_ensure_owner [preserves_intro]: "preserves (knows kd ac rs os) (ensure_owner ac rid t)"
  unfolding ensure_owner_def api_require_owner_def
  by (auto intro!: preserves_intro preserves_outside split: if_splits)

text \<open>After \<open>ensure_owner\<close> the ownership is known.\<close>

lemma ensure_owner_owned: "wp (ensure_owner ac rid t) (\<lambda>_. owned_by ac rid t) (\<lambda>_ _. True) s"
  by (auto simp: wp_def ensure_owner_def tryP_def api_require_owner_def api_register_def outside_def raiseP_def
      register_owner_def owned_by_def Let_def split: option.splits if_splits)

lemma ensure_owner_knows:
  assumes "knows kd ac rs os s"
  shows "wp (ensure_owner ac rid t) (\<lambda>_. knows kd ac rs (insert (rid, t) os)) (\<lambda>_. knows kd ac rs os) s"
  by (rule wp_mono [OF wp_conj [OF preservesD [OF knows_ensure_owner assms] ensure_owner_owned]])
    (auto simp: knows_def)

lemma queue_facts [simp]:
  "registered rid job t (s\<lparr>ap_queue := q\<rparr>) = registered rid job t s"
  "owned_by ac rid t (s\<lparr>ap_queue := q\<rparr>) = owned_by ac rid t s"
  "delivery_ok ac (s\<lparr>ap_queue := q\<rparr>) d = delivery_ok ac s d"
  by (simp_all add: registered_def owned_by_def delivery_ok_def)

lemma publish_knows:
  assumes "(rid, job, t) \<in> rs" and "(rid, t) \<in> os" and "tenant_queue (as_tenants (ac_settings ac)) t = Inr queue"
  shows "preserves (knows kd ac rs os) (publish_run rid queue job)"
  unfolding publish_run_def
proof (rule preserves_outside)
  fix k s x s'
  assume s: "knows kd ac rs os s" and s': "Inr ((), s\<lparr>ap_queue := ap_queue s @ [(rid, queue, job)]\<rparr>) = Inr (x, s')"
  have "registered rid job t s" and "owned_by ac rid t s" using s assms by (auto simp: knows_def)
  moreover from this have "jb_tenant job = t" by (simp add: registered_def)
  ultimately have "delivery_ok ac s (rid, queue, job)" using assms(3) by (simp add: delivery_ok_def)
  with s s' show "knows kd ac rs os s'" by (auto simp: knows_def api_inv_def)
qed

lemma knows_publish [preserves_intro]: "preserves (knows kd ac rs os) (run_call (mark_published rid t))"
  by (rule preserves_run_call) (auto dest: run_publish)

lemma knows_get [preserves_intro]: "preserves (knows kd ac rs os) (run_call (get_run rid t))"
  by (rule preserves_run_call) (auto dest: run_get)

lemma knows_cancel [preserves_intro]: "preserves (knows kd ac rs os) (run_call (cancel_run rid t))"
  by (rule preserves_run_call) (auto dest: run_cancel)

text \<open>A row of the run table that an operation returned is registered.\<close>

lemma returned_row:
  assumes s: "knows kd ac rs os s"
    and step: "\<And>clk db x db'. f clk db = Inr (x, db') \<Longrightarrow> \<exists>ev. run_step (as_store (ac_settings ac)) kd db ev db'"
    and row: "\<And>clk db x db'. f clk db = Inr (x, db') \<Longrightarrow> x \<in> set (db_runs db') \<and> ru_tenant x = t"
  shows "wp (run_call f) (\<lambda>x. knows kd ac (insert (jb_run_id (ru_job x), ru_job x, t) rs) os) (\<lambda>_. knows kd ac rs os) s"
proof -
  have found: "wp (run_call f) (\<lambda>x s'. x \<in> set (db_runs (ap_db s')) \<and> ru_tenant x = t) (\<lambda>_ _. True) s"
    using row by (auto simp: wp_def run_call_def outside_def Let_def split: option.splits sum.splits prod.splits)
  have kept: "wp (run_call f) (\<lambda>_. knows kd ac rs os) (\<lambda>_. knows kd ac rs os) s"
    by (rule preservesD [OF preserves_run_call [OF step] s])
  have reg: "registered (jb_run_id (ru_job x)) (ru_job x) t s'"
    if "knows kd ac rs os s'" and x: "x \<in> set (db_runs (ap_db s'))" "ru_tenant x = t" for x s'
  proof -
    have inv: "run_inv (as_store (ac_settings ac)) (ap_db s')" using that(1) by (simp add: knows_def api_inv_def)
    then have ok: "run_ok (as_store (ac_settings ac)) x" and d: "distinct (map ru_id (db_runs (ap_db s')))"
      using x by (auto simp: run_inv_def)
    have "run_of (ap_db s') (ru_id x) = Some x"
      unfolding run_of_def by (rule select1_unique [OF d x(1)]) simp_all
    with ok x(2) show ?thesis by (auto simp: registered_def run_ok_def)
  qed
  from wp_conj [OF kept found] show ?thesis
  proof (rule wp_mono)
    fix x s'
    assume k: "knows kd ac rs os s' \<and> x \<in> set (db_runs (ap_db s')) \<and> ru_tenant x = t"
    then have "registered (jb_run_id (ru_job x)) (ru_job x) t s'" by (intro reg) simp_all
    with k show "knows kd ac (insert (jb_run_id (ru_job x), ru_job x, t) rs) os s'" by (simp add: knows_def)
  qed simp
qed

lemma knows_weaken: "knows kd ac rs os s \<Longrightarrow> api_inv kd ac s"
  by (simp add: knows_def)

lemma publish_registered:
  assumes "knows kd ac {(rid, job, t)} {} s"
  shows "wp (bindP (liftR (tenant_queue (as_tenants (ac_settings ac)) t)) (\<lambda>queue.
       thenP (ensure_owner ac rid t) (thenP (publish_run rid queue job)
       (thenP (run_call (mark_published rid t)) (returnP x)))))
     (\<lambda>_. api_inv kd ac) (\<lambda>_. api_inv kd ac) s"
proof (cases "tenant_queue (as_tenants (ac_settings ac)) t")
  case (Inl e)
  then show ?thesis using assms by (simp add: wp_bindP wp_liftR knows_weaken)
next
  case (Inr queue)
  have rest: "preserves (knows kd ac {(rid, job, t)} {(rid, t)})
      (thenP (publish_run rid queue job) (thenP (run_call (mark_published rid t)) (returnP x)))"
    by (intro preserves_thenP publish_knows [OF _ _ Inr] knows_publish preserves_basic) simp_all
  show ?thesis unfolding Inr wp_bindP wp_liftR sum.case wp_thenP [of "ensure_owner _ _ _"]
    by (rule wp_mono [OF ensure_owner_knows [OF assms]])
      (auto intro: knows_weaken wp_mono [OF preservesD [OF rest]])
qed

lemma publish_registered':
  assumes "knows kd ac {(rid, job, t)} {} s"
  shows "wp (thenP (ensure_owner ac rid t) (bindP (liftR (tenant_queue (as_tenants (ac_settings ac)) t)) (\<lambda>queue.
       thenP (publish_run rid queue job) (thenP (run_call (mark_published rid t)) (returnP x)))))
     (\<lambda>_. api_inv kd ac) (\<lambda>_. api_inv kd ac) s"
proof -
  have rest: "preserves (knows kd ac {(rid, job, t)} {(rid, t)}) (bindP (liftR (tenant_queue (as_tenants (ac_settings ac)) t)) (\<lambda>queue.
       thenP (publish_run rid queue job) (thenP (run_call (mark_published rid t)) (returnP x))))"
  proof (cases "tenant_queue (as_tenants (ac_settings ac)) t")
    case (Inr queue)
    have "preserves (knows kd ac {(rid, job, t)} {(rid, t)})
        (thenP (publish_run rid queue job) (thenP (run_call (mark_published rid t)) (returnP x)))"
      by (intro preserves_thenP publish_knows [OF _ _ Inr] knows_publish preserves_basic) simp_all
    then show ?thesis by (simp add: preserves_def wp_bindP wp_liftR Inr)
  qed (simp add: preserves_def wp_bindP wp_liftR)
  show ?thesis unfolding wp_thenP [of "ensure_owner _ _ _"]
    by (rule wp_mono [OF ensure_owner_knows [OF assms]])
      (auto intro: knows_weaken wp_mono [OF preservesD [OF rest]])
qed

lemma create_run_row:
  "create_run kd job d key clk db = Inr (row, db') \<Longrightarrow> row \<in> set (db_runs db') \<and> ru_tenant row = jb_tenant job"
  by (auto simp: create_run_def Let_def split: if_splits option.splits
      dest: find_run_InrD select1_SomeD)

lemma enqueue_inv:
  assumes "api_inv (ac_key_digest ac) ac s"
  shows "wp (enqueue_run ac request t key) (\<lambda>_. api_inv (ac_key_digest ac) ac) (\<lambda>_. api_inv (ac_key_digest ac) ac) s"
proof (cases "rq_max_decisions request > as_max_decisions (ac_settings ac)")
  case True
  with assms show ?thesis by (simp add: enqueue_run_def wp_raiseP)
next
  case False
  let ?kd = "ac_key_digest ac"
  define job where "job = request_job (ap_fresh s (ap_calls s)) t request"
  have t: "jb_tenant job = t" by (simp add: job_def request_job_def)
  have s: "knows ?kd ac {} {} s" using assms by (simp add: knows_def)
  show ?thesis
  proof (cases "valid_run_job job")
    case invalid: False
    with False assms show ?thesis
      by (simp add: enqueue_run_def wp_bindP new_id_def wp_getP Let_def wp_if wp_raiseP job_def [symmetric])
  next
    case True
    have create: "wp (run_call (create_run ?kd job (PyFloat (ac_max_duration ac)) key))
        (\<lambda>x. knows ?kd ac {(jb_run_id (ru_job x), ru_job x, t)} {}) (\<lambda>_. knows ?kd ac {} {}) s"
      by (rule returned_row [OF s]) (auto dest: run_create create_run_row simp: t)
    show ?thesis
      using False True
      apply (simp add: enqueue_run_def wp_bindP new_id_def wp_getP Let_def job_def [symmetric] wp_if wp_raiseP wp_returnP)
      apply (rule wp_mono [OF create])
       apply (auto simp: knows_weaken Let_def wp_if wp_raiseP wp_returnP intro!: publish_registered dest: knows_weaken)
      done
  qed
qed

lemma resume_run_found: "resume_run cfg rid t clk db = Inr (x, db') \<Longrightarrow> find_run db' rid t = Inr x"
  by (auto simp: resume_run_def Let_def split: if_splits)

lemma resumed_row:
  assumes "knows kd ac {} {} s"
  shows "wp (run_call (resume_run (as_store (ac_settings ac)) rid t))
     (\<lambda>x. knows kd ac {(rid, ru_job x, t)} {}) (\<lambda>_. knows kd ac {} {}) s"
proof -
  let ?f = "resume_run (as_store (ac_settings ac)) rid t"
  have row: "wp (run_call ?f) (\<lambda>x. knows kd ac {(jb_run_id (ru_job x), ru_job x, t)} {}) (\<lambda>_. knows kd ac {} {}) s"
    by (rule returned_row [OF assms]) (rule exI, erule run_resume, drule resume_run_found, drule find_run_InrD, simp)
  have found: "wp (run_call ?f) (\<lambda>x s'. find_run (ap_db s') rid t = Inr x) (\<lambda>_ _. True) s"
    by (auto simp: wp_def run_call_def outside_def Let_def dest: resume_run_found
        split: option.splits sum.splits prod.splits)
  from wp_conj [OF row found] show ?thesis
  proof (rule wp_mono)
    fix x s'
    assume x: "knows kd ac {(jb_run_id (ru_job x), ru_job x, t)} {} s' \<and> find_run (ap_db s') rid t = Inr x"
    then have "run_ok (as_store (ac_settings ac)) x" and "ru_id x = rid"
      by (auto simp: knows_def api_inv_def dest: run_ok_row find_run_InrD)
    with x show "knows kd ac {(rid, ru_job x, t)} {} s'" by (simp add: run_ok_def)
  qed simp
qed

lemma run_operation_inv:
  assumes "wp m (\<lambda>_. api_inv kd ac) (\<lambda>_. api_inv kd ac) s" and "api_inv kd ac s"
    and "\<And>e. \<exists>c. f e = Http_exception c"
  shows "api_inv kd ac (snd (tryP (authorized ctx a m) (\<lambda>e. raiseP (f e)) s))"
  using assms by (auto simp: wp_def tryP_def authorized_eq raiseP_def split: prod.splits sum.splits)

lemma api_inv_call:
  assumes "preserves (knows kd ac {} {}) m" and "api_inv kd ac s"
    and "\<And>x. preserves (knows kd ac {} {}) (f x)"
  shows "wp (bindP m f) (\<lambda>_. api_inv kd ac) (\<lambda>_. api_inv kd ac) s"
proof -
  have "preserves (knows kd ac {} {}) (bindP m f)" by (intro preserves_bindP assms)
  then have "wp (bindP m f) (\<lambda>_. knows kd ac {} {}) (\<lambda>_. knows kd ac {} {}) s"
    using assms(2) by (intro preservesD) (simp_all add: knows_def)
  then show ?thesis by (rule wp_mono) (simp_all add: knows_def)
qed

text \<open>
  C32. Published runs are registered. Submission, reading, cancellation and resumption keep the API's
  invariant, with any interference of other operations on the run table and with calls that fail before
  or after their effect: every delivery in the broker carries the job of a registered run of its tenant
  under the run's identifier, the run's task is owned by that tenant, and the delivery lies in the
  tenant's queue.
\<close>

theorem published_runs_are_registered:
  assumes inv: "api_inv (ac_key_digest ac) ac s"
    and op: "s' \<in> {snd (submit_agent_run ac request ctx key s), snd (read_agent_run rid ctx s),
       snd (cancel_agent_run rid ctx s), snd (resume_agent_run ac rid ctx s)}"
  shows "api_inv (ac_key_digest ac) ac s'"
proof -
  let ?kd = "ac_key_digest ac"
  have submit: "api_inv ?kd ac (snd (submit_agent_run ac request ctx key s))"
    unfolding submit_agent_run_def by (rule run_operation_inv [OF enqueue_inv [OF inv] inv submission_error_http])
  have now: "preserves (knows ?kd ac {} {}) (bindP now_time (\<lambda>now. liftR (g now)))" for g :: "rat \<Rightarrow> exn + public_run"
    unfolding now_time_def by (intro preserves_intro)
  have read: "api_inv ?kd ac (snd (read_agent_run rid ctx s))"
    unfolding read_agent_run_def run_operation_def
    by (rule run_operation_inv [OF _ inv operation_error_http], rule api_inv_call [OF knows_get inv])
      (auto simp: split_def intro: now)
  have cancel: "api_inv ?kd ac (snd (cancel_agent_run rid ctx s))"
    unfolding cancel_agent_run_def run_operation_def
    by (rule run_operation_inv [OF _ inv operation_error_http], rule api_inv_call [OF knows_cancel inv], rule now)
  have resumed: "wp (bindP (run_call (resume_run (as_store (ac_settings ac)) rid (tenant_id ctx))) (\<lambda>record.
        thenP (ensure_owner ac rid (tenant_id ctx))
        (bindP (liftR (tenant_queue (as_tenants (ac_settings ac)) (tenant_id ctx))) (\<lambda>queue.
         thenP (publish_run rid queue (ru_job record))
         (thenP (run_call (mark_published rid (tenant_id ctx))) (returnP rid))))))
      (\<lambda>_. api_inv ?kd ac) (\<lambda>_. api_inv ?kd ac) s"
    unfolding wp_bindP [of "run_call _"]
    by (rule wp_mono [OF resumed_row]) (use inv in \<open>auto simp: knows_def intro: publish_registered'\<close>)
  have resume: "api_inv ?kd ac (snd (resume_agent_run ac rid ctx s))"
    unfolding resume_agent_run_def run_operation_def
    by (rule run_operation_inv [OF resumed inv operation_error_http])
  from op submit read cancel resume show ?thesis by auto
qed

text \<open>
  Published jobs are accepted. A worker that receives a delivery of the API's broker, under its
  identifier and queue, passes the transport's checks and executes the job, provided the job is valid.
\<close>

lemma published_jobs_are_accepted:
  assumes "api_inv kd ac s" and "(rid, queue, job) \<in> set (ap_queue s)" and "valid_run_job job"
  shows "run_agent (ac_settings ac) env token rid (Some queue) job =
     tryP (execute_agent_job (ac_settings ac) env token job)
       (\<lambda>e. if is_run_conflict e \<or> e = Run_cancelled then raiseP Celery_ignore else raiseP e)"
proof -
  have "delivery_ok ac s (rid, queue, job)" using assms(1,2) by (auto simp: api_inv_def)
  with assms(3) show ?thesis
    by (auto simp: run_agent_def delivery_ok_def registered_def bindP_def liftR_def fun_eq_iff)
qed

end
