(* ===== verification/Api_Examples.thy ===== *)
theory Api_Examples
  imports Agent_Examples Crew Agent_Api
begin

text \<open>
  Concrete crews and API states, on which the properties of the crew and of the HTTP operations are applied.
\<close>

section \<open>The crew\<close>

text \<open>A chat model that answers its \<open>n\<close>-th call with the \<open>n\<close>-th letter, and one that is never reached.\<close>

definition demo_llm :: llm where
  "demo_llm n prompt = Inr [65 + n]"

definition demo_crew :: crew where
  "demo_crew = \<lparr>cr_agents = [research_agent demo_llm, processing_agent demo_llm],
     cr_tasks = [analysis_task [104] 0, (processing_task [104] 1)\<lparr>tk_context := [0]\<rparr>]\<rparr>"

lemma crew_kickoff_equivalence_witness:
  "bindP (kickoff demo_crew) (\<lambda>(results, _). returnP results) =
     bindP (crew_replies demo_crew [0..<length (cr_tasks demo_crew)] [])
       (\<lambda>out. returnP (map (\<lambda>i. result_entry demo_crew i (out ! i)) [0..<length (cr_tasks demo_crew)]))"
  by (rule crew_kickoff_equivalence)
    (auto simp: well_formed_crew_def demo_crew_def analysis_task_def processing_task_def less_Suc_eq)

definition demo_response :: crew_response where
  "demo_response = \<lparr>cw_tenant = ''acme'', cw_agent_type = ucs ''research'', cw_input = [104], cw_output = [66]\<rparr>"

lemma demo_crew_run:
  "run_crew_use_case (\<lambda>m _. m) (Inr demo_llm) ''acme'' (ucs ''research'') [104] 0 = (Inr demo_response, 2)"
  by (simp add: run_crew_use_case_def created_crew kickoff_def bindP_def liftR_def returnP_def upt_rec
      kickoff_tasks.simps set_payload_def set_result_def task_payload_def agent_kickoff_def research_agent_def
      processing_agent_def make_agent_def analysis_task_def processing_task_def generate_def demo_llm_def
      demo_response_def Let_def)

lemma crew_answer_chain_witness:
  "\<exists>llm a. llm 0 (tk_description (analysis_task [104] 0)) = Inr a \<and>
     llm (Suc 0) (tk_description (processing_task [104] 1) @ (if a = [] then [] else context_heading @ a)) = Inr [66]"
  using crew_answer_chain [OF demo_crew_run] by (auto simp: demo_response_def)

definition demo_crew_cfg :: crew_task_cfg where
  "demo_crew_cfg = \<lparr>ck_settings = as_tenants demo_settings, ck_max_retries = 2, ck_loads = (\<lambda>_. Inl Value_error),
     ck_render = (\<lambda>m _. m), ck_provider = Inl Api_connection_error, ck_draw = (\<lambda>_. 1 / 2)\<rparr>"

definition demo_crew_payload :: crew_payload where
  "demo_crew_payload = Payload_object None (Some (Input_object (Some (Msg_text [104]))))"

lemma demo_crew_retried:
  "run_crew_task demo_crew_cfg 0 ''acme'' demo_crew_payload 0 = (Inr (Crew_retry (1 / 2)), 0)"
  by (simp add: run_crew_task_def bindP_def liftR_def check_payload_def demo_crew_cfg_def demo_crew_payload_def
      payload_message_def tenant_queue_def demo_settings_def py_strip_def strip_by_def is_space_def pattern_defs tryP_def
      crew_runner_def run_crew_use_case_def getP_def returnP_def raiseP_def retry_delay_def)

lemma crew_retry_bounds_witness:
  "0 < ck_max_retries demo_crew_cfg \<and> 0 \<le> (1 / 2 :: rat) \<and> (1 / 2 :: rat) \<le> 60"
proof -
  have "0 \<le> ck_draw demo_crew_cfg k \<and> ck_draw demo_crew_cfg k \<le> 1" for k by (simp add: demo_crew_cfg_def)
  from crew_retry_bounds [OF this demo_crew_retried] show ?thesis by blast
qed

lemma crew_deliveries_bounded_witness:
  "fst (snd (crew_deliveries demo_crew_cfg ''acme'' demo_crew_payload 0 0)) \<le> 3"
proof -
  obtain r k n where d: "crew_deliveries demo_crew_cfg ''acme'' demo_crew_payload 0 0 = (r, k, n)"
    by (cases "crew_deliveries demo_crew_cfg ''acme'' demo_crew_payload 0 0")
  from crew_deliveries_bounded [OF this] d show ?thesis by (simp add: demo_crew_cfg_def)
qed

section \<open>The agent API\<close>

definition demo_api_cfg :: api_cfg where
  "demo_api_cfg = \<lparr>ac_settings = demo_settings, ac_max_duration = 60, ac_key_digest = id, ac_owner_digest = (\<lambda>_. ''t'')\<rparr>"

text \<open>The queued run of the demonstration, published once.\<close>

definition demo_api :: api_state where
  "demo_api = \<lparr>ap_db = demo_runs 0, ap_owners = [owner_key (\<lambda>_. ''t'') (ucs ''r1'') \<mapsto> ''acme''],
     ap_queue = [(''r1'', ''crewai.acme'', demo_run_job)], ap_calls = 0, ap_env = (\<lambda>_ db. db), ap_fault = (\<lambda>_. None),
     ap_clock = (\<lambda>_ _. 0), ap_fresh = (\<lambda>_. ''r2'')\<rparr>"

lemma demo_api_inv: "api_inv (ac_key_digest demo_api_cfg) demo_api_cfg demo_api"
proof -
  have "run_inv demo_run_cfg (demo_runs 0)" by (simp add: run_inv_def run_ok_def demo_run_defs)
  moreover have "delivery_ok demo_api_cfg demo_api (''r1'', ''crewai.acme'', demo_run_job)"
    by (simp add: delivery_ok_def registered_def owned_by_def demo_api_def demo_api_cfg_def demo_settings_def
        run_of_def demo_run_defs tenant_queue_def pattern_defs)
  ultimately show ?thesis using run_start
    by (auto simp: api_inv_def demo_api_def demo_api_cfg_def)
qed

definition demo_run_request :: run_request where
  "demo_run_request = \<lparr>rq_message = [63], rq_max_decisions = 3, rq_mode = General\<rparr>"

definition demo_submitter :: tool_context where
  "demo_submitter = \<lparr>tenant_id = ''acme'', permissions = {''agent_run.create''}\<rparr>"

lemma published_runs_are_registered_witness:
  "api_inv (ac_key_digest demo_api_cfg) demo_api_cfg
     (snd (submit_agent_run demo_api_cfg demo_run_request demo_submitter None demo_api))"
  by (rule published_runs_are_registered [OF demo_api_inv]) blast

lemma published_jobs_are_accepted_witness:
  "run_agent demo_settings demo_env ''t1'' ''r1'' (Some ''crewai.acme'') demo_run_job =
     tryP (execute_agent_job demo_settings demo_env ''t1'' demo_run_job)
       (\<lambda>e. if is_run_conflict e \<or> e = Run_cancelled then raiseP Celery_ignore else raiseP e)"
  using published_jobs_are_accepted [OF demo_api_inv _ demo_job_valid, of "''r1''" "''crewai.acme''" demo_env "''t1''"]
  by (simp add: demo_api_def demo_api_cfg_def)

end
