(* ===== verification/Document_Api.thy ===== *)
theory Document_Api
  imports Ingestion
begin

text \<open>
  The HTTP operations on documents (\<open>api/document_routes.py\<close>, \<open>api/document_schemas.py\<close>) and the
  bound on their request bodies (\<open>api/middleware/document_body_limit.py\<close>). FastAPI has authenticated
  the caller; the outside is the document database, which other processes change between two calls, and
  the broker. Any call may fail, with or without having taken effect. \<open>document_setup\<close> gives API and
  workers the same database, policy and pipeline.
\<close>

section \<open>The outside of the API\<close>

text \<open>A delivery in the broker: task identifier, queue, and the job and tenant of its message.\<close>

type_synonym doc_delivery = "string \<times> string \<times> string \<times> string"

record doc_api =
  dp_world :: doc_world
  dp_broker :: "doc_delivery list"
  dp_calls :: nat
  dp_fault :: "nat \<Rightarrow> (bool \<times> exn) option"
  dp_fresh :: "nat \<Rightarrow> string"
  dp_time :: "nat \<Rightarrow> rat"

record doc_api_cfg =
  dx_store :: doc_cfg
  dx_tenants :: tenant_settings
  dx_key_digest :: "string \<Rightarrow> string"
  dx_request_digest :: "job_operation \<Rightarrow> doc_request \<Rightarrow> string"

text \<open>
  The \<open>k\<close>-th call: \<open>dp_fault k = Some (applied, e)\<close> makes it raise \<open>e\<close>, after its effect when \<open>applied\<close>.
\<close>

definition faulty_call :: "(doc_api, exn, 'a) proc \<Rightarrow> (doc_api, exn, 'a) proc" where
  "faulty_call m s =
     (let k = dp_calls s; s' = s\<lparr>dp_calls := k + 1\<rparr>
      in case dp_fault s k of
           None \<Rightarrow> m s'
         | Some (applied, e) \<Rightarrow> (Inl e, if applied then snd (m s') else s'))"

definition in_world :: "(doc_world, exn, 'a) proc \<Rightarrow> (doc_api, exn, 'a) proc" where
  "in_world m s = (case m (dp_world s) of (r, w) \<Rightarrow> (r, s\<lparr>dp_world := w\<rparr>))"

definition world_call :: "(doc_world, exn, 'a) proc \<Rightarrow> (doc_api, exn, 'a) proc" where
  "world_call m = faulty_call (in_world m)"

text \<open>\<open>run_document_job.apply_async\<close>\<close>

definition send_job :: "string \<Rightarrow> string \<Rightarrow> string \<Rightarrow> string \<Rightarrow> (doc_api, exn, unit) proc" where
  "send_job task queue jid t =
     faulty_call (\<lambda>s. (Inr (), s\<lparr>dp_broker := dp_broker s @ [(task, queue, jid, t)]\<rparr>))"

text \<open>The store \<open>get_document_store()\<close> returns, as the facades use it.\<close>

definition api_jobs :: "doc_api_cfg \<Rightarrow> doc_api job_store" where
  "api_jobs dx =
     \<lparr>js_submit = (\<lambda>t request op options key.
        bindP (getP (\<lambda>s. dp_fresh s (dp_calls s))) (\<lambda>new_document.
        world_call (call_db (\<lambda>clk new_job. submit_job (dx_key_digest dx) (dx_request_digest dx) t request op options
          key new_document new_job (clk 0) (clk 1))))),
      js_get = (\<lambda>jid t. world_call (call_db (\<lambda>clk _. get_job jid t (clk 0)))),
      js_retry = (\<lambda>jid t. world_call (call_db (\<lambda>clk _. retry_job (dx_store dx) jid t (clk 0) (clk 1) (clk 2)))),
      js_publish = (\<lambda>jid t. world_call (call_db (\<lambda>clk _. mark_job_published jid t (clk 0))))\<rparr>"

definition api_documents :: "doc_api document_store" where
  "api_documents =
     \<lparr>st_create = (\<lambda>record. world_call (call_db (\<lambda>_ _. create_version record))),
      st_get = (\<lambda>t d version. world_call (call_db (\<lambda>_ _. get_version t d version))),
      st_delete = (\<lambda>t d. world_call (call_db (\<lambda>_ _. delete_document t d)))\<rparr>"

text \<open>\<open>document_setup.execute_document_job\<close>, in the process of the API.\<close>

definition run_here :: "doc_api_cfg \<Rightarrow> string \<Rightarrow> string \<Rightarrow> (doc_api, exn, doc_job) proc" where
  "run_here dx jid t =
     bindP (getP (\<lambda>s. (dp_fresh s (dp_calls s), dp_time s (dp_calls s)))) (\<lambda>(new_document, created).
     world_call (execute_document_job (dx_store dx) (dx_tenants dx) jid t new_document created))"

section \<open>Bodies and errors\<close>

text \<open>\<open>DocumentCreateBody\<close> is a document input whose texts encode; \<open>DocumentUpdateBody\<close> adds the revision.\<close>

definition encodes :: "ustr \<Rightarrow> bool" where
  "encodes t \<longleftrightarrow> utf8_encode t \<noteq> None"

definition valid_create_body :: "document_input \<Rightarrow> bool" where
  "valid_create_body b \<longleftrightarrow>
     valid_document_input b \<and> encodes (di_text b) \<and> encodes (di_title b) \<and>
     (case di_source_ref b of None \<Rightarrow> True | Some r \<Rightarrow> encodes r)"

record update_body = document_input +
  ub_expected_version :: nat

definition valid_update_body :: "update_body \<Rightarrow> bool" where
  "valid_update_body b \<longleftrightarrow> valid_create_body (document_input.truncate b) \<and> 1 \<le> ub_expected_version b"

text \<open>The ingestion requests the routes build; a pydantic constructor validates its fields.\<close>

definition create_source :: "document_input \<Rightarrow> exn + ingestion_request" where
  "create_source b =
     (case utf8_encode (di_text b) of
        None \<Rightarrow> Inl Value_error
      | Some bytes \<Rightarrow>
          let r = \<lparr>ir_content = bytes, ir_title = di_title b, ir_source_ref = di_source_ref b\<rparr>
          in if valid_ingestion_request r then Inr r else Inl Validation_error)"

definition update_source_of :: "string \<Rightarrow> update_body \<Rightarrow> exn + update_request" where
  "update_source_of d b =
     (case utf8_encode (di_text b) of
        None \<Rightarrow> Inl Value_error
      | Some bytes \<Rightarrow>
          let r = \<lparr>ir_content = bytes, ir_title = di_title b, ir_source_ref = di_source_ref b,
                   ur_document_id = d, ur_expected_version = ub_expected_version b\<rparr>
          in if valid_update_request r then Inr r else Inl Validation_error)"

text \<open>The handlers of \<open>document_call\<close>, in their order.\<close>

definition document_error :: "exn \<Rightarrow> exn" where
  "document_error e =
     (if is_permission_error e then Http_exception 403
      else if e = Policy_evaluation_error then Http_exception 503
      else if e = Document_not_found \<or> e = Document_job_not_found then Http_exception 404
      else if e = Document_version_conflict \<or> e = Document_job_conflict then Http_exception 409
      else if e = Document_parse_error \<or> e = Chunking_limit_exceeded \<or> e = Validation_error then Http_exception 422
      else if e = Sqlite_error \<or> e = Document_storage_corruption then Http_exception 503
      else case e of Http_exception c \<Rightarrow> e | _ \<Rightarrow> Http_exception 500)"

definition document_call :: "('s, exn, 'a) proc \<Rightarrow> ('s, exn, 'a) proc" where
  "document_call operation = tryP operation (\<lambda>e. raiseP (document_error e))"

section \<open>Publication and submission\<close>

definition pending :: "doc_job \<Rightarrow> bool" where
  "pending j \<longleftrightarrow> dj_state j = Job_queued \<or> dj_state j = Job_running"

text \<open>\<open>publish_job\<close>: whatever fails, the publication is reported as unconfirmed.\<close>

definition publish_job :: "doc_api_cfg \<Rightarrow> doc_job \<Rightarrow> (doc_api, exn, unit) proc" where
  "publish_job dx job =
     (if \<not> pending job then returnP ()
      else tryP (bindP (liftR (tenant_queue (dx_tenants dx) (dj_tenant job))) (\<lambda>queue.
             thenP (send_job (dj_id job) queue (dj_id job) (dj_tenant job))
               (js_publish (api_jobs dx) (dj_id job) (dj_tenant job))))
             (\<lambda>_. raiseP (Http_exception 503)))"

text \<open>The status of the response to a submission.\<close>

definition failure_status :: "string option \<Rightarrow> nat" where
  "failure_status code =
     (if code = Some ''PermissionDenied'' then 403
      else if code = Some ''NotFound'' then 404
      else if code = Some ''VersionConflict'' then 409
      else if code = Some ''InvalidDocument'' then 422
      else if code = Some ''ResourceLimit'' then 422
      else if code = Some ''AttemptLimit'' then 409
      else if code = Some ''DocumentDeleted'' then 409
      else 500)"

definition submission_status :: "bool \<Rightarrow> doc_job \<Rightarrow> nat" where
  "submission_status background job =
     (if dj_state job = Job_failed \<and> \<not> background then failure_status (dj_error job)
      else if pending job then 202 else 200)"

definition perform_submission ::
  "doc_api_cfg \<Rightarrow> doc_submission \<Rightarrow> bool \<Rightarrow> (doc_api, exn, nat \<times> doc_submission) proc" where
  "perform_submission dx submission background =
     (let jid = dj_id (ds_job submission); t = dj_tenant (ds_job submission)
      in bindP (if background
                then thenP (publish_job dx (ds_job submission)) (js_get (api_jobs dx) jid t)
                else run_here dx jid t) (\<lambda>job.
         returnP (submission_status background job, \<lparr>ds_job = job, ds_replayed = ds_replayed submission\<rparr>)))"

definition create_document ::
  "doc_api_cfg \<Rightarrow> document_input \<Rightarrow> bool \<Rightarrow> tool_context \<Rightarrow> string \<Rightarrow> (doc_api, exn, nat \<times> doc_submission) proc" where
  "create_document dx body background ctx key =
     document_call (bindP (liftR (create_source body)) (\<lambda>request.
       bindP (facade_submit (api_jobs dx) default_options (Create_source request) Op_create ctx key) (\<lambda>submission.
       perform_submission dx submission background)))"

definition update_document ::
  "doc_api_cfg \<Rightarrow> string \<Rightarrow> update_body \<Rightarrow> bool \<Rightarrow> tool_context \<Rightarrow> string \<Rightarrow>
   (doc_api, exn, nat \<times> doc_submission) proc" where
  "update_document dx d body background ctx key =
     document_call (bindP (liftR (update_source_of d body)) (\<lambda>request.
       bindP (facade_submit (api_jobs dx) default_options (Update_source request) Op_update ctx key) (\<lambda>submission.
       perform_submission dx submission background)))"

section \<open>Jobs, reading, deletion\<close>

definition document_job :: "doc_api_cfg \<Rightarrow> string \<Rightarrow> tool_context \<Rightarrow> (doc_api, exn, doc_job) proc" where
  "document_job dx jid ctx = document_call (facade_status (api_jobs dx) jid ctx)"

definition retry_document_job :: "doc_api_cfg \<Rightarrow> string \<Rightarrow> tool_context \<Rightarrow> (doc_api, exn, doc_job) proc" where
  "retry_document_job dx jid ctx =
     document_call (bindP (facade_retry (api_jobs dx) jid ctx) (\<lambda>job.
       thenP (publish_job dx job) (js_get (api_jobs dx) jid (tenant_id ctx))))"

definition read_document :: "string \<Rightarrow> nat option \<Rightarrow> tool_context \<Rightarrow> (doc_api, exn, stored_version) proc" where
  "read_document d version ctx =
     document_call (let request = \<lparr>rr_document_id = d, rr_version = version\<rparr>
       in thenP (requireP (valid_read_request request) Validation_error)
            (facade_read api_documents request ctx))"

definition remove_document :: "string \<Rightarrow> tool_context \<Rightarrow> (doc_api, exn, unit) proc" where
  "remove_document d ctx =
     thenP (document_call (facade_delete api_documents d ctx)) (returnP ())"

section \<open>What is published\<close>

text \<open>
  A job of tenant \<open>t\<close> in the job table; a delivery names one, under its own identifier and in the queue
  of its tenant.
\<close>

definition has_job :: "string \<Rightarrow> string \<Rightarrow> doc_api \<Rightarrow> bool" where
  "has_job jid t s \<longleftrightarrow> (\<exists>row. row_of (dw_db (dp_world s)) jid = Some row \<and> jr_tenant row = t)"

definition doc_delivery_ok :: "doc_api_cfg \<Rightarrow> doc_api \<Rightarrow> doc_delivery \<Rightarrow> bool" where
  "doc_delivery_ok dx s d \<longleftrightarrow>
     (case d of (task, queue, jid, t) \<Rightarrow> task = jid \<and> has_job jid t s \<and> tenant_queue (dx_tenants dx) t = Inr queue)"

abbreviation dx_trace :: "doc_api_cfg \<Rightarrow> doc_db \<Rightarrow> job_event list \<Rightarrow> doc_db \<Rightarrow> bool" where
  "dx_trace dx \<equiv> job_trace (dx_store dx) (dx_key_digest dx) (dx_request_digest dx)"

definition doc_api_inv :: "doc_api_cfg \<Rightarrow> doc_api \<Rightarrow> bool" where
  "doc_api_inv dx s \<longleftrightarrow>
     doc_inv (dx_store dx) (dw_db (dp_world s)) \<and>
     (\<forall>k db. \<exists>evs. dx_trace dx db evs (dw_env (dp_world s) k db)) \<and>
     (\<forall>d \<in> set (dp_broker s). doc_delivery_ok dx s d)"

text \<open>What a handler knows of the jobs it has seen.\<close>

definition serves :: "doc_api_cfg \<Rightarrow> (string \<times> string) set \<Rightarrow> doc_api \<Rightarrow> bool" where
  "serves dx js s \<longleftrightarrow> doc_api_inv dx s \<and> (\<forall>(jid, t) \<in> js. has_job jid t s)"

lemma serves_mono: "serves dx js s \<Longrightarrow> js' \<subseteq> js \<Longrightarrow> serves dx js' s"
  by (auto simp: serves_def)

lemma serves_inv: "serves dx {} s = doc_api_inv dx s"
  by (simp add: serves_def)

lemma serves_frame [simp]: "serves dx js (s\<lparr>dp_calls := n\<rparr>) = serves dx js s"
  by (simp add: serves_def doc_api_inv_def doc_delivery_ok_def has_job_def)

lemma serves_moved:
  assumes s: "serves dx js s"
    and reach: "worker_reach (dx_store dx) (dx_key_digest dx) (dx_request_digest dx) (dw_db (dp_world s)) w"
  shows "serves dx js (s\<lparr>dp_world := w\<rparr>)"
proof -
  have inv: "doc_inv (dx_store dx) (dw_db (dp_world s))" using s by (simp add: serves_def doc_api_inv_def)
  obtain evs where tr: "dx_trace dx (dw_db (dp_world s)) evs (dw_db w)"
    using reach by (auto simp: worker_reach_def)
  have job: "has_job jid t (s\<lparr>dp_world := w\<rparr>)" if has: "has_job jid t s" for jid t
  proof -
    obtain row where row: "row_of (dw_db (dp_world s)) jid = Some row" and t: "jr_tenant row = t"
      using has by (auto simp: has_job_def)
    obtain row' where "row_of (dw_db w) jid = Some row'" and "same_key row row'"
      using job_trace_same_key [OF tr inv row] by blast
    with t show ?thesis by (simp add: has_job_def same_key_def)
  qed
  have "doc_delivery_ok dx (s\<lparr>dp_world := w\<rparr>) d" if "doc_delivery_ok dx s d" for d
    using that job by (simp add: doc_delivery_ok_def split: prod.splits)
  moreover have "\<forall>k db. \<exists>evs. dx_trace dx db evs (dw_env w k db)" using reach by (simp add: worker_reach_def)
  ultimately show ?thesis using s job_trace_inv [OF tr inv] job
    by (simp add: serves_def doc_api_inv_def split_beta)
qed

lemma preserves_faulty_call:
  assumes "preserves (serves dx js) m"
  shows "preserves (serves dx js) (faulty_call m)"
proof (rule preservesI)
  fix s
  assume "serves dx js s"
  then have s: "serves dx js (s\<lparr>dp_calls := dp_calls s + 1\<rparr>)" by simp
  from preservesD [OF assms s] s
  show "wp (faulty_call m) (\<lambda>_. serves dx js) (\<lambda>_. serves dx js) s"
    by (auto simp: wp_def faulty_call_def Let_def split: option.split prod.splits sum.splits)
qed

abbreviation reaches :: "doc_api_cfg \<Rightarrow> (doc_world, exn, 'a) proc \<Rightarrow> bool" where
  "reaches dx m \<equiv> (\<forall>db. preserves (worker_reach (dx_store dx) (dx_key_digest dx) (dx_request_digest dx) db) m)"

lemma preserves_world_call [preserves_intro]:
  assumes "reaches dx m"
  shows "preserves (serves dx js) (world_call m)"
  unfolding world_call_def
proof (rule preserves_faulty_call, rule preservesI)
  fix s
  assume s: "serves dx js s"
  let ?db = "dw_db (dp_world s)"
  have env: "\<forall>k db. \<exists>evs. dx_trace dx db evs (dw_env (dp_world s) k db)"
    using s by (simp add: serves_def doc_api_inv_def)
  have "worker_reach (dx_store dx) (dx_key_digest dx) (dx_request_digest dx) ?db (dp_world s)"
    unfolding worker_reach_def by (rule conjI [OF _ env], rule exI, rule trace_start)
  note preserves_result [OF assms [THEN spec] this prod.collapse [symmetric]]
  from serves_moved [OF s this] show "wp (in_world m) (\<lambda>_. serves dx js) (\<lambda>_. serves dx js) s"
    by (auto simp: wp_def in_world_def split: prod.split sum.split)
qed

lemma preserves_send_job:
  assumes "(jid, t) \<in> js" and "tenant_queue (dx_tenants dx) t = Inr queue"
  shows "preserves (serves dx js) (send_job jid queue jid t)"
  unfolding send_job_def
  by (rule preserves_faulty_call, rule preservesI)
    (use assms in \<open>auto simp: wp_def serves_def doc_api_inv_def doc_delivery_ok_def has_job_def\<close>)

text \<open>The store's operations are job-table operations.\<close>

lemma reaches_call:
  assumes "\<And>clk fresh db x db'. f clk fresh db = Inr (x, db') \<Longrightarrow>
      db' = db \<or> (\<exists>e. job_step (dx_store dx) (dx_key_digest dx) (dx_request_digest dx) db e db')"
  shows "reaches dx (call_db f)"
  using assms by (intro allI preserves_call_db)

lemma default_options_valid: "valid_options default_options"
  by (simp add: valid_options_def default_options_def)

lemma reaches_submit:
  "reaches dx (call_db (\<lambda>clk nj. submit_job (dx_key_digest dx) (dx_request_digest dx) t r op default_options key nd nj (clk 0) (clk (Suc 0))))"
  by (rule reaches_call) (auto intro: step_submit default_options_valid)

lemma reaches_get: "reaches dx (call_db (\<lambda>clk _. get_job jid t (clk 0)))"
  by (rule reaches_call) (auto simp: get_job_def)

lemma reaches_retry: "reaches dx (call_db (\<lambda>clk _. retry_job (dx_store dx) jid t (clk 0) (clk (Suc 0)) (clk 2)))"
  by (rule reaches_call) (auto intro: step_retry)

lemma reaches_publish: "reaches dx (call_db (\<lambda>clk _. mark_job_published jid t (clk 0)))"
  by (rule reaches_call) (auto intro: step_publish)

lemma reaches_read: "reaches dx (call_db (\<lambda>_ _. get_version t d v))"
  by (rule reaches_call) (auto simp: get_version_def Let_def split: option.splits)

lemma reaches_delete: "reaches dx (call_db (\<lambda>_ _. delete_document t d))"
  by (rule reaches_call) (auto intro: step_delete)

lemma reaches_execute: "reaches dx (execute_document_job (dx_store dx) (dx_tenants dx) jid t nd created)"
  unfolding execute_document_job_def by (intro allI preserves_intro preserves_process_document_job)

lemmas reaches_store = reaches_submit reaches_get reaches_retry reaches_publish reaches_read reaches_delete
  reaches_execute

text \<open>A job that an operation returned is in the job table.\<close>

definition job_in :: "doc_job \<Rightarrow> doc_db \<Rightarrow> bool" where
  "job_in j db \<longleftrightarrow> (\<exists>row \<in> set (db_jobs db). jr_id row = dj_id j \<and> jr_tenant row = dj_tenant j)"

lemma submit_job_in: "submit_job kd rd t r op opts key nd nj now vn db = Inr (x, db') \<Longrightarrow> job_in (ds_job x) db'"
  by (drule submit_job_InrD(2)) (auto simp: job_in_def dest!: view_job_InrD find_job_InrD select1_SomeD)

lemma retry_job_in: "retry_job cfg jid t now un vn db = Inr (x, db') \<Longrightarrow> job_in x db'"
  by (auto simp: retry_job_def job_in_def Let_def split: if_splits dest!: view_job_InrD find_job_InrD)

lemma returned_job:
  assumes s: "serves dx js s" and reach: "reaches dx (call_db f)"
    and ok: "\<And>clk fresh db x db'. f clk fresh db = Inr (x, db') \<Longrightarrow> job_in (g x) db'"
  shows "wp (world_call (call_db f)) (\<lambda>x. serves dx (insert (dj_id (g x), dj_tenant (g x)) js)) (\<lambda>_. serves dx js) s"
proof -
  have kept: "wp (world_call (call_db f)) (\<lambda>_. serves dx js) (\<lambda>_. serves dx js) s"
    by (rule preservesD [OF preserves_world_call [OF reach] s])
  have found: "wp (world_call (call_db f)) (\<lambda>x s'. job_in (g x) (dw_db (dp_world s'))) (\<lambda>_ _. True) s"
    using ok by (auto simp: wp_def world_call_def faulty_call_def in_world_def call_db_def Let_def
        split: option.split sum.splits prod.splits)
  have "serves dx (insert (dj_id j, dj_tenant j) js) s'"
    if s': "serves dx js s'" and j: "job_in j (dw_db (dp_world s'))" for j s'
  proof -
    obtain row where row: "row \<in> set (db_jobs (dw_db (dp_world s')))" "jr_id row = dj_id j" "jr_tenant row = dj_tenant j"
      using j by (auto simp: job_in_def)
    have inv: "jobs_inv (dx_store dx) (dw_db (dp_world s'))"
      using s' by (simp add: serves_def doc_api_inv_def doc_inv_def)
    then have d: "distinct (map jr_id (db_jobs (dw_db (dp_world s'))))" by (simp add: jobs_inv_def)
    have "row_of (dw_db (dp_world s')) (dj_id j) = Some row"
      using row_of_find [OF inv find_job_row [OF d row(1)]] row(2) by simp
    with s' row(3) show ?thesis by (simp add: serves_def has_job_def)
  qed
  with wp_conj [OF kept found] show ?thesis by (auto elim!: wp_mono)
qed

lemma preserves_publish_job [preserves_intro]:
  assumes "(dj_id j, dj_tenant j) \<in> js"
  shows "preserves (serves dx js) (publish_job dx j)"
proof (cases "tenant_queue (dx_tenants dx) (dj_tenant j)")
  case (Inl e)
  then show ?thesis
    by (auto simp: publish_job_def preserves_def wp_rules)
next
  case (Inr queue)
  have "preserves (serves dx js) (thenP (send_job (dj_id j) queue (dj_id j) (dj_tenant j))
      (js_publish (api_jobs dx) (dj_id j) (dj_tenant j)))"
    using assms Inr by (auto simp: api_jobs_def intro!: preserves_thenP preserves_send_job preserves_world_call reaches_publish)
  then show ?thesis
    by (auto simp: publish_job_def preserves_def wp_rules Inr elim!: wp_mono)
qed

lemma preserves_perform_submission [preserves_intro]:
  assumes "(dj_id (ds_job sub), dj_tenant (ds_job sub)) \<in> js"
  shows "preserves (serves dx js) (perform_submission dx sub background)"
  unfolding perform_submission_def Let_def api_jobs_def run_here_def split_beta
  using assms by (auto intro!: preserves_intro reaches_get reaches_execute)

lemma preserves_returned:
  assumes "\<And>s. serves dx {} s \<Longrightarrow> wp m (\<lambda>x. serves dx {k x}) (\<lambda>_. serves dx {}) s"
    and "\<And>x. preserves (serves dx {k x}) (f x)"
  shows "preserves (serves dx {}) (bindP m f)"
proof (rule preservesI)
  fix s
  assume s: "serves dx {} s"
  have "wp (f x) (\<lambda>_. serves dx {}) (\<lambda>_. serves dx {}) s'" if "serves dx {k x} s'" for x s'
    using preservesD [OF assms(2) that] by (rule wp_mono) (erule serves_mono, simp)+
  with assms(1) [OF s] show "wp (bindP m f) (\<lambda>_. serves dx {}) (\<lambda>_. serves dx {}) s"
    unfolding wp_bindP by (rule wp_mono)
qed

lemma preserves_document_call [preserves_intro]: "preserves I m \<Longrightarrow> preserves I (document_call m)"
  unfolding document_call_def by (intro preserves_intro)

lemma serves_submitted:
  assumes "serves dx {} s"
  shows "wp (facade_submit (api_jobs dx) default_options r op ctx key)
     (\<lambda>x. serves dx {(dj_id (ds_job x), dj_tenant (ds_job x))}) (\<lambda>_. serves dx {}) s"
  using assms by (auto simp: facade_submit_def authorized_eq wp_rules api_jobs_def
      intro!: returned_job reaches_submit [THEN spec] submit_job_in)

lemma preserves_api_get: "preserves (serves dx js) (js_get (api_jobs dx) jid t)"
  unfolding api_jobs_def job_store.simps by (intro preserves_world_call reaches_get)

lemma serves_retried:
  assumes "serves dx {} s"
  shows "wp (facade_retry (api_jobs dx) jid ctx) (\<lambda>x. serves dx {(dj_id x, dj_tenant x)}) (\<lambda>_. serves dx {}) s"
proof -
  note get = preservesD [OF preserves_api_get assms, of jid "tenant_id ctx"]
  have retry: "wp (js_retry (api_jobs dx) jid t) (\<lambda>x. serves dx {(dj_id x, dj_tenant x)}) (\<lambda>_. serves dx {}) s'"
    if "serves dx {} s'" for t s'
    using that by (auto simp: api_jobs_def intro!: returned_job reaches_retry [THEN spec] retry_job_in)
  show ?thesis using assms
    by (auto simp: facade_retry_def authorized_eq wp_rules intro: retry intro!: wp_mono [OF get])
qed

lemma serves_routes:
  "preserves (serves dx {}) (create_document dx body background ctx key)"
  "preserves (serves dx {}) (update_document dx d ubody background ctx key)"
  "preserves (serves dx {}) (retry_document_job dx jid ctx)"
  "preserves (serves dx {}) (document_job dx jid ctx)"
  "preserves (serves dx {}) (read_document d version ctx)"
  "preserves (serves dx {}) (remove_document d ctx)"
proof -
  show "preserves (serves dx {}) (create_document dx body background ctx key)"
    unfolding create_document_def
    by (intro preserves_document_call preserves_bindP [OF preserves_basic(4)] preserves_returned [OF serves_submitted]
        preserves_perform_submission singletonI)
  show "preserves (serves dx {}) (update_document dx d ubody background ctx key)"
    unfolding update_document_def
    by (intro preserves_document_call preserves_bindP [OF preserves_basic(4)] preserves_returned [OF serves_submitted]
        preserves_perform_submission singletonI)
  show "preserves (serves dx {}) (retry_document_job dx jid ctx)"
    unfolding retry_document_job_def
    by (intro preserves_document_call preserves_returned [OF serves_retried] preserves_thenP preserves_publish_job singletonI
        preserves_api_get)
  show "preserves (serves dx {}) (document_job dx jid ctx)"
    unfolding document_job_def facade_status_def authorized_eq
    by (auto simp: api_jobs_def intro!: preserves_intro reaches_get [THEN spec])
  show "preserves (serves dx {}) (read_document d version ctx)"
    unfolding read_document_def facade_read_def coordinator_read_def authorized_eq Let_def
    by (auto simp: api_documents_def intro!: preserves_intro reaches_read [THEN spec])
  show "preserves (serves dx {}) (remove_document d ctx)"
    unfolding remove_document_def facade_delete_def coordinator_delete_def authorized_eq
    by (auto simp: api_documents_def intro!: preserves_intro reaches_delete [THEN spec])
qed

lemma preserves_inv: "preserves (serves dx {}) m \<Longrightarrow> doc_api_inv dx s \<Longrightarrow> doc_api_inv dx (snd (m s))"
  using preserves_result [of "serves dx {}" m s, OF _ _ prod.collapse [symmetric]] by (simp add: serves_inv)

text \<open>
  C35. Published document jobs exist. Whatever other processes do to the document database and whichever
  calls fail, before or after their effect, the routes on documents keep their invariant: every delivery
  in the broker names a job of the job table under its own identifier, with the tenant the job belongs
  to, in that tenant's queue.
\<close>

theorem document_deliveries_exist:
  assumes "doc_api_inv dx s"
    and "s' \<in> {snd (create_document dx body background ctx key s), snd (update_document dx d ubody background ctx key s),
       snd (retry_document_job dx jid ctx s), snd (document_job dx jid ctx s), snd (read_document d version ctx s),
       snd (remove_document d ctx s)}"
  shows "doc_api_inv dx s'"
  using assms(2) by (auto intro: preserves_inv [OF _ assms(1)] serves_routes)

section \<open>Responses\<close>

text \<open>A job that a route may show to a caller of tenant \<open>t\<close>.\<close>

definition visible_job :: "string \<Rightarrow> doc_job \<Rightarrow> bool" where
  "visible_job t j \<longleftrightarrow> valid_doc_job j \<and> dj_tenant j = t"

lemma view_job_visible: "view_job db now row = Inr j \<Longrightarrow> visible_job (jr_tenant row) j"
  by (auto simp: view_job_def visible_job_def Let_def split: if_splits)

lemma get_job_visible: "get_job jid t now db = Inr (j, db') \<Longrightarrow> visible_job t j"
  by (auto simp: get_job_def dest!: view_job_visible find_job_InrD)

lemma submit_job_visible:
  "submit_job kd rd t r op opts key nd nj now vn db = Inr (x, db') \<Longrightarrow> visible_job t (ds_job x)"
  by (drule submit_job_InrD(2)) (auto dest!: view_job_visible find_job_InrD select1_SomeD)

lemma retry_job_visible: "retry_job cfg jid t now un vn db = Inr (j, db') \<Longrightarrow> visible_job t j"
  by (auto simp: retry_job_def Let_def split: if_splits dest!: view_job_visible find_job_InrD)

lemma wp_call_result:
  assumes "\<And>clk fresh db x db'. f clk fresh db = Inr (x, db') \<Longrightarrow> P x"
  shows "wp (call_db f) (\<lambda>x _. P x) (\<lambda>_ _. True) w"
  using assms by (auto simp: wp_def call_db_def Let_def split: sum.splits prod.splits)

lemma wp_world_call:
  assumes "\<And>w. wp m (\<lambda>x _. P x) (\<lambda>_ _. True) w"
  shows "wp (world_call m) (\<lambda>x _. P x) (\<lambda>_ _. True) s"
  using assms [of "dp_world s"]
  by (auto simp: wp_def world_call_def faulty_call_def in_world_def Let_def split: option.split sum.splits prod.splits)

lemma get_visible: "wp (js_get (api_jobs dx) jid t) (\<lambda>j _. visible_job t j) (\<lambda>_ _. True) s"
  unfolding api_jobs_def job_store.simps by (intro wp_world_call wp_call_result get_job_visible)

lemma run_here_visible: "wp (run_here dx jid t) (\<lambda>j _. visible_job t j) (\<lambda>_ _. True) s"
proof -
  have "wp (execute_document_job (dx_store dx) (dx_tenants dx) jid t nd created) (\<lambda>j _. visible_job t j) (\<lambda>_ _. True) w"
    for nd created w
  proof (cases "worker_context (dx_tenants dx) t")
    case (Inr ctx)
    then have "tenant_id ctx = t" by (auto simp: worker_context_def make_context_def split: if_splits)
    then have get: "wp (call_db (\<lambda>clk _. get_job jid (tenant_id ctx) (clk 0))) (\<lambda>j _. visible_job t j) (\<lambda>_ _. True) v" for v
      by (intro wp_call_result) (simp add: get_job_visible)
    have any: "wp m (\<lambda>_ _. True) (\<lambda>_ _. True) v" for m :: "(doc_world, exn, 'b) proc" and v
      by (simp add: wp_def split: prod.split sum.split)
    have "wp (process_document_job (dx_store dx) jid ctx nd created) (\<lambda>j _. visible_job t j) (\<lambda>_ _. True) w"
      unfolding process_document_job_def wp_bindP
      by (rule wp_mono [OF any]) (auto simp: wp_thenP wp_case_option intro!: get wp_mono [OF any] split: option.split)
    with Inr show ?thesis by (simp add: execute_document_job_def wp_rules)
  qed (simp add: execute_document_job_def wp_rules)
  then show ?thesis unfolding run_here_def by (auto simp: wp_rules intro!: wp_world_call)
qed

text \<open>The response of a submission route.\<close>

definition submission_response_ok :: "string \<Rightarrow> nat \<times> doc_submission \<Rightarrow> bool" where
  "submission_response_ok t r \<longleftrightarrow>
     visible_job t (ds_job (snd r)) \<and> fst r \<in> {200, 202, 403, 404, 409, 422, 500} \<and>
     (fst r = 202 \<longleftrightarrow> pending (ds_job (snd r)))"

lemma submission_status_cases:
  "submission_status b j \<in> {200, 202, 403, 404, 409, 422, 500} \<and> (submission_status b j = 202 \<longleftrightarrow> pending j)"
  by (auto simp: submission_status_def failure_status_def pending_def)

lemma performed_visible:
  assumes "dj_tenant (ds_job sub) = t"
  shows "wp (perform_submission dx sub b) (\<lambda>r _. submission_response_ok t r) (\<lambda>_ _. True) s"
proof -
  have any: "wp (publish_job dx (ds_job sub)) (\<lambda>_ _. True) (\<lambda>_ _. True) s"
    by (simp add: wp_def split: prod.split sum.split)
  have ran: "wp (if b then thenP (publish_job dx (ds_job sub)) (js_get (api_jobs dx) jid t) else run_here dx jid t)
      (\<lambda>j _. visible_job t j) (\<lambda>_ _. True) s" for jid
    by (auto simp: wp_thenP intro: run_here_visible wp_mono [OF any] get_visible)
  show ?thesis unfolding perform_submission_def Let_def assms wp_bindP
    by (rule wp_mono [OF ran]) (use submission_status_cases in \<open>auto simp: wp_returnP submission_response_ok_def\<close>)
qed

lemma submitted_visible:
  "wp (facade_submit (api_jobs dx) opts r op ctx key) (\<lambda>x _. visible_job (tenant_id ctx) (ds_job x)) (\<lambda>_ _. True) s"
  by (auto simp: facade_submit_def authorized_eq wp_rules api_jobs_def intro!: wp_world_call wp_call_result submit_job_visible)

text \<open>A response: an HTTP error, or a value that satisfies \<open>P\<close>.\<close>

definition response_ok :: "('a \<Rightarrow> bool) \<Rightarrow> exn + 'a \<Rightarrow> bool" where
  "response_ok P r \<longleftrightarrow> (case r of Inl e \<Rightarrow> (\<exists>c. e = Http_exception c) | Inr x \<Rightarrow> P x)"

lemma document_error_http: "\<exists>c. document_error e = Http_exception c"
  by (auto simp: document_error_def split: exn.split)

lemma document_call_response:
  assumes "wp m (\<lambda>x _. P x) (\<lambda>_ _. True) s"
  shows "response_ok P (fst (document_call m s))"
  using assms document_error_http
  by (auto simp: response_ok_def wp_def document_call_def tryP_def raiseP_def split: prod.splits sum.splits)

text \<open>
  C36. Responses are well formed. Whatever happens outside, a route on documents answers with an HTTP
  error or with a valid receipt of a job of the caller's own tenant; a submission's response has one of
  seven statuses, which is 202 exactly when the job is still pending.
\<close>

theorem document_responses_typed:
  "response_ok (submission_response_ok (tenant_id ctx)) (fst (create_document dx body background ctx key s)) \<and>
   response_ok (submission_response_ok (tenant_id ctx)) (fst (update_document dx d ubody background ctx key s)) \<and>
   response_ok (visible_job (tenant_id ctx)) (fst (document_job dx jid ctx s)) \<and>
   response_ok (visible_job (tenant_id ctx)) (fst (retry_document_job dx jid ctx s))"
proof (intro conjI)
  have sub: "wp (bindP (facade_submit (api_jobs dx) default_options r op ctx key) (\<lambda>sub. perform_submission dx sub background))
      (\<lambda>r _. submission_response_ok (tenant_id ctx) r) (\<lambda>_ _. True) v" for r op v
    unfolding wp_bindP
    by (rule wp_mono [OF submitted_visible]) (auto simp: visible_job_def intro: performed_visible)
  show "response_ok (submission_response_ok (tenant_id ctx)) (fst (create_document dx body background ctx key s))"
    "response_ok (submission_response_ok (tenant_id ctx)) (fst (update_document dx d ubody background ctx key s))"
    unfolding create_document_def update_document_def
    by (rule document_call_response, simp add: wp_bindP [of "liftR _"] wp_liftR sub split: sum.split)+
  show "response_ok (visible_job (tenant_id ctx)) (fst (document_job dx jid ctx s))"
    unfolding document_job_def
    by (rule document_call_response) (simp add: facade_status_def authorized_eq wp_rules get_visible)
  have any: "wp m (\<lambda>_ _. True) (\<lambda>_ _. True) v" for m :: "(doc_api, exn, 'b) proc" and v
    by (simp add: wp_def split: prod.split sum.split)
  show "response_ok (visible_job (tenant_id ctx)) (fst (retry_document_job dx jid ctx s))"
    unfolding retry_document_job_def
    by (rule document_call_response, unfold wp_bindP wp_thenP, rule wp_mono [OF any], rule wp_mono [OF any],
        rule get_visible) simp_all
qed

section \<open>From a body to the stored document\<close>

lemma utf8_bytes_length: "1 \<le> length (utf8_bytes c) \<and> length (utf8_bytes c) \<le> 4"
  by (simp add: utf8_bytes_def)

lemma utf8_encode_length:
  assumes "utf8_encode t = Some bytes"
  shows "length t \<le> length bytes \<and> length bytes \<le> 4 * length t"
proof -
  have "length t \<le> length (concat (map utf8_bytes t)) \<and> length (concat (map utf8_bytes t)) \<le> 4 * length t" for t
  proof (induction t)
    case (Cons c t)
    then show ?case using utf8_bytes_length [of c] by simp
  qed simp
  with assms show ?thesis by (auto simp: utf8_encode_def split: if_splits)
qed

text \<open>Every accepted body makes a valid source, within the bound on its bytes, which decodes to its text.\<close>

lemma create_source_ok:
  assumes "valid_create_body body"
  shows "\<exists>r. create_source body = Inr r \<and> valid_ingestion_request r \<and> ir_title r = di_title body \<and>
     ir_source_ref r = di_source_ref body \<and>
     utf8_sig_decode (ir_content r) = Some (if hd (di_text body) = 65279 then tl (di_text body) else di_text body)"
proof -
  obtain bytes where b: "utf8_encode (di_text body) = Some bytes"
    using assms by (auto simp: valid_create_body_def encodes_def)
  have t: "1 \<le> length (di_text body)" "length (di_text body) \<le> 1000000"
    using assms by (auto simp: valid_create_body_def valid_document_input_def valid_text_def)
  then have "di_text body \<noteq> []" by auto
  with t utf8_encode_length [OF b] utf8_sig_decode_encode [OF b] assms b show ?thesis
    by (auto simp: create_source_def valid_ingestion_request_def valid_create_body_def valid_document_input_def Let_def)
qed

text \<open>
  The default windows of 1000 characters with an overlap of 100 cover at most 900100 characters within
  the limit of 1000 chunks; the limit on their total length never binds.
\<close>

lemma default_window_count: "window_count n 1000 900 \<le> 1000 \<longleftrightarrow> n \<le> 900100"
  by (auto simp: window_count_def)

lemma default_split:
  assumes "valid_text t"
  shows "is_ok (window_split \<lparr>cr_text = t, cr_options = default_options\<rparr> 1000 2000000) \<longleftrightarrow> length t \<le> 900100"
proof -
  have n: "length t \<le> 1000000" using assms by (simp add: valid_text_def)
  have "valid_chunking_request \<lparr>cr_text = t, cr_options = default_options\<rparr>"
    using assms default_options_valid by (simp add: valid_chunking_request_def)
  note eq = window_split_eq [OF this, simplified]
  have "length t + (window_count (length t) 1000 900 - 1) * 100 \<le> 2000000"
    using n by (auto simp: window_count_def)
  then show ?thesis using default_window_count [of "length t"]
    unfolding eq by (auto simp: default_options_def is_ok_def)
qed

text \<open>An API no other process and no fault disturbs, and a submission under a key not used before.\<close>

definition undisturbed :: "doc_api_cfg \<Rightarrow> doc_api \<Rightarrow> bool" where
  "undisturbed dx s \<longleftrightarrow> quiet (dx_store dx) (dp_world s) \<and> (\<forall>k. dp_fault s k = None) \<and>
     doc_inv (dx_store dx) (dw_db (dp_world s))"

definition new_submission :: "doc_api_cfg \<Rightarrow> string \<Rightarrow> string \<Rightarrow> doc_api \<Rightarrow> bool" where
  "new_submission dx t key s \<longleftrightarrow>
     (let w = dp_world s; db = dw_db w
      in key_pattern key \<and> list_all (\<lambda>j. jr_id j \<noteq> dw_fresh w (dw_calls w) \<and>
           \<not> (jr_tenant j = t \<and> jr_key_hash j = dx_key_digest dx key)) (db_jobs db) \<and>
         versions_of db t (dp_fresh s (dp_calls s)) = [])"

lemma wp_world_undisturbed:
  assumes "undisturbed dx s"
  shows "wp (world_call m) Q E s =
    wp m (\<lambda>x w. Q x (s\<lparr>dp_calls := dp_calls s + 1, dp_world := w\<rparr>))
      (\<lambda>e w. E e (s\<lparr>dp_calls := dp_calls s + 1, dp_world := w\<rparr>)) (dp_world s)"
  using assms by (simp add: undisturbed_def wp_def world_call_def faulty_call_def in_world_def Let_def
      split: prod.split)

lemma wp_new_submission:
  assumes u: "undisturbed dx s" and new: "new_submission dx t key s" and t: "tenant_pattern t"
    and r: "valid_ingestion_request r"
  shows "wp (js_submit (api_jobs dx) t (Create_source r) Op_create default_options key)
     (\<lambda>x s'. undisturbed dx s' \<and> dj_tenant (ds_job x) = t \<and>
        versions_of (dw_db (dp_world s')) t (dp_fresh s (dp_calls s)) = [] \<and>
        (\<exists>row. find_job (dw_db (dp_world s')) (dj_id (ds_job x)) t = Inr row \<and>
           jr_document_id row = dp_fresh s (dp_calls s) \<and> jr_state row = Job_queued \<and> jr_attempts row = 0 \<and>
           jr_payload row = Some (Create_source r) \<and> jr_options row = default_options \<and> jr_tenant row = t))
     (\<lambda>_ _. False) s"
proof -
  let ?w = "dp_world s"
  let ?db = "dw_db ?w" and ?clk = "dw_clock ?w (dw_calls ?w)" and ?nj = "dw_fresh ?w (dw_calls ?w)"
    and ?nd = "dp_fresh s (dp_calls s)"
  let ?row = "new_job_row ?nj t ?nd Op_create (dx_key_digest dx key)
      (dx_request_digest dx Op_create (Create_source r)) (Create_source r) default_options (?clk 0)"
  let ?db' = "?db\<lparr>db_jobs := db_jobs ?db @ [?row]\<rparr>"
  have q: "quiet (dx_store dx) ?w" and inv: "doc_inv (dx_store dx) ?db" using u by (simp_all add: undisturbed_def)
  have key: "key_pattern key" and sel: "select1 (\<lambda>j. jr_tenant j = t \<and> jr_key_hash j = dx_key_digest dx key) (db_jobs ?db) = None"
    and fresh: "\<forall>j \<in> set (db_jobs ?db). jr_id j \<noteq> ?nj" and vs: "versions_of ?db t ?nd = []"
    using new by (auto simp: new_submission_def Let_def list_all_iff select1_None_iff)
  have "select1 (\<lambda>j. jr_id j = ?nj \<and> jr_tenant j = t) (db_jobs ?db) = None"
    using fresh by (simp add: select1_None_iff)
  then have found: "find_job ?db' ?nj t = Inr ?row"
    by (simp add: find_job_def select1_append new_job_row_def)
  have "job_ok (dx_store dx) ?row"
    using t r default_options_valid by (simp add: job_ok_def new_job_row_def read_payload_def validate_request_def
        request_target_def is_ok_def)
  then obtain j where j: "view_job ?db' (?clk 1) ?row = Inr j" using view_job_ok by blast
  then have "dj_id j = ?nj" "dj_tenant j = t" by (auto simp: new_job_row_def dest: view_job_InrD)
  moreover have sub: "submit_job (dx_key_digest dx) (dx_request_digest dx) t (Create_source r) Op_create default_options
      key ?nd ?nj (?clk 0) (?clk 1) ?db = Inr (\<lparr>ds_job = j, ds_replayed = False\<rparr>, ?db')"
    using key sel fresh found j t r
    by (simp add: submit_job_def validate_request_def check_identity_def request_target_def list_ex_iff Let_def)
  moreover have "doc_inv (dx_store dx) ?db'" by (rule doc_inv_submit [OF inv default_options_valid sub])
  moreover have "versions_of ?db' t ?nd = []" using vs by (simp add: versions_of_def)
  ultimately show ?thesis using u found q
    unfolding api_jobs_def job_store.simps wp_bindP wp_getP wp_world_undisturbed [OF u]
    by (simp add: wp_def call_db_quiet [OF q] undisturbed_def new_job_row_def)
qed

text \<open>The attempt, in the API's own process.\<close>

lemma wp_run_here:
  assumes u: "undisturbed dx s" and ctx: "worker_context (dx_tenants dx) t = Inr ctx"
    and row: "find_job (dw_db (dp_world s)) jid t = Inr row" "jr_state row = Job_queued"
      "jr_attempts row < job_max_attempts (dx_store dx)"
  shows "wp (run_here dx jid t)
     (\<lambda>j s'. undisturbed dx s' \<and> dj_document_id j = jr_document_id row \<and>
        (case job_outcome (dw_db (dp_world s)) ctx row (dp_fresh s (dp_calls s)) (dp_time s (dp_calls s)) of
           Inr rec \<Rightarrow> dj_state j = Job_succeeded \<and>
             versions_of (dw_db (dp_world s')) t (jr_document_id row)
               = versions_of (dw_db (dp_world s)) t (jr_document_id row) @ [rec]
         | Inl e \<Rightarrow> dj_state j = Job_failed \<and> dj_error j = Some (failure_code e)))
     (\<lambda>_ _. False) s"
proof -
  let ?cfg = "dx_store dx" and ?nd = "dp_fresh s (dp_calls s)" and ?at = "dp_time s (dp_calls s)" and ?w = "dp_world s"
  have t: "tenant_id ctx = t" using ctx by (auto simp: worker_context_def make_context_def split: if_splits)
  have q: "quiet ?cfg ?w" and inv: "doc_inv ?cfg (dw_db ?w)" using u by (simp_all add: undisturbed_def)
  have env: "\<forall>k db. \<exists>evs. dx_trace dx db evs (dw_env ?w k db)"
    using q by (auto simp: quiet_def intro: exI [of _ "[]"] trace_start)
  have reach0: "worker_reach ?cfg (dx_key_digest dx) (dx_request_digest dx) (dw_db ?w) ?w"
    unfolding worker_reach_def by (rule conjI [OF _ env], rule exI, rule trace_start)
  note reached = preservesD [OF preserves_process_document_job reach0, of jid ctx ?nd ?at]
  have same: "jr_document_id row' = jr_document_id row"
    if w': "worker_reach ?cfg (dx_key_digest dx) (dx_request_digest dx) (dw_db ?w) w'" "doc_inv ?cfg (dw_db w')"
      and row': "find_job (dw_db w') jid t = Inr row'" for w' row'
  proof -
    obtain evs where tr: "dx_trace dx (dw_db ?w) evs (dw_db w')" using w'(1) by (auto simp: worker_reach_def)
    have "row_of (dw_db ?w) jid = Some row" "row_of (dw_db w') jid = Some row'"
      using inv w'(2) row(1) row' by (auto simp: doc_inv_def intro: row_of_find)
    with job_trace_same_key [OF tr inv] show ?thesis by (fastforce simp: same_key_def)
  qed
  have "find_job (dw_db ?w) jid (tenant_id ctx) = Inr row" using row(1) t by simp
  note outcome = process_outcome [OF q inv this row(2,3), of ?nd ?at]
  have "jr_tenant row = t" using find_job_InrD [OF row(1)] by simp
  then show ?thesis
    unfolding run_here_def wp_bindP wp_getP split_conv wp_world_undisturbed [OF u] execute_document_job_def ctx wp_liftR sum.case
    by (intro wp_mono [OF wp_conj [OF outcome reached]])
      (use u in \<open>auto simp: undisturbed_def t dest: same split: sum.splits\<close>)
qed

lemma read_latest:
  assumes u: "undisturbed dx s" and p: "''document.read'' \<in> permissions ctx" and t: "tenant_pattern (tenant_id ctx)"
    and vs: "versions_of (dw_db (dp_world s)) (tenant_id ctx) d = [rec]"
  shows "\<exists>s'. read_document d None ctx s = (Inr rec, s')"
proof -
  have q: "quiet (dx_store dx) (dp_world s)" and inv: "versions_inv (dw_db (dp_world s))"
    using u by (simp_all add: undisturbed_def doc_inv_def)
  have "wp (read_document d None ctx) (\<lambda>x _. x = rec) (\<lambda>_ _. False) s"
    using p vs get_version_eq [OF inv t]
    by (simp add: read_document_def document_call_def facade_read_def coordinator_read_def valid_read_request_def
        authorized_eq api_documents_def wp_rules wp_world_undisturbed [OF u]) (simp add: wp_def call_db_quiet [OF q])
  then show ?thesis by (auto simp: wp_def split: prod.splits sum.splits)
qed

text \<open>What processing a new document's body comes to.\<close>

lemma create_outcome:
  assumes body: "valid_create_body body" and bom: "hd (di_text body) \<noteq> 65279"
    and r: "create_source body = Inr r" and t: "tenant_pattern t"
    and row: "jr_tenant row = t" "jr_document_id row = d" "jr_payload row = Some (Create_source r)"
      "jr_options row = default_options"
    and new: "versions_of db t d = []" and p: "''document.create'' \<in> permissions ctx"
  shows "case job_outcome db ctx row nd created of
      Inr rec \<Rightarrow> length (di_text body) \<le> 900100 \<and> sv_document rec = body \<and> sv_version rec = 1
    | Inl e \<Rightarrow> 900100 < length (di_text body) \<and> e = Chunking_limit_exceeded"
proof -
  have vr: "valid_ingestion_request r" and dec: "utf8_sig_decode (ir_content r) = Some (di_text body)"
    and fields: "ir_title r = di_title body" "ir_source_ref r = di_source_ref body"
    using create_source_ok [OF body] r bom by auto
  have vt: "valid_text (di_text body)" using body by (simp add: valid_create_body_def valid_document_input_def)
  note split = default_split [OF vt]
  show ?thesis
  proof (cases "window_split \<lparr>cr_text = di_text body, cr_options = default_options\<rparr> 1000 2000000")
    case (Inl e)
    with split vt dec show ?thesis
      by (simp add: job_outcome_def row p prepare_record_eq [OF default_options_valid vr t] is_ok_def Let_def)
  next
    case (Inr cs)
    with split vt dec fields new show ?thesis
      by (simp add: job_outcome_def row p prepare_record_eq [OF default_options_valid vr t] is_ok_def Let_def)
  qed
qed

text \<open>What the caller finds after a creation: the stored text, or a refusal of a text that is too long.\<close>

abbreviation creation_answered ::
  "document_input \<Rightarrow> tool_context \<Rightarrow> nat \<times> doc_submission \<Rightarrow> doc_api \<Rightarrow> bool" where
  "creation_answered body ctx x s \<equiv>
     (if length (di_text body) \<le> 900100
      then fst x = 200 \<and> (\<exists>rec s''. read_document (dj_document_id (ds_job (snd x))) None ctx s = (Inr rec, s'') \<and>
             sv_document rec = body \<and> sv_version rec = 1)
      else fst x = 422)"

lemma performed_creation:
  assumes body: "valid_create_body body" "hd (di_text body) \<noteq> 65279" and r: "create_source body = Inr r"
    and u: "undisturbed dx s" and ctx: "worker_context (dx_tenants dx) (tenant_id ctx) = Inr ctx"
    and t: "tenant_pattern (tenant_id ctx)" and grants: "{''document.create'', ''document.read''} \<subseteq> permissions ctx"
    and jt: "dj_tenant (ds_job x) = tenant_id ctx"
    and vs: "versions_of (dw_db (dp_world s)) (tenant_id ctx) (jr_document_id row) = []"
    and found: "find_job (dw_db (dp_world s)) (dj_id (ds_job x)) (tenant_id ctx) = Inr row" "jr_state row = Job_queued"
      "jr_attempts row < job_max_attempts (dx_store dx)"
    and row: "jr_tenant row = tenant_id ctx" "jr_payload row = Some (Create_source r)" "jr_options row = default_options"
  shows "wp (perform_submission dx x False) (creation_answered body ctx) (\<lambda>_ _. False) s"
  unfolding perform_submission_def Let_def wp_bindP if_False jt
proof (rule wp_mono [OF wp_run_here [OF u ctx found]], goal_cases)
  case after: (1 j s2)
  have p: "''document.create'' \<in> permissions ctx" "''document.read'' \<in> permissions ctx" using grants by auto
  note outcome = create_outcome [OF body r t row(1) refl row(2,3) vs p(1), of "dp_fresh s (dp_calls s)" "dp_time s (dp_calls s)"]
  show ?case
  proof (cases "job_outcome (dw_db (dp_world s)) ctx row (dp_fresh s (dp_calls s)) (dp_time s (dp_calls s))")
    case (Inl e)
    with after outcome show ?thesis
      by (simp add: wp_returnP submission_status_def failure_status_def failure_code_def)
  next
    case (Inr rec)
    with after vs have "undisturbed dx s2"
      and "versions_of (dw_db (dp_world s2)) (tenant_id ctx) (jr_document_id row) = [rec]" by simp_all
    then obtain s3 where "read_document (jr_document_id row) None ctx s2 = (Inr rec, s3)"
      using read_latest [OF _ p(2) t] by blast
    with Inr after outcome show ?thesis
      by (auto simp: wp_returnP submission_status_def pending_def)
  qed
qed simp


end
