(* ===== verification/Crew_Api.thy ===== *)
theory Crew_Api
  imports Crew Task_Status
begin

text \<open>
  The HTTP operations on crew tasks (\<open>api/routes.py\<close>, \<open>api/schemas.py\<close>): submission to the broker, the
  synchronous run, and the status of a task, behind authentication. The outside is the ownership store,
  in which other processes register tasks of their own, the broker and the Celery result backend; any
  call may fail, with or without having taken effect.
\<close>

section \<open>The outside\<close>

text \<open>What the result backend holds for a task: the class name of the value, and its JSON encoding.\<close>

record task_value =
  tv_class :: string
  tv_encoded :: "exn + ustr"

record crew_api =
  ca_owners :: "string \<rightharpoonup> string"
  ca_broker :: "(string \<times> string \<times> string \<times> crew_payload) list"
  ca_calls :: nat
  ca_env :: "nat \<Rightarrow> (string \<rightharpoonup> string) \<Rightarrow> (string \<rightharpoonup> string)"
  ca_fault :: "nat \<Rightarrow> (bool \<times> exn) option"
  ca_fresh :: "nat \<Rightarrow> string"
  ca_state :: "nat \<Rightarrow> string \<Rightarrow> string"
  ca_result :: "nat \<Rightarrow> string \<Rightarrow> task_value"

record crew_api_cfg =
  cc_tenants :: tenant_settings
  cc_digest :: "ustr \<Rightarrow> string"

definition crew_outside :: "(nat \<Rightarrow> crew_api \<Rightarrow> exn + 'a \<times> crew_api) \<Rightarrow> (crew_api, exn, 'a) proc" where
  "crew_outside f s =
     (let k = ca_calls s; s' = s\<lparr>ca_owners := ca_env s k (ca_owners s), ca_calls := k + 1\<rparr>
      in case ca_fault s k of
           None \<Rightarrow> (case f k s' of Inl e \<Rightarrow> (Inl e, s') | Inr (x, s'') \<Rightarrow> (Inr x, s''))
         | Some (applied, e) \<Rightarrow>
             (Inl e, if applied then (case f k s' of Inl _ \<Rightarrow> s' | Inr (_, s'') \<Rightarrow> s'') else s'))"

definition crew_register :: "crew_api_cfg \<Rightarrow> string \<Rightarrow> string \<Rightarrow> (crew_api, exn, unit) proc" where
  "crew_register cc task t =
     crew_outside (\<lambda>_ s. case register_owner (cc_digest cc) (ucs task) t (ca_owners s) of
                           Inl e \<Rightarrow> Inl e | Inr (u, owners) \<Rightarrow> Inr (u, s\<lparr>ca_owners := owners\<rparr>))"

definition crew_require_owner :: "crew_api_cfg \<Rightarrow> string \<Rightarrow> string \<Rightarrow> (crew_api, exn, unit) proc" where
  "crew_require_owner cc task t =
     crew_outside (\<lambda>_ s. if ca_owners s (owner_key (cc_digest cc) (ucs task)) \<noteq> Some t
                         then Inl (Http_exception 404) else Inr ((), s))"

text \<open>\<open>run_crew.apply_async\<close>, and the reads of an \<open>AsyncResult\<close>\<close>

definition send_crew :: "string \<Rightarrow> string \<Rightarrow> string \<Rightarrow> crew_payload \<Rightarrow> (crew_api, exn, unit) proc" where
  "send_crew task queue t payload =
     crew_outside (\<lambda>_ s. Inr ((), s\<lparr>ca_broker := ca_broker s @ [(task, queue, t, payload)]\<rparr>))"

definition task_state :: "string \<Rightarrow> (crew_api, exn, string) proc" where
  "task_state task = crew_outside (\<lambda>k s. Inr (ca_state s k task, s))"

definition task_value :: "string \<Rightarrow> (crew_api, exn, task_value) proc" where
  "task_value task = crew_outside (\<lambda>k s. Inr (ca_result s k task, s))"

section \<open>Submission\<close>

text \<open>\<open>CrewRunRequest\<close>; further members of its input are dropped here as \<open>CrewRunner\<close> ignores them.\<close>

record crew_request =
  cq_agent_type :: ustr
  cq_message :: ustr

definition valid_crew_request :: "crew_request \<Rightarrow> bool" where
  "valid_crew_request r \<longleftrightarrow> py_strip (cq_message r) \<noteq> []"

definition request_payload :: "crew_request \<Rightarrow> crew_payload" where
  "request_payload r = Payload_object (Some (cq_agent_type r)) (Some (Input_object (Some (Msg_text (cq_message r)))))"

definition run_crew_api :: "crew_api_cfg \<Rightarrow> crew_request \<Rightarrow> tool_context \<Rightarrow> (crew_api, exn, string) proc" where
  "run_crew_api cc request ctx =
     bindP (liftR (tenant_queue (cc_tenants cc) (tenant_id ctx))) (\<lambda>queue.
     tryP (bindP (getP (\<lambda>s. ca_fresh s (ca_calls s))) (\<lambda>task.
           thenP (crew_register cc task (tenant_id ctx))
           (thenP (send_crew task queue (tenant_id ctx) (request_payload request))
             (returnP task))))
       (\<lambda>e. raiseP (Http_exception (if e = Redis_error then 503 else 500))))"

text \<open>\<open>run_crew_sync_api\<close>: the runner in the process of the API; its state counts the model calls.\<close>

definition run_crew_sync_api ::
  "(ustr \<Rightarrow> ustr \<Rightarrow> ustr) \<Rightarrow> (exn + llm) \<Rightarrow> crew_request \<Rightarrow> tool_context \<Rightarrow> (nat, exn, ustr) proc" where
  "run_crew_sync_api render provider request ctx =
     tryP (bindP (crew_runner render provider (tenant_id ctx) (Some (cq_agent_type request)) (Some (cq_message request)))
            (\<lambda>r. returnP (cw_output r)))
       (\<lambda>e. raiseP (Http_exception (if is_value_error e then 400 else 500)))"

section \<open>Status\<close>

text \<open>The result of a status response: none, the encoded value, or the class of the failure.\<close>

datatype status_result = No_result | Encoded ustr | Failed_with string

definition status_result :: "string \<Rightarrow> string \<Rightarrow> (crew_api, exn, status_result) proc" where
  "status_result task state =
     (if state = ''SUCCESS''
      then bindP (task_value task) (\<lambda>v. bindP (liftR (tv_encoded v)) (\<lambda>x. returnP (Encoded x)))
      else if state = ''FAILURE''
      then bindP (task_value task) (\<lambda>v. returnP (Failed_with (tv_class v)))
      else returnP No_result)"

definition get_task_status :: "crew_api_cfg \<Rightarrow> string \<Rightarrow> string \<Rightarrow> (crew_api, exn, string \<times> status_result) proc" where
  "get_task_status cc task t =
     bindP (tryP (thenP (crew_require_owner cc task t) (task_state task))
              (\<lambda>e. raiseP (if e = Redis_error then Http_exception 503 else e))) (\<lambda>state.
     bindP (tryP (status_result task state) (\<lambda>_. raiseP (Http_exception 500))) (\<lambda>result.
     returnP (state, result)))"

section \<open>Published tasks are owned\<close>

text \<open>
  Other processes keep the keys that are registered (\<open>SET \<dots> NX\<close>; expiry is not modelled). A delivery in
  the broker is a task its tenant owns, in the tenant's queue, with a payload that passes the worker's checks.
\<close>

definition crew_delivery_ok :: "crew_api_cfg \<Rightarrow> crew_api \<Rightarrow> string \<times> string \<times> string \<times> crew_payload \<Rightarrow> bool" where
  "crew_delivery_ok cc s d \<longleftrightarrow>
     (case d of (task, queue, t, payload) \<Rightarrow>
        ca_owners s (owner_key (cc_digest cc) (ucs task)) = Some t \<and> tenant_queue (cc_tenants cc) t = Inr queue \<and>
        (\<forall>ck. ck_settings ck = cc_tenants cc \<longrightarrow> is_ok (check_payload ck t payload)))"

definition crew_api_inv :: "crew_api_cfg \<Rightarrow> crew_api \<Rightarrow> bool" where
  "crew_api_inv cc s \<longleftrightarrow>
     (\<forall>k owners key t. owners key = Some t \<longrightarrow> ca_env s k owners key = Some t) \<and>
     (\<forall>d \<in> set (ca_broker s). crew_delivery_ok cc s d)"

definition owns :: "crew_api_cfg \<Rightarrow> (string \<times> string) set \<Rightarrow> crew_api \<Rightarrow> bool" where
  "owns cc os s \<longleftrightarrow> crew_api_inv cc s \<and>
     (\<forall>(task, t) \<in> os. ca_owners s (owner_key (cc_digest cc) (ucs task)) = Some t)"

lemma owns_none: "owns cc {} = crew_api_inv cc"
  by (simp add: owns_def fun_eq_iff)

lemma crew_delivery_frame [simp]: "crew_delivery_ok cc (s\<lparr>ca_broker := b\<rparr>) d = crew_delivery_ok cc s d"
  by (simp add: crew_delivery_ok_def)

lemma owns_more_owners:
  assumes "owns cc os s" and "\<And>key t. ca_owners s key = Some t \<Longrightarrow> owners key = Some t"
  shows "owns cc os (s\<lparr>ca_owners := owners, ca_calls := n\<rparr>)" "owns cc os (s\<lparr>ca_owners := owners\<rparr>)"
  using assms by (fastforce simp: owns_def crew_api_inv_def crew_delivery_ok_def)+

lemma owns_called:
  assumes "owns cc os s"
  shows "owns cc os (s\<lparr>ca_owners := ca_env s k (ca_owners s), ca_calls := n\<rparr>)"
  by (rule owns_more_owners(1) [OF assms]) (use assms in \<open>simp add: owns_def crew_api_inv_def\<close>)

lemma wp_crew_outside:
  assumes "owns cc os s" and "\<And>k v x v'. owns cc os v \<Longrightarrow> f k v = Inr (x, v') \<Longrightarrow> owns cc os v' \<and> Q x v'"
  shows "wp (crew_outside f) Q (\<lambda>_. owns cc os) s"
proof -
  let ?v = "s\<lparr>ca_owners := ca_env s (ca_calls s) (ca_owners s), ca_calls := ca_calls s + 1\<rparr>"
  have v: "owns cc os ?v" by (rule owns_called [OF assms(1)])
  show ?thesis
    using v assms(2) [OF v, of "ca_calls s"] unfolding wp_def crew_outside_def Let_def
    by (auto split: option.split sum.split)
qed

lemma wp_crew_register:
  assumes "owns cc os s"
  shows "wp (crew_register cc task t) (\<lambda>_. owns cc (insert (task, t) os)) (\<lambda>_. owns cc os) s"
  unfolding crew_register_def
proof (rule wp_crew_outside [OF assms])
  fix k v x v'
  assume v: "owns cc os v"
    and r: "(case register_owner (cc_digest cc) (ucs task) t (ca_owners v) of
               Inl e \<Rightarrow> Inl e | Inr (u, owners) \<Rightarrow> Inr (u, v\<lparr>ca_owners := owners\<rparr>)) = Inr (x, v')"
  let ?key = "owner_key (cc_digest cc) (ucs task)"
  have new: "ca_owners v ?key = None" and v': "v' = v\<lparr>ca_owners := (ca_owners v)(?key \<mapsto> t)\<rparr>"
    using r by (auto simp: register_owner_def split: if_splits)
  have "owns cc os v'" unfolding v' by (rule owns_more_owners(2) [OF v]) (use new in auto)
  then show "owns cc os v' \<and> owns cc (insert (task, t) os) v'"
    by (simp add: owns_def v')
qed

lemma request_accepted:
  assumes "valid_crew_request r" and "tenant_queue (cc_tenants cc) t = Inr queue" and "ck_settings ck = cc_tenants cc"
  shows "is_ok (check_payload ck t (request_payload r))"
proof -
  have "t \<noteq> []" using assms(2) by (auto simp: tenant_queue_def pattern_defs split: if_splits)
  with assms show ?thesis
    by (simp add: check_payload_def request_payload_def payload_message_def valid_crew_request_def is_ok_def)
qed

lemma wp_send_crew:
  assumes "owns cc (insert (task, t) os) s" and "valid_crew_request r" and "tenant_queue (cc_tenants cc) t = Inr queue"
  shows "wp (send_crew task queue t (request_payload r)) (\<lambda>_. owns cc (insert (task, t) os)) (\<lambda>_. owns cc (insert (task, t) os)) s"
  unfolding send_crew_def
proof (rule wp_crew_outside [OF assms(1)])
  fix k v x v'
  let ?d = "(task, queue, t, request_payload r)"
  assume v: "owns cc (insert (task, t) os) v"
    and "Inr ((), v\<lparr>ca_broker := ca_broker v @ [?d]\<rparr>) = (Inr (x, v') :: exn + unit \<times> crew_api)"
  then have v': "v' = v\<lparr>ca_broker := ca_broker v @ [?d]\<rparr>" by simp
  have "crew_delivery_ok cc v ?d"
    using v assms(3) request_accepted [OF assms(2,3)] by (simp add: crew_delivery_ok_def owns_def)
  with v show "owns cc (insert (task, t) os) v' \<and> owns cc (insert (task, t) os) v'"
    unfolding v' by (simp add: owns_def crew_api_inv_def)
qed

lemma submit_owns:
  assumes "valid_crew_request r" and inv: "crew_api_inv cc s"
  shows "wp (run_crew_api cc r ctx) (\<lambda>_. crew_api_inv cc) (\<lambda>_. crew_api_inv cc) s"
proof (cases "tenant_queue (cc_tenants cc) (tenant_id ctx)")
  case (Inl e)
  then show ?thesis using inv by (simp add: run_crew_api_def wp_rules)
next
  case (Inr queue)
  have s: "owns cc {} s" using inv by (simp add: owns_def)
  have weak: "owns cc os v \<Longrightarrow> crew_api_inv cc v" for os v by (simp add: owns_def)
  show ?thesis unfolding run_crew_api_def Inr wp_bindP wp_liftR sum.case wp_tryP wp_getP wp_thenP wp_raiseP
    by (rule wp_mono [OF wp_crew_register [OF s]])
      (auto simp: wp_returnP intro: weak intro!: wp_mono [OF wp_send_crew [OF _ assms(1) Inr]])
qed

lemma status_keeps: "crew_api_inv cc s \<Longrightarrow> wp (get_task_status cc task t) (\<lambda>_. crew_api_inv cc) (\<lambda>_. crew_api_inv cc) s"
proof -
  have call: "preserves (owns cc {}) (crew_outside f)" if "\<And>k v x v'. f k v = Inr (x, v') \<Longrightarrow> v' = v"
    for f :: "nat \<Rightarrow> crew_api \<Rightarrow> exn + 'b \<times> crew_api"
    by (rule preservesI, rule wp_crew_outside) (auto dest: that)
  have "preserves (owns cc {}) (get_task_status cc task t)"
    unfolding get_task_status_def crew_require_owner_def task_state_def status_result_def task_value_def
    by (intro preserves_intro call) (auto split: if_splits)
  moreover assume "crew_api_inv cc s"
  ultimately show ?thesis unfolding owns_none by (rule preservesD)
qed

text \<open>A task that another tenant has registered is not shown.\<close>

lemma status_refused:
  assumes "crew_api_inv cc s" and "ca_owners s (owner_key (cc_digest cc) (ucs task)) = Some t" and "t' \<noteq> t"
  shows "\<exists>e. fst (get_task_status cc task t' s) = Inl e"
proof -
  have "\<forall>k. ca_env s k (ca_owners s) (owner_key (cc_digest cc) (ucs task)) = Some t"
    using assms(1,2) by (simp add: crew_api_inv_def)
  with assms(3) have "wp (crew_require_owner cc task t') (\<lambda>_ _. False) (\<lambda>_ _. True) s"
    by (auto simp: wp_def crew_require_owner_def crew_outside_def Let_def split: option.split)
  then have "wp (get_task_status cc task t') (\<lambda>_ _. False) (\<lambda>_ _. True) s"
    unfolding get_task_status_def wp_bindP wp_tryP wp_thenP wp_raiseP by (rule wp_mono) simp_all
  then show ?thesis by (auto simp: wp_def split: prod.splits sum.splits)
qed

text \<open>
  C39. Crew tasks are isolated. A valid submission, however its calls fail, leaves in the broker only
  tasks that are registered for their tenant before they are sent, lie in that tenant's queue and carry a
  payload the worker accepts; and the status of such a task is refused to every other tenant.
\<close>

theorem crew_tasks_isolated:
  assumes "crew_api_inv cc s" and "valid_crew_request r" and "s' = snd (run_crew_api cc r ctx s)"
  shows "crew_api_inv cc s' \<and>
    (\<forall>task queue t payload t'. (task, queue, t, payload) \<in> set (ca_broker s') \<and> t' \<noteq> t \<longrightarrow>
       (\<exists>e. fst (get_task_status cc task t' s') = Inl e))"
proof -
  have inv: "crew_api_inv cc s'"
    using submit_owns [OF assms(2,1), of ctx] assms(3) by (auto simp: wp_def split: prod.splits sum.splits)
  moreover have "\<exists>e. fst (get_task_status cc task t' s') = Inl e"
    if d: "(task, queue, t, payload) \<in> set (ca_broker s')" and t': "t' \<noteq> t" for task queue t payload t'
  proof -
    have "crew_delivery_ok cc s' (task, queue, t, payload)" using inv d by (simp add: crew_api_inv_def)
    then show ?thesis by (intro status_refused [OF inv _ t']) (simp add: crew_delivery_ok_def)
  qed
  ultimately show ?thesis by blast
qed

end
