(* ===== verification/Observability.thy ===== *)
theory Observability
  imports Tenancy Decisions "HOL-Library.AList"
begin

text \<open>
  What the program says about itself: context variables scoped to a block
  (\<open>services/tool_log_context.py\<close>, \<open>core/tenant.py\<close>, \<open>services/execution_control.py\<close>), the redaction
  of Celery's failure records (\<open>infrastructure/celery_log_privacy.py\<close>), metrics and their snapshot
  (\<open>infrastructure/agent_metrics.py\<close>), request identifiers and the access log
  (\<open>api/middleware\<close>) and the JSON log formatter (\<open>infrastructure/logging.py\<close>). Times, identifiers and
  the texts the logging library builds are parameters.
\<close>

section \<open>Context variables\<close>

text \<open>
  \<open>token = var.set(value); try: yield; finally: var.reset(token)\<close>: the value before the block is put
  back however the block ends and whatever it sets.
\<close>

definition scoped :: "('s \<Rightarrow> 'v) \<Rightarrow> ('v \<Rightarrow> 's \<Rightarrow> 's) \<Rightarrow> 'v \<Rightarrow> ('s, 'e, 'a) proc \<Rightarrow> ('s, 'e, 'a) proc" where
  "scoped get put v m s = finallyP m (put (get s)) (put v s)"

locale context_variable =
  fixes get :: "'s \<Rightarrow> 'v" and put :: "'v \<Rightarrow> 's \<Rightarrow> 's"
  assumes get_put: "get (put v s) = v"
    and put_put: "put v (put w s) = put v s"
    and put_get: "put (get s) s = s"
begin

lemma scoped_restores: "get (snd (scoped get put v m s)) = get s"
  by (simp add: scoped_def finallyP_def get_put split: prod.split)

lemma scoped_visible: "scoped get put v (getP get) s = (Inr v, s)"
  by (simp add: scoped_def finallyP_def getP_def get_put put_put put_get)

lemma scoped_assignment: "scoped get put v (modifyP (put w)) s = (Inr (), s)"
  by (simp add: scoped_def finallyP_def modifyP_def put_put put_get)

lemma scoped_result: "fst (scoped get put v m s) = fst (m (put v s))"
  by (simp add: scoped_def finallyP_def split: prod.split)

lemma scoped_nested: "scoped get put v (scoped get put w m) = scoped get put w m"
  by (rule ext) (simp add: scoped_def finallyP_def put_put get_put split: prod.split)

end

text \<open>\<open>ToolLogContext\<close>; the ambient values of a thread of execution.\<close>

record tool_log =
  tg_run_id :: string
  tg_call_id :: string
  tg_step :: nat

record 'c ambient =
  am_tenant :: "string option"
  am_tool_log :: "tool_log option"
  am_control :: "'c option"

definition set_tenant :: "string \<Rightarrow> ('c ambient, 'e, unit) proc" where
  "set_tenant t = modifyP (am_tenant_update (\<lambda>_. Some t))"

definition get_current_tenant :: "('c ambient, 'e, string option) proc" where
  "get_current_tenant = getP am_tenant"

definition tenant_context :: "string \<Rightarrow> ('c ambient, 'e, 'a) proc \<Rightarrow> ('c ambient, 'e, 'a) proc" where
  "tenant_context t = scoped am_tenant (\<lambda>v. am_tenant_update (\<lambda>_. v)) (Some t)"

definition get_tool_log_context :: "('c ambient, 'e, tool_log option) proc" where
  "get_tool_log_context = getP am_tool_log"

definition tool_log_context :: "tool_log \<Rightarrow> ('c ambient, 'e, 'a) proc \<Rightarrow> ('c ambient, 'e, 'a) proc" where
  "tool_log_context c = scoped am_tool_log (\<lambda>v. am_tool_log_update (\<lambda>_. v)) (Some c)"

definition get_execution_control :: "('c ambient, 'e, 'c option) proc" where
  "get_execution_control = getP am_control"

definition execution_scope :: "'c \<Rightarrow> ('c ambient, 'e, 'a) proc \<Rightarrow> ('c ambient, 'e, 'a) proc" where
  "execution_scope c = scoped am_control (\<lambda>v. am_control_update (\<lambda>_. v)) (Some c)"

interpretation tenant_var: context_variable am_tenant "\<lambda>v. am_tenant_update (\<lambda>_. v)"
  by unfold_locales auto

interpretation tool_log_var: context_variable am_tool_log "\<lambda>v. am_tool_log_update (\<lambda>_. v)"
  by unfold_locales auto

interpretation control_var: context_variable am_control "\<lambda>v. am_control_update (\<lambda>_. v)"
  by unfold_locales auto

lemma tenant_context_restores:
  "am_tenant (snd (tenant_context t m s)) = am_tenant s"
  "tenant_context t get_current_tenant s = (Inr (Some t), s)"
  "tenant_context t (set_tenant u) s = (Inr (), s)"
  unfolding tenant_context_def get_current_tenant_def set_tenant_def
  by (rule tenant_var.scoped_restores tenant_var.scoped_visible tenant_var.scoped_assignment)+

lemma tool_log_context_restores:
  "am_tool_log (snd (tool_log_context c m s)) = am_tool_log s"
  "tool_log_context c get_tool_log_context s = (Inr (Some c), s)"
  unfolding tool_log_context_def get_tool_log_context_def
  by (rule tool_log_var.scoped_restores tool_log_var.scoped_visible)+

lemma execution_scope_restores:
  "am_control (snd (execution_scope c m s)) = am_control s"
  "execution_scope c get_execution_control s = (Inr (Some c), s)"
  unfolding execution_scope_def get_execution_control_def
  by (rule control_var.scoped_restores control_var.scoped_visible)+

section \<open>Failure records\<close>

text \<open>
  The part of a \<open>logging.LogRecord\<close> the filter reads or writes: the message and its arguments, the
  attribute \<open>data\<close> Celery attaches (a dictionary, another value or nothing), and the exception with the
  name of its class, its text and the stack.
\<close>

record log_record =
  lr_logger :: string
  lr_level :: string
  lr_msg :: ustr
  lr_args :: json
  lr_data :: "json option"
  lr_exc_info :: "(string option \<times> ustr) option"
  lr_exc_text :: "ustr option"
  lr_stack_info :: "ustr option"

definition task_names :: "ustr list" where
  "task_names = map ucs
     [''crewos.workers.agent_task.run_agent'', ''crewos.workers.document_task.run_document_job'',
      ''crewos.workers.crew_task.run_crew'']"

text \<open>Membership in a set of strings: a list or a dictionary is not hashable.\<close>

definition in_strings :: "json option \<Rightarrow> ustr list \<Rightarrow> exn + bool" where
  "in_strings v names =
     (case v of
        Some (J_str s) \<Rightarrow> Inr (List.member names s)
      | Some (J_list _) \<Rightarrow> Inl Type_error
      | Some (J_object _) \<Rightarrow> Inl Type_error
      | _ \<Rightarrow> Inr False)"

definition error_type_of :: "log_record \<Rightarrow> string" where
  "error_type_of r = (case lr_exc_info r of Some (Some name, _) \<Rightarrow> name | _ \<Rightarrow> ''TaskError'')"

definition get_or_null :: "(string \<times> json) list \<Rightarrow> string \<Rightarrow> json" where
  "get_or_null kvs k = (case map_of kvs k of None \<Rightarrow> J_null | Some v \<Rightarrow> v)"

definition safe_data :: "json \<Rightarrow> json \<Rightarrow> json \<Rightarrow> string \<Rightarrow> json" where
  "safe_data name task_id disposition error_type = J_object
     [(''disposition'', disposition),
      (''name'', name),
      (''id'', task_id),
      (''error_type'', J_str (ucs error_type)),
      (''event'', J_str (ucs (if disposition = J_str (ucs ''failed'') then ''celery_task_failed'' else ''celery_task_not_executed'')))]"

definition redacted :: "log_record \<Rightarrow> json \<Rightarrow> log_record" where
  "redacted r safe = r\<lparr>lr_msg := ucs ''Task %(name)s[%(id)s] %(disposition)s (%(error_type)s)'',
     lr_args := safe, lr_data := Some safe, lr_exc_info := None, lr_exc_text := None, lr_stack_info := None\<rparr>"

text \<open>\<open>CrewTaskFailurePrivacyFilter.filter\<close>; the record it leaves, always passed on.\<close>

definition data_dict :: "log_record \<Rightarrow> (string \<times> json) list option" where
  "data_dict r = (case lr_data r of Some (J_object kvs) \<Rightarrow> Some kvs | _ \<Rightarrow> None)"

definition filter_record :: "log_record \<Rightarrow> exn + log_record" where
  "filter_record r =
     (case data_dict r of
        None \<Rightarrow> Inr r
      | Some kvs \<Rightarrow>
          bindR (in_strings (map_of kvs ''name'') task_names) (\<lambda>known.
          if \<not> known \<or> map_of kvs ''exc'' = None then Inr r
          else bindR (in_strings (map_of kvs ''description'') [ucs ''ignored'', ucs ''rejected'']) (\<lambda>not_run.
            Inr (redacted r (safe_data (get_or_null kvs ''name'') (get_or_null kvs ''id'')
                               (if not_run then get_or_null kvs ''description'' else J_str (ucs ''failed''))
                               (error_type_of r))))))"

text \<open>\<open>install_celery_failure_privacy\<close>: the filters of the logger, by class.\<close>

definition install_filter :: "string list \<Rightarrow> string list" where
  "install_filter filters =
     (if list_ex (\<lambda>f. f = ''CrewTaskFailurePrivacyFilter'') filters then filters
      else filters @ [''CrewTaskFailurePrivacyFilter''])"

lemma install_filter_idempotent: "install_filter (install_filter fs) = install_filter fs"
  by (simp add: install_filter_def list_ex_iff)

text \<open>A failure record of one of the program's tasks.\<close>

definition is_task_name :: "json option \<Rightarrow> bool" where
  "is_task_name v \<longleftrightarrow> (case v of Some (J_str s) \<Rightarrow> List.member task_names s | _ \<Rightarrow> False)"

definition crew_failure :: "log_record \<Rightarrow> bool" where
  "crew_failure r \<longleftrightarrow>
     (case data_dict r of
        None \<Rightarrow> False
      | Some kvs \<Rightarrow> is_task_name (map_of kvs ''name'') \<and> map_of kvs ''exc'' \<noteq> None)"

definition data_item :: "log_record \<Rightarrow> string \<Rightarrow> json" where
  "data_item r k = (case data_dict r of None \<Rightarrow> J_null | Some kvs \<Rightarrow> get_or_null kvs k)"

lemma in_strings_null: "in_strings v names = in_strings (Some (case v of None \<Rightarrow> J_null | Some w \<Rightarrow> w)) names"
  by (cases v) (simp_all add: in_strings_def)

lemma in_strings_task_name: "is_task_name v \<Longrightarrow> in_strings v task_names = Inr True"
  unfolding is_task_name_def in_strings_def by (cases v; cases "the v") simp_all

lemma in_strings_other: "\<not> is_task_name v \<Longrightarrow> in_strings v task_names \<in> {Inr False, Inl Type_error}"
  unfolding is_task_name_def in_strings_def by (cases v; cases "the v") simp_all

lemma filter_crew_failure:
  assumes "crew_failure r"
  shows "filter_record r =
    bindR (in_strings (Some (data_item r ''description'')) [ucs ''ignored'', ucs ''rejected'']) (\<lambda>not_run.
      Inr (redacted r (safe_data (data_item r ''name'') (data_item r ''id'')
         (if not_run then data_item r ''description'' else J_str (ucs ''failed'')) (error_type_of r))))"
proof -
  from assms obtain kvs where kvs: "data_dict r = Some kvs" "is_task_name (map_of kvs ''name'')" "map_of kvs ''exc'' \<noteq> None"
    by (auto simp: crew_failure_def split: option.splits)
  have items: "data_item r = get_or_null kvs" by (rule ext) (simp add: data_item_def kvs(1))
  have d: "in_strings (map_of kvs ''description'') [ucs ''ignored'', ucs ''rejected'']
      = in_strings (Some (get_or_null kvs ''description'')) [ucs ''ignored'', ucs ''rejected'']"
    by (subst in_strings_null) (simp only: get_or_null_def)
  have go: "\<not> (\<not> True \<or> map_of kvs ''exc'' = None)" using kvs(3) by blast
  show ?thesis
    unfolding filter_record_def kvs(1) option.simps in_strings_task_name [OF kvs(2)] bindR.simps if_not_P [OF go] d items ..
qed

lemma filter_other: "\<not> crew_failure r \<Longrightarrow> filter_record r = Inr r \<or> filter_record r = Inl Type_error"
proof (cases "data_dict r")
  case (Some kvs)
  assume no: "\<not> crew_failure r"
  show ?thesis
  proof (cases "is_task_name (map_of kvs ''name'')")
    case True
    with no Some have stop: "\<not> True \<or> map_of kvs ''exc'' = None" by (simp only: crew_failure_def option.simps) blast
    show ?thesis
      unfolding filter_record_def Some option.simps in_strings_task_name [OF True] bindR.simps if_P [OF stop] by (rule disjI1) (rule refl)
  next
    case False
    have stop: "\<not> False \<or> map_of kvs ''exc'' = None" by simp
    from in_strings_other [OF False] show ?thesis
    proof (elim insertE emptyE)
      assume eq: "in_strings (map_of kvs ''name'') task_names = Inr False"
      show ?thesis unfolding filter_record_def Some option.simps eq bindR.simps if_P [OF stop] by (rule disjI1) (rule refl)
    next
      assume eq: "in_strings (map_of kvs ''name'') task_names = Inl Type_error"
      show ?thesis unfolding filter_record_def Some option.simps eq bindR.simps by (rule disjI2) (rule refl)
    qed
  qed
qed (simp add: filter_record_def)

text \<open>
  C38. Failure records are redacted. Two failure records of the program's tasks that agree on the task,
  its identifier, its disposition and the class of the exception leave the filter as the same record:
  nothing of the message, the arguments, the exception's text, the traceback, the stack or any other
  item Celery attaches can reach a log.
\<close>

theorem failure_records_redacted:
  assumes "crew_failure r" and "crew_failure r'"
    and "lr_logger r = lr_logger r'" and "lr_level r = lr_level r'" and "error_type_of r = error_type_of r'"
    and "\<forall>k \<in> {''name'', ''id'', ''description''}. data_item r k = data_item r' k"
  shows "filter_record r = filter_record r'"
proof -
  have "redacted r safe = redacted r' safe" for safe
    using assms(3,4) by (cases r; cases r') (simp add: redacted_def)
  moreover have "data_item r ''name'' = data_item r' ''name''" "data_item r ''id'' = data_item r' ''id''"
      "data_item r ''description'' = data_item r' ''description''"
    using assms(6) by blast+
  ultimately show ?thesis
    using assms(5) by (simp add: filter_crew_failure [OF assms(1)] filter_crew_failure [OF assms(2)] cong: if_cong)
qed

section \<open>Metrics\<close>

text \<open>
  The registry keeps, per label pair, a counter and a histogram; the Prometheus library is read as the
  multiset of observations it received, counted and summed.
\<close>

record metric_series =
  ms_count :: nat
  ms_buckets :: "nat list"
  ms_sum :: rat

definition bucket_bounds :: "rat list" where
  "bucket_bounds = [1/100, 5/100, 1/10, 1/2, 1, 5/2, 5, 10, 30, 60, 120, 300]"

definition empty_series :: metric_series where
  "empty_series = \<lparr>ms_count = 0, ms_buckets = map (\<lambda>_. 0) bucket_bounds, ms_sum = 0\<rparr>"

type_synonym metrics = "string \<times> string \<Rightarrow> metric_series"

definition observe_series :: "rat \<Rightarrow> metric_series \<Rightarrow> metric_series" where
  "observe_series d m = \<lparr>ms_count = ms_count m + 1,
     ms_buckets = map (\<lambda>(b, n). if d \<le> b then n + 1 else n) (zip bucket_bounds (ms_buckets m)),
     ms_sum = ms_sum m + d\<rparr>"

text \<open>\<open>PrometheusAgentMetrics.observe\<close>\<close>

definition budget_outcomes :: "string list" where
  "budget_outcomes = [''decision_limit'', ''deadline'', ''cancelled'', ''budget'']"

definition observe :: "string \<Rightarrow> string \<Rightarrow> pynum \<Rightarrow> (metrics, exn, unit) proc" where
  "observe operation outcome duration =
     thenP (requireP (operation \<in> {''run'', ''model'', ''tool''}) Value_error)
    (thenP (requireP (outcome \<in> {''success'', ''error'', ''decision_limit'', ''deadline'', ''cancelled'', ''budget''}) Value_error)
    (thenP (requireP (\<not> (List.member budget_outcomes outcome \<and> operation \<noteq> ''run'')) Value_error)
    (thenP (requireP (duration \<noteq> PyOther) Type_error)
    (thenP (requireP (is_finite_num duration \<and> 0 \<le> num_value duration) Value_error)
       (modifyP (\<lambda>m. m((operation, outcome) := observe_series (num_value duration) (m (operation, outcome)))))))))"

text \<open>What a registry can hold: budget outcomes of runs only, and cumulative buckets within the count.\<close>

definition series_ok :: "metric_series \<Rightarrow> bool" where
  "series_ok m \<longleftrightarrow> length (ms_buckets m) = length bucket_bounds \<and> sorted (ms_buckets m) \<and>
     (\<forall>n \<in> set (ms_buckets m). n \<le> ms_count m) \<and> 0 \<le> ms_sum m"

definition metrics_inv :: "metrics \<Rightarrow> bool" where
  "metrics_inv m \<longleftrightarrow> (\<forall>op out. series_ok (m (op, out)) \<and> (List.member budget_outcomes out \<longrightarrow> op \<noteq> ''run'' \<longrightarrow> ms_count (m (op, out)) = 0))"

lemma bucket_bounds_sorted: "sorted bucket_bounds"
  by (simp add: bucket_bounds_def)

lemma observe_series_ok: "series_ok m \<Longrightarrow> 0 \<le> d \<Longrightarrow> series_ok (observe_series d m)"
proof -
  assume m: "series_ok m" and d: "0 \<le> d"
  let ?zs = "zip bucket_bounds (ms_buckets m)"
  have "(if d \<le> bucket_bounds ! i then ms_buckets m ! i + 1 else ms_buckets m ! i)
      \<le> (if d \<le> bucket_bounds ! j then ms_buckets m ! j + 1 else ms_buckets m ! j)"
    if ij: "i \<le> j" "j < length bucket_bounds" for i j
  proof -
    have "ms_buckets m ! i \<le> ms_buckets m ! j" using m ij by (auto simp: series_ok_def sorted_iff_nth_mono)
    moreover have "bucket_bounds ! i \<le> bucket_bounds ! j" using bucket_bounds_sorted ij by (simp add: sorted_iff_nth_mono)
    ultimately show ?thesis by simp
  qed
  moreover have "length (ms_buckets m) = length bucket_bounds" using m by (simp add: series_ok_def)
  ultimately have "sorted (ms_buckets (observe_series d m))"
    by (auto simp: observe_series_def sorted_iff_nth_mono)
  moreover have "\<forall>n \<in> set (ms_buckets (observe_series d m)). n \<le> ms_count m + 1"
    using m by (auto simp: observe_series_def series_ok_def dest!: set_zip_rightD intro: le_SucI)
  ultimately show ?thesis using m d by (simp add: series_ok_def observe_series_def)
qed

lemma then_require: "thenP (requireP b e) k s = (if b then k s else (Inl e, s))"
  by (simp add: thenP_def bindP_def requireP_def returnP_def raiseP_def)

lemma observe_cases:
  "snd (observe op out d m) = m \<or>
   snd (observe op out d m) = m((op, out) := observe_series (num_value d) (m (op, out))) \<and>
     0 \<le> num_value d \<and> \<not> (List.member budget_outcomes out \<and> op \<noteq> ''run'')"
  unfolding observe_def then_require modifyP_def if_distrib [where f = snd] snd_conv
  by (simp only: split: if_split) blast

lemma observe_inv: "metrics_inv m \<Longrightarrow> metrics_inv (snd (observe op out d m))"
proof (cases "snd (observe op out d m) = m")
  case False
  assume m: "metrics_inv m"
  from observe_cases [of op out d m] False
  have new: "snd (observe op out d m) = m((op, out) := observe_series (num_value d) (m (op, out)))"
    and d: "0 \<le> num_value d" and ok: "\<not> (List.member budget_outcomes out \<and> op \<noteq> ''run'')" by blast+
  have "series_ok (observe_series (num_value d) (m (op, out)))"
    using m d by (intro observe_series_ok) (simp_all add: metrics_inv_def)
  with m ok show ?thesis unfolding new metrics_inv_def by auto
qed simp

lemma metrics_start: "metrics_inv (\<lambda>_. empty_series)"
  by (simp add: metrics_inv_def series_ok_def empty_series_def bucket_bounds_def)

text \<open>
  \<open>measure\<close> of the agent loop, over the injected metrics: whatever they raise becomes a warning in the
  log, with the operation and the class of the exception.
\<close>

record 'm measured =
  mz_metrics :: 'm
  mz_warnings :: "(string \<times> string) list"

definition measure_operation ::
  "(string \<Rightarrow> string \<Rightarrow> pynum \<Rightarrow> ('m, exn, unit) proc) option \<Rightarrow> string \<Rightarrow> string \<Rightarrow> rat \<Rightarrow> rat \<Rightarrow>
   ('m measured, exn, unit) proc" where
  "measure_operation metrics operation outcome since now s =
     (case metrics of
        None \<Rightarrow> (Inr (), s)
      | Some obs \<Rightarrow>
          (case obs operation outcome (PyFloat (max 0 (now - since))) (mz_metrics s) of
             (Inr _, m) \<Rightarrow> (Inr (), s\<lparr>mz_metrics := m\<rparr>)
           | (Inl e, m) \<Rightarrow> (Inr (), s\<lparr>mz_metrics := m, mz_warnings := mz_warnings s @ [(operation, exn_name e)]\<rparr>)))"

text \<open>Measuring never disturbs a run, and each of the loop's operations adds one observation.\<close>

lemma measure_never_raises: "fst (measure_operation metrics operation outcome since now s) = Inr ()"
  by (simp add: measure_operation_def split: option.split prod.split sum.split)

lemma measure_observes:
  assumes "(operation, outcome) \<in> {''model'', ''tool''} \<times> {''success'', ''error''} \<or>
    operation = ''run'' \<and> outcome \<in> {''success'', ''error'', ''decision_limit'', ''deadline'', ''cancelled'', ''budget''}"
  shows "measure_operation (Some observe) operation outcome since now s =
    (Inr (), s\<lparr>mz_metrics := (mz_metrics s)((operation, outcome) :=
       observe_series (max 0 (now - since)) (mz_metrics s (operation, outcome)))\<rparr>)"
  using assms
  by (auto simp: measure_operation_def observe_def then_require modifyP_def budget_outcomes_def is_finite_num_def)

subsection \<open>The snapshot file\<close>

text \<open>
  \<open>write_metrics_snapshot\<close>: a temporary file in the directory of the destination is written and moved
  over it. Files are a map from paths to contents; a fault is a system call that raises.
\<close>

datatype snapshot_fault = No_fault | Create_fails | Write_fails | Replace_fails

definition write_metrics_snapshot ::
  "snapshot_fault \<Rightarrow> string \<Rightarrow> string \<Rightarrow> 'b list \<Rightarrow> (string \<Rightarrow> 'b list option, exn, unit) proc" where
  "write_metrics_snapshot fault temporary destination data =
     (if fault = Create_fails then raiseP (Other_error ''OSError'')
      else finallyP
        (thenP (modifyP (\<lambda>fs. fs(temporary \<mapsto> [])))
        (thenP (requireP (fault \<noteq> Write_fails) (Other_error ''OSError''))
        (thenP (modifyP (\<lambda>fs. fs(temporary \<mapsto> data)))
        (thenP (requireP (fault \<noteq> Replace_fails) (Other_error ''OSError''))
               (modifyP (\<lambda>fs. fs(destination := fs temporary, temporary := None)))))))
        (\<lambda>fs. fs(temporary := None)))"

text \<open>The destination changes at once or not at all, and nothing else is left behind.\<close>

lemma snapshot_is_atomic:
  assumes "fs temporary = None" and "temporary \<noteq> destination"
  shows "write_metrics_snapshot fault temporary destination data fs =
    (if fault = No_fault then (Inr (), fs(destination \<mapsto> data)) else (Inl (Other_error ''OSError''), fs))"
  using assms
  by (cases fault) (auto simp: write_metrics_snapshot_def finallyP_def thenP_def bindP_def modifyP_def requireP_def
      returnP_def raiseP_def fun_eq_iff)

section \<open>Requests\<close>

text \<open>
  The request's state and the access log around an application with its own state. The middlewares of
  \<open>main.py\<close> nest: the last one added is the outermost, so the log entry is written around the one that
  assigns the identifier.
\<close>

record access_entry =
  ae_request_id :: "string option"
  ae_tenant_id :: "string option"
  ae_path :: ustr
  ae_method :: string
  ae_status :: nat
  ae_duration :: rat

record 's http_world =
  hw_request_id :: "string option"
  hw_log :: "access_entry list"
  hw_app :: 's

record http_request =
  hq_path :: ustr
  hq_method :: string
  hq_tenant :: "string option"

record http_response =
  hp_status :: nat
  hp_headers :: "(string \<times> string) list"

definition request_id_dispatch ::
  "string \<Rightarrow> ('s http_world, exn, http_response) proc \<Rightarrow> ('s http_world, exn, http_response) proc" where
  "request_id_dispatch fresh call_next =
     thenP (modifyP (hw_request_id_update (\<lambda>_. Some fresh)))
    (bindP call_next (\<lambda>response.
       returnP (response\<lparr>hp_headers := AList.update ''X-Request-ID'' fresh (hp_headers response)\<rparr>)))"

definition logging_dispatch ::
  "http_request \<Rightarrow> rat \<Rightarrow> ('s http_world, exn, http_response) proc \<Rightarrow> ('s http_world, exn, http_response) proc" where
  "logging_dispatch request elapsed call_next =
     bindP call_next (\<lambda>response.
     bindP (getP hw_request_id) (\<lambda>rid.
     thenP (modifyP (hw_log_update (\<lambda>l. l @ [\<lparr>ae_request_id = rid, ae_tenant_id = hq_tenant request,
         ae_path = hq_path request, ae_method = hq_method request, ae_status = hp_status response,
         ae_duration = elapsed\<rparr>])))
       (returnP response)))"

definition platform_dispatch ::
  "string \<Rightarrow> http_request \<Rightarrow> rat \<Rightarrow> ('s http_world, exn, http_response) proc \<Rightarrow> ('s http_world, exn, http_response) proc" where
  "platform_dispatch fresh request elapsed app = logging_dispatch request elapsed (request_id_dispatch fresh app)"

text \<open>Every answered request leaves one entry, under the identifier the client is told.\<close>

lemma platform_log_entry:
  assumes app: "\<And>v. hw_request_id (snd (app v)) = hw_request_id v \<and> hw_log (snd (app v)) = hw_log v"
    and run: "platform_dispatch fresh request elapsed app w = (Inr response, w')"
  shows "map_of (hp_headers response) ''X-Request-ID'' = Some fresh \<and>
    (\<exists>entry. hw_log w' = hw_log w @ [entry] \<and> ae_request_id entry = Some fresh \<and>
       ae_status entry = hp_status response \<and> ae_path entry = hq_path request)"
proof -
  let ?v = "w\<lparr>hw_request_id := Some fresh\<rparr>"
  obtain r v where r: "app ?v = (r, v)" by fastforce
  from app [of ?v] r have "hw_request_id v = Some fresh" "hw_log v = hw_log w" by simp_all
  then show ?thesis using run r
    by (cases r) (auto simp: platform_dispatch_def logging_dispatch_def request_id_dispatch_def bindP_def thenP_def
        modifyP_def getP_def returnP_def update_conv)
qed

lemma platform_failure_unlogged:
  assumes app: "\<And>v. hw_log (snd (app v)) = hw_log v"
    and run: "platform_dispatch fresh request elapsed app w = (Inl e, w')"
  shows "hw_log w' = hw_log w"
  using run app [of "w\<lparr>hw_request_id := Some fresh\<rparr>"]
  by (auto simp: platform_dispatch_def logging_dispatch_def request_id_dispatch_def bindP_def thenP_def
      modifyP_def getP_def returnP_def split: prod.splits sum.splits)

section \<open>Structured log lines\<close>

text \<open>\<open>JSONFormatter.format\<close>: the standard fields, a structured message merged over them, the exception last.\<close>

definition format_record ::
  "json \<Rightarrow> string \<Rightarrow> json \<Rightarrow> string \<Rightarrow> string \<Rightarrow> string \<Rightarrow> arguments option \<Rightarrow> json option \<Rightarrow> arguments" where
  "format_record now level msg modname func logger structured exc =
     (let base = [(''timestamp'', now), (''level'', J_str (ucs level)), (''message'', msg),
                  (''module'', J_str (ucs modname)), (''funcName'', J_str (ucs func)), (''logger'', J_str (ucs logger))];
          merged = (case structured of None \<Rightarrow> base | Some kvs \<Rightarrow> fold (\<lambda>(k, v). AList.update k v) kvs base)
      in case exc of None \<Rightarrow> merged | Some t \<Rightarrow> AList.update ''exception'' t merged)"

lemma fold_update_lookup:
  "distinct (map fst kvs) \<Longrightarrow> map_of (fold (\<lambda>(k, v). AList.update k v) kvs base) k =
     (case map_of kvs k of None \<Rightarrow> map_of base k | Some v \<Rightarrow> Some v)"
proof (induction kvs arbitrary: base)
  case (Cons x kvs)
  obtain n v where x: "x = (n, v)" by fastforce
  have new: "map_of kvs n = None" using Cons.prems by (simp add: x map_of_eq_None_iff)
  have "map_of (fold (\<lambda>(k, v). AList.update k v) (x # kvs) base) k =
      (case map_of kvs k of None \<Rightarrow> map_of (AList.update n v base) k | Some v \<Rightarrow> Some v)"
    using Cons by (simp add: x)
  then show ?case using new by (cases "k = n") (simp_all add: x update_conv split: option.split)
qed simp

lemma format_record_keeps:
  assumes "distinct (map fst kvs)" and "map_of kvs k = Some v" and "k \<noteq> ''exception'' \<or> exc = None"
  shows "map_of (format_record now level msg modname func logger (Some kvs) exc) k = Some v"
  using assms fold_update_lookup [OF assms(1)]
  by (cases exc) (simp_all only: format_record_def Let_def option.simps update_conv fun_upd_apply, auto)

text \<open>\<open>get_logger\<close>: a logger is configured once; \<open>lg_handlers\<close> counts its handlers.\<close>

record logger_state =
  lg_level :: string
  lg_handlers :: nat
  lg_propagate :: bool

definition get_logger :: "string \<Rightarrow> string \<Rightarrow> (string \<Rightarrow> logger_state) \<Rightarrow> (string \<Rightarrow> logger_state)" where
  "get_logger level name loggers =
     (if 0 < lg_handlers (loggers name) then loggers
      else loggers(name := \<lparr>lg_level = level, lg_handlers = lg_handlers (loggers name) + 1, lg_propagate = False\<rparr>))"

lemma get_logger_once:
  "0 < lg_handlers (get_logger level name ls name)"
  "get_logger level' name (get_logger level name ls) = get_logger level name ls"
  "lg_handlers (ls name) = 0 \<Longrightarrow> lg_handlers (get_logger level name ls name) = 1"
  by (auto simp: get_logger_def)

end
