(* ===== verification/Audit_Trail.thy ===== *)
theory Audit_Trail
  imports Ingestion Tools Observability
begin

text \<open>
  The records the protected operations write about themselves: the decisions of
  \<open>services/policy_executor.py\<close>, the lifecycle of \<open>ingestion/document_ingestion_facade.py\<close>, the
  registrations of \<open>document_submission_facade.py\<close> and the searches of \<open>retrieval/retrieval_facade.py\<close>.
  Each operation is given with its records here; it is shown to be the operation the other theories
  reason about, together with a trail that depends on its outcome only.
\<close>

section \<open>The state of a logging process\<close>

text \<open>
  A record by its event and fields; durations are in milliseconds, before the rounding to three digits.
\<close>

datatype audit_record =
    Policy_evaluation_failed string string "tool_log option" string
  | Policy_evaluated string string "tool_log option" policy_decision
  | Lifecycle_started string string string
  | Lifecycle_failed string string string string rat
  | Lifecycle_succeeded string string string string "nat option" "nat option" rat
  | Submission_registered string string job_operation bool job_state
  | Retrieval_started string
  | Retrieval_failed string string rat
  | Retrieval_succeeded string string nat rat

definition audit_level :: "audit_record \<Rightarrow> string" where
  "audit_level r =
     (case r of
        Policy_evaluation_failed _ _ _ _ \<Rightarrow> ''ERROR''
      | Policy_evaluated _ _ _ d \<Rightarrow> if effect d = Allow then ''INFO'' else ''WARNING''
      | Lifecycle_failed _ _ _ _ _ \<Rightarrow> ''ERROR''
      | Retrieval_failed _ _ _ \<Rightarrow> ''ERROR''
      | _ \<Rightarrow> ''INFO'')"

text \<open>The state of the operation, the log, \<open>get_tool_log_context()\<close>, and the readings of clock and \<open>uuid4\<close>.\<close>

record 's audited =
  au_state :: 's
  au_log :: "audit_record list"
  au_correlation :: "tool_log option"
  au_clock :: "nat \<Rightarrow> rat"
  au_fresh :: "nat \<Rightarrow> string"
  au_reads :: nat

definition write_audit :: "audit_record \<Rightarrow> ('s audited, 'e, unit) proc" where
  "write_audit r = modifyP (\<lambda>s. s\<lparr>au_log := au_log s @ [r]\<rparr>)"

definition read_clock :: "('s audited, 'e, rat) proc" where
  "read_clock s = (Inr (au_clock s (au_reads s)), s\<lparr>au_reads := au_reads s + 1\<rparr>)"

definition read_fresh :: "('s audited, 'e, string) proc" where
  "read_fresh s = (Inr (au_fresh s (au_reads s)), s\<lparr>au_reads := au_reads s + 1\<rparr>)"

text \<open>A call that writes no record.\<close>

definition unlogged :: "('s, 'e, 'a) proc \<Rightarrow> ('s audited, 'e, 'a) proc" where
  "unlogged m s = (case m (au_state s) of (r, st) \<Rightarrow> (r, s\<lparr>au_state := st\<rparr>))"

section \<open>The operations with their records\<close>

text \<open>\<open>PolicyEnforcedExecutor.execute\<close>\<close>

definition audited_execute ::
  "(tool_context \<Rightarrow> string \<Rightarrow> exn + policy_decision) \<Rightarrow> tool_context \<Rightarrow> string \<Rightarrow> ('s audited, exn, 'a) proc \<Rightarrow>
   ('s audited, exn, 'a) proc" where
  "audited_execute evaluate ctx action operation =
     bindP (getP au_correlation) (\<lambda>correlation.
     case evaluate ctx action of
       Inl e \<Rightarrow> thenP (write_audit (Policy_evaluation_failed (tenant_id ctx) action correlation (exn_name e)))
                  (raiseP Policy_evaluation_error)
     | Inr decision \<Rightarrow>
         thenP (write_audit (Policy_evaluated (tenant_id ctx) action correlation decision))
           (if effect decision \<noteq> Allow then raiseP Policy_denied_error else operation))"

abbreviation audited_call :: "tool_context \<Rightarrow> string \<Rightarrow> ('s audited, exn, 'a) proc \<Rightarrow> ('s audited, exn, 'a) proc" where
  "audited_call \<equiv> audited_execute permission_evaluate"

text \<open>\<open>_record_lifecycle\<close>; \<open>summary\<close> is the identifier, version and chunk count of what was saved.\<close>

definition stored_summary :: "stored_version \<Rightarrow> string \<times> nat option \<times> nat option" where
  "stored_summary v = (sv_document_id v, Some (sv_version v), Some (length (cs_chunks (sv_chunking v))))"

definition deleted_summary :: "string \<Rightarrow> string \<times> nat option \<times> nat option" where
  "deleted_summary d = (d, None, None)"

definition succeeded_record :: "string \<Rightarrow> string \<Rightarrow> string \<Rightarrow> string \<times> nat option \<times> nat option \<Rightarrow> rat \<Rightarrow> audit_record" where
  "succeeded_record prefix t operation_id summary ms =
     (case summary of (d, version, chunks) \<Rightarrow> Lifecycle_succeeded prefix t operation_id d version chunks ms)"

definition record_lifecycle ::
  "string \<Rightarrow> string \<Rightarrow> ('a \<Rightarrow> string \<times> nat option \<times> nat option) \<Rightarrow> ('s audited, exn, 'a) proc \<Rightarrow>
   ('s audited, exn, 'a) proc" where
  "record_lifecycle t prefix summary operation =
     bindP read_fresh (\<lambda>operation_id.
     bindP read_clock (\<lambda>started.
     thenP (write_audit (Lifecycle_started prefix t operation_id))
     (bindP (tryP operation (\<lambda>e.
        bindP read_clock (\<lambda>now.
        thenP (write_audit (Lifecycle_failed prefix t operation_id (exn_name e) ((now - started) * 1000)))
        (raiseP e)))) (\<lambda>saved.
      bindP read_clock (\<lambda>now.
      thenP (write_audit (succeeded_record prefix t operation_id (summary saved) ((now - started) * 1000)))
      (returnP saved))))))"

text \<open>\<open>DocumentIngestionFacade\<close>\<close>

definition audited_ingest ::
  "pipeline \<Rightarrow> 's document_store \<Rightarrow> ingestion_request \<Rightarrow> tool_context \<Rightarrow> string \<Rightarrow> rat \<Rightarrow>
   ('s audited, exn, stored_version) proc" where
  "audited_ingest pl st request ctx new_document created =
     audited_call ctx ''document.create''
       (record_lifecycle (tenant_id ctx) ''document_ingestion'' stored_summary
         (unlogged (coordinator_process pl st request (tenant_id ctx) new_document created)))"

definition audited_update ::
  "pipeline \<Rightarrow> 's document_store \<Rightarrow> update_request \<Rightarrow> tool_context \<Rightarrow> rat \<Rightarrow>
   ('s audited, exn, stored_version) proc" where
  "audited_update pl st request ctx created =
     audited_call ctx ''document.update''
       (record_lifecycle (tenant_id ctx) ''document_update'' stored_summary
         (unlogged (coordinator_update pl st request (tenant_id ctx) created)))"

definition audited_read ::
  "'s document_store \<Rightarrow> read_request \<Rightarrow> tool_context \<Rightarrow> ('s audited, exn, stored_version) proc" where
  "audited_read st request ctx =
     audited_call ctx ''document.read''
       (record_lifecycle (tenant_id ctx) ''document_read'' stored_summary
         (unlogged (coordinator_read st request (tenant_id ctx))))"

definition audited_delete ::
  "'s document_store \<Rightarrow> string \<Rightarrow> tool_context \<Rightarrow> ('s audited, exn, string) proc" where
  "audited_delete st document_id ctx =
     audited_call ctx ''document.delete''
       (record_lifecycle (tenant_id ctx) ''document_delete'' deleted_summary
         (unlogged (coordinator_delete st document_id (tenant_id ctx))))"

text \<open>\<open>DocumentSubmissionFacade\<close>\<close>

definition audited_submit ::
  "'s job_store \<Rightarrow> chunking_options \<Rightarrow> doc_request \<Rightarrow> job_operation \<Rightarrow> tool_context \<Rightarrow> string \<Rightarrow>
   ('s audited, exn, doc_submission) proc" where
  "audited_submit st options request op ctx key =
     audited_call ctx (''document.'' @ action_name op)
       (bindP (unlogged (js_submit st (tenant_id ctx) request op options key)) (\<lambda>submission.
        thenP (write_audit (Submission_registered (dj_id (ds_job submission)) (tenant_id ctx) op
                 (ds_replayed submission) (dj_state (ds_job submission))))
        (returnP submission)))"

definition audited_status :: "'s job_store \<Rightarrow> string \<Rightarrow> tool_context \<Rightarrow> ('s audited, exn, doc_job) proc" where
  "audited_status st jid ctx = audited_call ctx ''document.job.read'' (unlogged (js_get st jid (tenant_id ctx)))"

definition audited_retry :: "'s job_store \<Rightarrow> string \<Rightarrow> tool_context \<Rightarrow> ('s audited, exn, doc_job) proc" where
  "audited_retry st jid ctx =
     audited_call ctx ''document.job.retry''
       (bindP (unlogged (js_get st jid (tenant_id ctx))) (\<lambda>job.
        audited_call ctx (''document.'' @ action_name (dj_operation job))
          (unlogged (js_retry st jid (tenant_id ctx)))))"

text \<open>\<open>RetrievalFacade\<close>\<close>

definition audited_search_inner ::
  "'s retriever \<Rightarrow> retrieval_request \<Rightarrow> string \<Rightarrow> ('s audited, exn, retrieval_result) proc" where
  "audited_search_inner retriever request t =
     bindP read_clock (\<lambda>started.
     thenP (write_audit (Retrieval_started t))
     (bindP (tryP (unlogged (facade_search_inner retriever request t)) (\<lambda>e.
        bindP read_clock (\<lambda>now.
        thenP (write_audit (Retrieval_failed t (exn_name e) ((now - started) * 1000)))
        (raiseP e)))) (\<lambda>result.
      bindP read_clock (\<lambda>now.
      thenP (write_audit (Retrieval_succeeded t (rs_strategy result) (length (rs_passages result))
               ((now - started) * 1000)))
      (returnP result)))))"

definition audited_search ::
  "'s retriever \<Rightarrow> retrieval_request \<Rightarrow> tool_context \<Rightarrow> ('s audited, exn, retrieval_result) proc" where
  "audited_search retriever request ctx =
     audited_call ctx ''document.search''
       (audited_call ctx ''document.read'' (audited_search_inner retriever request (tenant_id ctx)))"

section \<open>Trails\<close>

text \<open>
  \<open>audits m' m trail\<close>: the logging operation \<open>m'\<close> does to the state what \<open>m\<close> does and returns or raises
  the same, and the records it appends are a \<open>trail\<close> of its outcome.
\<close>

type_synonym 'a trail = "tool_log option \<Rightarrow> exn + 'a \<Rightarrow> audit_record list \<Rightarrow> bool"

definition audits :: "('s audited, exn, 'a) proc \<Rightarrow> ('s, exn, 'a) proc \<Rightarrow> 'a trail \<Rightarrow> bool" where
  "audits m' m trail \<longleftrightarrow>
     (\<forall>s. case m' s of (r, s') \<Rightarrow>
        m (au_state s) = (r, au_state s') \<and> au_correlation s' = au_correlation s \<and>
        (\<exists>rs. au_log s' = au_log s @ rs \<and> trail (au_correlation s) r rs))"

text \<open>The trail of a gate: one decision, and what follows only if it allows.\<close>

definition gate_trail ::
  "(tool_context \<Rightarrow> string \<Rightarrow> exn + policy_decision) \<Rightarrow> tool_context \<Rightarrow> string \<Rightarrow> 'a trail \<Rightarrow> 'a trail" where
  "gate_trail evaluate ctx action trail c r rs \<longleftrightarrow>
     (case evaluate ctx action of
        Inl e \<Rightarrow> rs = [Policy_evaluation_failed (tenant_id ctx) action c (exn_name e)]
      | Inr d \<Rightarrow>
          if effect d \<noteq> Allow then rs = [Policy_evaluated (tenant_id ctx) action c d]
          else (\<exists>rest. rs = Policy_evaluated (tenant_id ctx) action c d # rest \<and> trail c r rest))"

abbreviation permission_trail :: "tool_context \<Rightarrow> string \<Rightarrow> 'a trail \<Rightarrow> 'a trail" where
  "permission_trail \<equiv> gate_trail permission_evaluate"

definition lifecycle_trail :: "string \<Rightarrow> string \<Rightarrow> ('a \<Rightarrow> string \<times> nat option \<times> nat option) \<Rightarrow> 'a trail" where
  "lifecycle_trail t prefix summary c r rs \<longleftrightarrow>
     (\<exists>operation_id ms. rs = [Lifecycle_started prefix t operation_id,
        (case r of Inl e \<Rightarrow> Lifecycle_failed prefix t operation_id (exn_name e) ms
                 | Inr v \<Rightarrow> succeeded_record prefix t operation_id (summary v) ms)])"

definition silent_trail :: "'a trail" where
  "silent_trail c r rs \<longleftrightarrow> rs = []"

definition submission_trail :: "string \<Rightarrow> job_operation \<Rightarrow> doc_submission trail" where
  "submission_trail t op c r rs \<longleftrightarrow>
     rs = (case r of Inl _ \<Rightarrow> []
           | Inr s \<Rightarrow> [Submission_registered (dj_id (ds_job s)) t op (ds_replayed s) (dj_state (ds_job s))])"

definition search_trail :: "string \<Rightarrow> retrieval_result trail" where
  "search_trail t c r rs \<longleftrightarrow>
     (\<exists>ms. rs = [Retrieval_started t,
        (case r of Inl e \<Rightarrow> Retrieval_failed t (exn_name e) ms
                 | Inr result \<Rightarrow> Retrieval_succeeded t (rs_strategy result) (length (rs_passages result)) ms)])"

text \<open>A job is looked up between the two decisions of a retry.\<close>

definition retry_trail :: "tool_context \<Rightarrow> doc_job trail" where
  "retry_trail ctx c r rs \<longleftrightarrow>
     rs = [] \<and> \<not> is_ok r \<or> (\<exists>op. permission_trail ctx (''document.'' @ action_name op) silent_trail c r rs)"

named_theorems audit_defs \<open>the effects of logging\<close>

lemmas [audit_defs] = bindP_def thenP_def tryP_def getP_def modifyP_def raiseP_def returnP_def
  write_audit_def read_clock_def read_fresh_def unlogged_def

lemma audits_unlogged: "audits (unlogged m) m silent_trail"
  by (simp add: audits_def unlogged_def silent_trail_def split: prod.split)

lemma audits_execute:
  assumes "audits m' m trail"
  shows "audits (audited_execute evaluate ctx action m') (policy_execute evaluate ctx action m)
    (gate_trail evaluate ctx action trail)"
  unfolding audits_def
proof
  fix s :: "'a audited"
  show "case audited_execute evaluate ctx action m' s of (r, s') \<Rightarrow>
      policy_execute evaluate ctx action m (au_state s) = (r, au_state s') \<and> au_correlation s' = au_correlation s \<and>
      (\<exists>rs. au_log s' = au_log s @ rs \<and> gate_trail evaluate ctx action trail (au_correlation s) r rs)"
  proof (cases "evaluate ctx action")
    case (Inr d)
    show ?thesis
    proof (cases "effect d = Allow")
      case True
      with assms [unfolded audits_def, THEN spec,
          of "s\<lparr>au_log := au_log s @ [Policy_evaluated (tenant_id ctx) action (au_correlation s) d]\<rparr>"]
      show ?thesis
        by (auto simp: audited_execute_def policy_execute_def gate_trail_def Inr audit_defs split: prod.splits)
    qed (simp add: audited_execute_def policy_execute_def gate_trail_def Inr audit_defs)
  qed (simp add: audited_execute_def policy_execute_def gate_trail_def audit_defs)
qed

lemma audits_lifecycle:
  "audits (record_lifecycle t prefix summary (unlogged m)) m (lifecycle_trail t prefix summary)"
  unfolding audits_def
  by (auto simp: record_lifecycle_def lifecycle_trail_def audit_defs split: prod.splits sum.splits)

lemma audits_submission:
  "audits (bindP (unlogged m) (\<lambda>s. thenP (write_audit (Submission_registered (dj_id (ds_job s)) t op
     (ds_replayed s) (dj_state (ds_job s)))) (returnP s))) m (submission_trail t op)"
  unfolding audits_def
  by (auto simp: submission_trail_def audit_defs split: prod.splits sum.splits)

lemma audits_search:
  "audits (audited_search_inner retriever request t) (facade_search_inner retriever request t) (search_trail t)"
  unfolding audits_def
  by (auto simp: audited_search_inner_def search_trail_def audit_defs split: prod.splits sum.splits)

lemma audits_retry:
  "audits (bindP (unlogged get) (\<lambda>job. audited_call ctx (''document.'' @ action_name (dj_operation job)) (unlogged retry)))
     (bindP get (\<lambda>job. authorized ctx (''document.'' @ action_name (dj_operation job)) retry)) (retry_trail ctx)"
  unfolding audits_def
proof
  fix s :: "'a audited"
  let ?call = "\<lambda>op. audited_call ctx (''document.'' @ action_name op) (unlogged retry)"
  obtain r st where get: "get (au_state s) = (r, st)" by (cases "get (au_state s)")
  show "case bindP (unlogged get) (\<lambda>job. ?call (dj_operation job)) s of (r, s') \<Rightarrow>
      bindP get (\<lambda>job. authorized ctx (''document.'' @ action_name (dj_operation job)) retry) (au_state s) = (r, au_state s') \<and>
      au_correlation s' = au_correlation s \<and>
      (\<exists>rs. au_log s' = au_log s @ rs \<and> retry_trail ctx (au_correlation s) r rs)"
  proof (cases r)
    case (Inr job)
    have "audits (?call (dj_operation job)) (authorized ctx (''document.'' @ action_name (dj_operation job)) retry)
        (permission_trail ctx (''document.'' @ action_name (dj_operation job)) silent_trail)"
      by (intro audits_execute audits_unlogged)
    from this [unfolded audits_def, THEN spec, of "s\<lparr>au_state := st\<rparr>"] get Inr show ?thesis
      by (auto simp: retry_trail_def bindP_def unlogged_def split: prod.splits)
  qed (simp add: get retry_trail_def bindP_def unlogged_def)
qed

text \<open>A denied operation leaves one warning and nothing else.\<close>

lemma denied_trail:
  "action \<notin> permissions ctx \<Longrightarrow> permission_trail ctx action trail c r rs \<Longrightarrow> map audit_level rs = [''WARNING'']"
  by (simp add: gate_trail_def permission_evaluate_def audit_level_def)

text \<open>Two outcomes that agree on exception class, identifier, version and chunk count leave the same trails.\<close>

lemma lifecycle_trail_of_outcome:
  "exn_name e = exn_name e' \<Longrightarrow> lifecycle_trail t prefix summary c (Inl e) = lifecycle_trail t prefix summary' c (Inl e')"
  "summary v = summary' v' \<Longrightarrow> lifecycle_trail t prefix summary c (Inr v) = lifecycle_trail t prefix summary' c (Inr v')"
  by (auto simp: lifecycle_trail_def fun_eq_iff)


end
