(* ===== verification/Decision_Schema.thy ===== *)
theory Decision_Schema
  imports Decisions "HOL-Library.AList"
begin

text \<open>
  The response schema of document mode (\<open>third_party/llm/document_decision_schema.py\<close>): the decision
  schema of the contract with the shape of each registered tool's arguments put in place of the open
  tool call. Every tool brings its own \<open>$defs\<close>; they are renamed apart and the references into
  them are relocated. The theorems say that the result has no dangling reference and that each tool's
  arguments keep the meaning they have in the tool's own schema.

  A dictionary is an association list in insertion order; \<open>AList.update\<close> is item assignment.
\<close>

section \<open>Dictionaries and references\<close>

text \<open>\<open>ToolSchema\<close> of \<open>dtos/decision_request.py\<close>.\<close>

record tool_schema =
  ts_name :: ustr
  ts_description :: ustr
  ts_parameters :: arguments

text \<open>Item assignment and iteration on a JSON value, with the errors Python raises on other types.\<close>

fun set_item :: "json \<Rightarrow> string \<Rightarrow> json \<Rightarrow> exn + json" where
  "set_item (J_object kvs) k v = Inr (J_object (AList.update k v kvs))"
| "set_item _ k v = Inl Type_error"

fun get_item :: "json \<Rightarrow> string \<Rightarrow> exn + json" where
  "get_item (J_object kvs) k = (case map_of kvs k of None \<Rightarrow> Inl (Other_error ''KeyError'') | Some v \<Rightarrow> Inr v)"
| "get_item _ k = Inl Type_error"

fun iterate :: "json \<Rightarrow> exn + json list" where
  "iterate (J_list xs) = Inr xs"
| "iterate (J_object kvs) = Inr (map (\<lambda>kv. J_str (ucs (fst kv))) kvs)"
| "iterate (J_str s) = Inr (map (\<lambda>c. J_str [c]) s)"
| "iterate _ = Inl Type_error"

text \<open>\<open>item.startswith("#/$defs/")\<close> under the key \<open>$ref\<close>, and the name behind it.\<close>

definition is_local_ref :: "string \<Rightarrow> json \<Rightarrow> bool" where
  "is_local_ref k v \<longleftrightarrow> k = ''$ref'' \<and> (case v of J_str s \<Rightarrow> take 8 s = ucs ''#/$defs/'' | _ \<Rightarrow> False)"

definition ref_name :: "json \<Rightarrow> ustr" where
  "ref_name v = (case v of J_str s \<Rightarrow> drop 8 s | _ \<Rightarrow> [])"

definition make_ref :: "ustr \<Rightarrow> json" where
  "make_ref n = J_str (ucs ''#/$defs/'' @ n)"

lemma size_item: "(k, v) \<in> set kvs \<Longrightarrow> size v < Suc (size_list (size_prod (\<lambda>_. 0) size) kvs)"
  by (induction kvs) auto

text \<open>\<open>relocate\<close>: every reference \<open>#/$defs/X\<close> becomes \<open>#/$defs/<prefix>X\<close>.\<close>

function relocate :: "string \<Rightarrow> json \<Rightarrow> json" where
  "relocate p (J_object kvs) =
     J_object (map (\<lambda>(k, v). (k, if is_local_ref k v then make_ref (ucs p @ ref_name v) else relocate p v)) kvs)"
| "relocate p (J_list xs) = J_list (map (relocate p) xs)"
| "relocate p J_null = J_null"
| "relocate p (J_bool b) = J_bool b"
| "relocate p (J_int i) = J_int i"
| "relocate p (J_float r) = J_float r"
| "relocate p (J_str s) = J_str s"
  by pat_completeness auto
termination by (relation "measure (size \<circ> snd)") (auto simp: size_item less_Suc_eq_le intro: size_list_estimation')

text \<open>The names a value refers to.\<close>

function local_refs :: "json \<Rightarrow> ustr list" where
  "local_refs (J_object kvs) =
     concat (map (\<lambda>(k, v). if is_local_ref k v then [ref_name v] else local_refs v) kvs)"
| "local_refs (J_list xs) = concat (map local_refs xs)"
| "local_refs J_null = []"
| "local_refs (J_bool b) = []"
| "local_refs (J_int i) = []"
| "local_refs (J_float r) = []"
| "local_refs (J_str s) = []"
  by pat_completeness auto
termination by (relation "measure size") (auto simp: size_item less_Suc_eq_le intro: size_list_estimation')

section \<open>The schema\<close>

text \<open>\<open>f"RegisteredTool{number}_"\<close>\<close>

fun digits :: "nat \<Rightarrow> string" where
  "digits n = (if n < 10 then [char_of (48 + n)] else digits (n div 10) @ [char_of (48 + n mod 10)])"

declare digits.simps [simp del]

definition tool_prefix :: "nat \<Rightarrow> string" where
  "tool_prefix n = ''RegisteredTool'' @ digits n @ ''_''"

text \<open>\<open>arguments.pop("$defs", {})\<close>, iterated with \<open>items()\<close>.\<close>

definition nested_definitions :: "arguments \<Rightarrow> exn + arguments" where
  "nested_definitions params =
     (case map_of params ''$defs'' of
        None \<Rightarrow> Inr []
      | Some (J_object defs) \<Rightarrow> Inr defs
      | Some _ \<Rightarrow> Inl (Other_error ''AttributeError''))"

definition own_arguments :: "arguments \<Rightarrow> json" where
  "own_arguments params = J_object (AList.delete ''$defs'' params)"

fun add_definitions :: "string \<Rightarrow> arguments \<Rightarrow> json \<Rightarrow> exn + json" where
  "add_definitions p [] defs = Inr defs"
| "add_definitions p ((name, d) # rest) defs =
     bindR (set_item defs (p @ name) (relocate p d)) (add_definitions p rest)"

definition const_string :: "ustr \<Rightarrow> json" where
  "const_string s = J_object [(''const'', J_str s), (''type'', J_str (ucs ''string''))]"

definition tool_variant :: "ustr \<Rightarrow> json \<Rightarrow> json" where
  "tool_variant name args = J_object
     [(''type'', J_str (ucs ''object'')),
      (''additionalProperties'', J_bool False),
      (''properties'', J_object [(''type'', const_string (ucs ''tool_call'')), (''name'', const_string name),
                                 (''arguments'', args)]),
      (''required'', J_list (map (\<lambda>s. J_str (ucs s)) [''type'', ''name'', ''arguments'']))]"

fun add_tools :: "nat \<Rightarrow> tool_schema list \<Rightarrow> json \<Rightarrow> exn + json \<times> json list" where
  "add_tools n [] defs = Inr (defs, [])"
| "add_tools n (t # ts) defs =
     bindR (nested_definitions (ts_parameters t)) (\<lambda>nested.
     bindR (add_definitions (tool_prefix n) nested defs) (\<lambda>defs'.
     bindR (add_tools (Suc n) ts defs') (\<lambda>(defs'', variants).
       Inr (defs'', tool_variant (ts_name t) (relocate (tool_prefix n) (own_arguments (ts_parameters t))) # variants))))"

text \<open>The branch without tools: the tool call leaves the alternatives and the discriminator.\<close>

definition is_tool_call_ref :: "json \<Rightarrow> exn + bool" where
  "is_tool_call_ref item =
     (case item of
        J_object kvs \<Rightarrow> Inr (map_of kvs ''$ref'' = Some (make_ref (ucs ''ToolCallDecision'')))
      | _ \<Rightarrow> Inl (Other_error ''AttributeError''))"

fun drop_tool_calls :: "json list \<Rightarrow> exn + json list" where
  "drop_tool_calls [] = Inr []"
| "drop_tool_calls (x # xs) =
     bindR (is_tool_call_ref x) (\<lambda>b. bindR (drop_tool_calls xs) (\<lambda>ys. Inr (if b then ys else x # ys)))"

fun pop_item :: "string \<Rightarrow> json \<Rightarrow> exn + json" where
  "pop_item k (J_object kvs) = Inr (J_object (AList.delete k kvs))"
| "pop_item k (J_list xs) = Inl Type_error"
| "pop_item k _ = Inl (Other_error ''AttributeError'')"

definition without_tool_calls :: "json \<Rightarrow> exn + json" where
  "without_tool_calls ds =
     bindR (get_item ds ''oneOf'') (\<lambda>alternatives.
     bindR (iterate alternatives) (\<lambda>items.
     bindR (drop_tool_calls items) (\<lambda>kept.
     bindR (set_item ds ''oneOf'' (J_list kept)) (\<lambda>ds1.
     bindR (get_item ds1 ''discriminator'') (\<lambda>disc.
     bindR (get_item disc ''mapping'') (\<lambda>mapping.
     bindR (pop_item ''tool_call'' mapping) (\<lambda>mapping'.
     bindR (set_item disc ''mapping'' mapping') (\<lambda>disc'.
       set_item ds1 ''discriminator'' disc'))))))))"

text \<open>\<open>build_document_decision_schema\<close>; the values are copies, so nothing of the inputs changes.\<close>

definition build_document_decision_schema :: "arguments \<Rightarrow> tool_schema list \<Rightarrow> exn + json" where
  "build_document_decision_schema ds tools =
     (if tools = [] then without_tool_calls (J_object ds)
      else
        let defs = (case map_of ds ''$defs'' of None \<Rightarrow> J_object [] | Some d \<Rightarrow> d)
        in bindR (add_tools 0 tools defs) (\<lambda>(defs', variants).
           bindR (set_item defs' ''ToolCallDecision'' (J_object [(''oneOf'', J_list variants)])) (\<lambda>defs''.
             set_item (J_object ds) ''$defs'' defs'')))"

section \<open>Names and references\<close>

lemma make_ref_simps [simp]:
  "is_local_ref k (make_ref n) \<longleftrightarrow> k = ''$ref''" "ref_name (make_ref n) = n"
  by (simp_all add: make_ref_def is_local_ref_def ref_name_def ucs_def)

lemma is_local_ref_relocate [simp]: "is_local_ref k (relocate p v) \<longleftrightarrow> is_local_ref k v"
  by (cases v) (simp_all add: is_local_ref_def)

lemma is_local_ref_key: "is_local_ref k v \<Longrightarrow> k = ''$ref''"
  by (simp add: is_local_ref_def)

lemma local_refs_relocate: "local_refs (relocate p v) = map (\<lambda>n. ucs p @ n) (local_refs v)"
proof (induction p v rule: relocate.induct)
  case (1 p kvs)
  then show ?case by (auto simp: map_concat comp_def dest: is_local_ref_key split: prod.splits intro!: arg_cong [where f = concat] map_cong)
next
  case (2 p xs)
  then show ?case by (auto simp: map_concat comp_def intro!: arg_cong [where f = concat] map_cong)
qed simp_all

lemma local_refs_object:
  "n \<in> set (local_refs (J_object kvs)) \<longleftrightarrow>
   (\<exists>k v. (k, v) \<in> set kvs \<and> (if is_local_ref k v then n = ref_name v else n \<in> set (local_refs v)))"
  by (auto split: if_splits prod.splits)

lemma digits_nonempty [simp]: "digits n \<noteq> []"
  by (simp add: digits.simps [of n])

lemma digits_inj: "digits m = digits n \<Longrightarrow> m = n"
proof (induction n arbitrary: m rule: digits.induct)
  case (1 n)
  have len: "length (digits k) = 1 \<longleftrightarrow> k < 10" for k
    by (subst digits.simps) simp
  have same: "m < 10 \<longleftrightarrow> n < 10" using 1(2) len by metis
  have last: "(of_char (last (digits k)) :: nat) = 48 + k mod 10" for k
    by (subst digits.simps) simp
  have mods: "m mod 10 = n mod 10" using last [of m] last [of n] 1(2) by simp
  show ?case
  proof (cases "n < 10")
    case True then show ?thesis using same mods by simp
  next
    case False
    have "digits (m div 10) = digits (n div 10)"
      using 1(2) False same by (simp add: digits.simps [of m] digits.simps [of n])
    then have "m div 10 = n div 10" by (rule 1(1) [OF False])
    then show ?thesis using mods by (metis mult_div_mod_eq)
  qed
qed

lemma digits_no_underscore: "CHR ''_'' \<notin> set (digits n)"
proof (induction n rule: digits.induct)
  case (1 n)
  have "CHR ''_'' \<noteq> char_of (48 + d)" if "d < 10" for d :: nat
  proof
    assume "CHR ''_'' = char_of (48 + d)"
    then have "(of_char CHR ''_'' :: nat) = of_char (char_of (48 + d) :: char)" by simp
    then show False using that by simp
  qed
  then show ?case using 1 by (subst digits.simps) auto
qed

lemma tool_prefix_inj: "tool_prefix m @ a = tool_prefix n @ b \<longleftrightarrow> m = n \<and> a = b"
proof
  assume "tool_prefix m @ a = tool_prefix n @ b"
  then have eq: "digits m @ CHR ''_'' # a = digits n @ CHR ''_'' # b" by (simp add: tool_prefix_def)
  have "takeWhile (\<lambda>c. c \<noteq> CHR ''_'') (digits k @ CHR ''_'' # x) = digits k" for k x
    using digits_no_underscore by (subst takeWhile_append2) auto
  then have "digits m = digits n" using eq by metis
  then show "m = n \<and> a = b" using eq digits_inj by auto
qed simp

lemma tool_prefix_names [simp]:
  "tool_prefix n @ a \<noteq> ''$ref''" "tool_prefix n @ a \<noteq> ''ToolCallDecision''"
  "''ToolCallDecision'' \<noteq> tool_prefix n @ a"
  by (simp_all add: tool_prefix_def)

section \<open>What the construction adds\<close>

lemma set_update_subset: "(k', v') \<in> set (AList.update k v kvs) \<Longrightarrow> (k', v') \<in> set kvs \<or> k' = k \<and> v' = v"
  by (induction kvs) (auto split: if_splits)

lemma set_item_Inr: "set_item j k v = Inr j' \<longleftrightarrow> (\<exists>kvs. j = J_object kvs \<and> j' = J_object (AList.update k v kvs))"
  by (cases j) auto

definition assign_all :: "string \<Rightarrow> arguments \<Rightarrow> arguments \<Rightarrow> arguments" where
  "assign_all p nested ds = fold (\<lambda>(k, d). AList.update (p @ k) (relocate p d)) nested ds"

lemma assign_all_simps [simp]:
  "assign_all p [] ds = ds"
  "assign_all p ((k, d) # nested) ds = assign_all p nested (AList.update (p @ k) (relocate p d) ds)"
  by (simp_all add: assign_all_def)

lemma add_definitions_object: "add_definitions p nested (J_object ds) = Inr (J_object (assign_all p nested ds))"
  by (induction nested arbitrary: ds) auto

lemma assign_all_keys: "fst ` set (assign_all p nested ds) = fst ` set ds \<union> (\<lambda>k. p @ k) ` fst ` set nested"
proof (induction nested arbitrary: ds)
  case (Cons x nested)
  then show ?case by (cases x) (simp add: dom_update)
qed simp

lemma assign_all_entries:
  "(k, v) \<in> set (assign_all p nested ds) \<Longrightarrow>
   (k, v) \<in> set ds \<or> (\<exists>name d. (name, d) \<in> set nested \<and> k = p @ name \<and> v = relocate p d)"
proof (induction nested arbitrary: ds)
  case (Cons x nested)
  obtain n e where x: "x = (n, e)" by fastforce
  from Cons.IH [OF Cons.prems [unfolded x assign_all_simps]] show ?case
    by (auto simp: x dest!: set_update_subset)
qed simp

lemma assign_all_other: "(\<And>name. name \<in> fst ` set nested \<Longrightarrow> k \<noteq> p @ name) \<Longrightarrow> map_of (assign_all p nested ds) k = map_of ds k"
proof (induction nested arbitrary: ds)
  case (Cons x nested)
  then show ?case by (cases x) (simp add: update_conv)
qed simp

lemma assign_all_lookup:
  "distinct (map fst nested) \<Longrightarrow> map_of nested name = Some d \<Longrightarrow>
   map_of (assign_all p nested ds) (p @ name) = Some (relocate p d)"
proof (induction nested arbitrary: ds)
  case (Cons x nested)
  obtain n e where x: "x = (n, e)" by fastforce
  show ?case
  proof (cases "name = n")
    case True
    then have "map_of (assign_all p (x # nested) ds) (p @ name) = map_of (AList.update (p @ n) (relocate p e) ds) (p @ name)"
      using Cons.prems(1) by (auto simp: x intro: assign_all_other)
    then show ?thesis using Cons.prems(2) True by (simp add: x update_conv)
  next
    case False
    then show ?thesis using Cons by (simp add: x)
  qed
qed simp

section \<open>Reference integrity\<close>

definition defs_of :: "json \<Rightarrow> arguments" where
  "defs_of j =
     (case j of
        J_object kvs \<Rightarrow> (case map_of kvs ''$defs'' of Some (J_object defs) \<Rightarrow> defs | _ \<Rightarrow> [])
      | _ \<Rightarrow> [])"

definition closed_in :: "arguments \<Rightarrow> json \<Rightarrow> bool" where
  "closed_in defs j \<longleftrightarrow> list_all (\<lambda>n. list_ex (\<lambda>kv. ucs (fst kv) = n) defs) (local_refs j)"

text \<open>Every reference of the schema names one of its definitions.\<close>

definition refs_closed :: "json \<Rightarrow> bool" where
  "refs_closed j \<longleftrightarrow> closed_in (defs_of j) j"

lemma closed_in_iff: "closed_in defs j \<longleftrightarrow> set (local_refs j) \<subseteq> ucs ` fst ` set defs"
  by (auto simp: closed_in_def list_all_iff list_ex_iff image_iff) metis

lemma closed_in_mono: "closed_in ds j \<Longrightarrow> fst ` set ds \<subseteq> fst ` set es \<Longrightarrow> closed_in es j"
  unfolding closed_in_iff by (rule order_trans, assumption, rule image_mono)

lemma closed_in_object:
  "closed_in defs (J_object kvs) \<longleftrightarrow>
   (\<forall>k v. (k, v) \<in> set kvs \<longrightarrow> (if is_local_ref k v then ref_name v \<in> ucs ` fst ` set defs else closed_in defs v))"
proof -
  have "(\<forall>n. n \<in> set (local_refs (J_object kvs)) \<longrightarrow> n \<in> N) \<longleftrightarrow>
        (\<forall>k v. (k, v) \<in> set kvs \<longrightarrow> (if is_local_ref k v then ref_name v \<in> N else set (local_refs v) \<subseteq> N))" for N
    unfolding local_refs_object by (auto simp del: local_refs.simps split: if_splits)
  then show ?thesis by (simp only: closed_in_iff subset_iff [of "set (local_refs (J_object kvs))"])
qed

lemma closed_in_local_ref: "is_local_ref k v \<Longrightarrow> closed_in defs v"
  by (cases v) (simp_all add: is_local_ref_def closed_in_iff)

lemma closed_in_list: "closed_in defs (J_list xs) \<longleftrightarrow> (\<forall>x \<in> set xs. closed_in defs x)"
  by (auto simp: closed_in_iff)

lemma closed_in_relocate:
  "closed_in defs j \<Longrightarrow> (\<lambda>k. p @ k) ` fst ` set defs \<subseteq> fst ` set es \<Longrightarrow> closed_in es (relocate p j)"
proof -
  assume c: "closed_in defs j" and keys: "(\<lambda>k. p @ k) ` fst ` set defs \<subseteq> fst ` set es"
  have "ucs p @ n \<in> ucs ` fst ` set es" if "n \<in> set (local_refs j)" for n
  proof -
    from that c obtain k where "k \<in> fst ` set defs" "n = ucs k" unfolding closed_in_iff by (metis imageE subsetD)
    with keys have "p @ k \<in> fst ` set es" "ucs p @ n = ucs (p @ k)" by auto
    then show ?thesis by (metis imageI)
  qed
  then show ?thesis by (auto simp: closed_in_iff local_refs_relocate)
qed

lemma closed_in_variant: "closed_in defs (tool_variant name args) \<longleftrightarrow> closed_in defs args"
proof -
  have plain: "closed_in defs (J_str s)" "closed_in defs (J_bool b)" for s b by (simp_all add: closed_in_iff)
  have no_ref: "k \<noteq> ''$ref'' \<Longrightarrow> \<not> is_local_ref k v" for k v by (simp add: is_local_ref_def)
  have const: "closed_in defs (const_string s)" for s
    by (auto simp: const_string_def closed_in_object plain no_ref)
  show ?thesis
    by (auto simp: tool_variant_def closed_in_object closed_in_list plain const no_ref)
qed

lemma defs_of_nested: "nested_definitions params = Inr nested \<Longrightarrow> defs_of (J_object params) = nested"
  by (auto simp: nested_definitions_def defs_of_def split: option.splits json.splits)

lemma nested_definitions_closed:
  assumes "nested_definitions params = Inr nested" and "refs_closed (J_object params)"
  shows "(name, d) \<in> set nested \<Longrightarrow> closed_in nested d"
    and "closed_in nested (own_arguments params)"
proof -
  have c: "closed_in nested (J_object params)" using assms by (simp add: refs_closed_def defs_of_nested)
  show "closed_in nested (own_arguments params)"
    using c unfolding own_arguments_def closed_in_object AList.delete_eq by (auto simp: case_prod_beta split: if_splits)
  show "closed_in nested d" if d: "(name, d) \<in> set nested"
  proof -
    have "map_of params ''$defs'' = Some (J_object nested)"
      using assms(1) d by (auto simp: nested_definitions_def split: option.splits json.splits)
    then have "(''$defs'', J_object nested) \<in> set params" by (rule map_of_SomeD)
    moreover have "\<not> is_local_ref ''$defs'' (J_object nested)" by (simp add: is_local_ref_def)
    ultimately have "closed_in nested (J_object nested)" using c unfolding closed_in_object [of nested params] by metis
    then show ?thesis using d closed_in_local_ref unfolding closed_in_object by metis
  qed
qed

text \<open>What the tools add: keys are kept, and every new definition and variant is closed.\<close>

lemma add_tools_stuck:
  "add_tools n tools j = Inr (j', variants) \<Longrightarrow> (\<And>kvs. j \<noteq> J_object kvs) \<Longrightarrow> j' = j"
proof (induction n tools j arbitrary: j' variants rule: add_tools.induct)
  case (2 n t ts defs)
  then obtain nested defs' vs where steps: "nested_definitions (ts_parameters t) = Inr nested"
      "add_definitions (tool_prefix n) nested defs = Inr defs'" "add_tools (Suc n) ts defs' = Inr (j', vs)"
    by fastforce
  moreover have "defs' = defs"
    using steps(2) 2(3) by (cases nested; cases defs) auto
  ultimately show ?case using 2 by blast
qed simp

lemma add_tools_closed:
  "add_tools n tools (J_object ds) = Inr (j, variants) \<Longrightarrow>
   (\<forall>t \<in> set tools. refs_closed (J_object (ts_parameters t))) \<Longrightarrow>
   \<exists>es. j = J_object es \<and> fst ` set ds \<subseteq> fst ` set es \<and> (\<forall>v \<in> set variants. closed_in es v) \<and>
        (\<forall>k v. (k, v) \<in> set es \<longrightarrow> (k, v) \<in> set ds \<or> k \<noteq> ''$ref'' \<and> closed_in es v)"
proof (induction tools arbitrary: n ds j variants)
  case (Cons t ts)
  let ?p = "tool_prefix n"
  from Cons.prems obtain nested vs where nested: "nested_definitions (ts_parameters t) = Inr nested"
      and rest: "add_tools (Suc n) ts (J_object (assign_all ?p nested ds)) = Inr (j, vs)"
      and variants: "variants = tool_variant (ts_name t) (relocate ?p (own_arguments (ts_parameters t))) # vs"
    by (auto simp: add_definitions_object)
  let ?ds = "assign_all ?p nested ds"
  from Cons.IH [OF rest] Cons.prems(2) obtain es where es: "j = J_object es" "fst ` set ?ds \<subseteq> fst ` set es"
      and vs: "\<forall>v \<in> set vs. closed_in es v"
      and items: "\<And>k v. (k, v) \<in> set es \<Longrightarrow> (k, v) \<in> set ?ds \<or> k \<noteq> ''$ref'' \<and> closed_in es v"
    by auto
  have keys: "fst ` set ds \<subseteq> fst ` set es" "(\<lambda>k. ?p @ k) ` fst ` set nested \<subseteq> fst ` set es"
    using es(2) unfolding assign_all_keys by auto
  note tool = nested_definitions_closed [OF nested] 
  have t: "refs_closed (J_object (ts_parameters t))" using Cons.prems(2) by simp
  have "closed_in es (relocate ?p (own_arguments (ts_parameters t)))"
    by (rule closed_in_relocate [OF tool(2) [OF t] keys(2)])
  moreover have "(k, v) \<in> set ds \<or> k \<noteq> ''$ref'' \<and> closed_in es v" if "(k, v) \<in> set es" for k v
    using items [OF that]
  proof
    assume "(k, v) \<in> set ?ds"
    from assign_all_entries [OF this] show ?thesis
      using closed_in_relocate [OF tool(1) [OF t] keys(2)] by auto
  qed simp
  ultimately show ?case using es(1) keys(1) vs by (auto simp: variants closed_in_variant)
qed simp

lemma get_item_mem: "get_item (J_object kvs) k = Inr v \<Longrightarrow> (k, v) \<in> set kvs"
  by (auto split: option.splits dest: map_of_SomeD)

lemma set_item_closed:
  "closed_in defs (J_object kvs) \<Longrightarrow> closed_in defs v \<Longrightarrow> k \<noteq> ''$ref'' \<Longrightarrow> closed_in defs (J_object (AList.update k v kvs))"
  unfolding closed_in_object by (metis is_local_ref_key set_update_subset)

lemma get_item_closed:
  "closed_in defs (J_object kvs) \<Longrightarrow> get_item (J_object kvs) k = Inr v \<Longrightarrow> closed_in defs v"
  using closed_in_local_ref unfolding closed_in_object by (metis get_item_mem)

lemma defs_of_update: "k \<noteq> ''$defs'' \<Longrightarrow> defs_of (J_object (AList.update k v kvs)) = defs_of (J_object kvs)"
  by (simp add: defs_of_def update_conv)

lemma drop_tool_calls_subset: "drop_tool_calls xs = Inr ys \<Longrightarrow> set ys \<subseteq> set xs"
  by (induction xs arbitrary: ys) (auto split: if_splits)

lemma iterate_closed: "closed_in defs j \<Longrightarrow> iterate j = Inr xs \<Longrightarrow> \<forall>x \<in> set xs. closed_in defs x"
  by (cases j) (auto simp: closed_in_list closed_in_iff)

lemma pop_item_closed: "closed_in defs j \<Longrightarrow> pop_item k j = Inr j' \<Longrightarrow> closed_in defs j'"
  by (cases j) (auto simp: closed_in_object AList.delete_eq case_prod_beta)

lemma without_tool_calls_closed:
  assumes out: "without_tool_calls (J_object ds) = Inr j" and c: "closed_in defs (J_object ds)"
  shows "closed_in defs j \<and> defs_of j = defs_of (J_object ds)"
proof -
  from out obtain alts items kept disc mapping mapping' disc' where
    steps: "get_item (J_object ds) ''oneOf'' = Inr alts" "iterate alts = Inr items" "drop_tool_calls items = Inr kept"
      "get_item (J_object (AList.update ''oneOf'' (J_list kept) ds)) ''discriminator'' = Inr disc"
      "get_item disc ''mapping'' = Inr mapping" "pop_item ''tool_call'' mapping = Inr mapping'"
      "set_item disc ''mapping'' mapping' = Inr disc'"
      and j: "j = J_object (AList.update ''discriminator'' disc' (AList.update ''oneOf'' (J_list kept) ds))"
    unfolding without_tool_calls_def bindR_Inr_iff set_item_Inr by force
  have "\<forall>x \<in> set kept. closed_in defs x"
    using iterate_closed [OF get_item_closed [OF c steps(1)] steps(2)] drop_tool_calls_subset [OF steps(3)] by blast
  then have c1: "closed_in defs (J_object (AList.update ''oneOf'' (J_list kept) ds))"
    by (intro set_item_closed c) (simp_all add: closed_in_list)
  obtain kvs where disc: "disc = J_object kvs" and disc': "disc' = J_object (AList.update ''mapping'' mapping' kvs)"
    using steps(7) by (auto simp: set_item_Inr)
  have d: "closed_in defs (J_object kvs)" using get_item_closed [OF c1 steps(4)] disc by simp
  have "closed_in defs disc'" unfolding disc'
    using pop_item_closed [OF get_item_closed [OF d steps(5) [unfolded disc]] steps(6)] by (intro set_item_closed d) simp_all
  then show ?thesis using c1 by (simp add: j set_item_closed defs_of_update)
qed

lemma decision_schema_closed:
  assumes out: "build_document_decision_schema ds tools = Inr j"
    and base: "refs_closed (J_object ds)" and tools: "\<forall>t \<in> set tools. refs_closed (J_object (ts_parameters t))"
  shows "refs_closed j"
proof (cases "tools = []")
  case True
  then show ?thesis
    using out base without_tool_calls_closed by (fastforce simp: build_document_decision_schema_def refs_closed_def)
next
  case False
  define d where "d = (case map_of ds ''$defs'' of None \<Rightarrow> J_object [] | Some d \<Rightarrow> d)"
  from out False obtain dj variants kvs where added: "add_tools 0 tools d = Inr (dj, variants)"
      and dj: "dj = J_object kvs"
      and j: "j = J_object (AList.update ''$defs'' (J_object (AList.update ''ToolCallDecision'' (J_object [(''oneOf'', J_list variants)]) kvs)) ds)"
    by (auto simp: build_document_decision_schema_def Let_def set_item_Inr simp flip: d_def)
  obtain base_defs where d: "d = J_object base_defs"
    using add_tools_stuck [OF added] dj by (cases d) auto
  have bd: "defs_of (J_object ds) = base_defs" using d by (auto simp: d_def defs_of_def split: option.splits)
  have base_closed: "closed_in base_defs (J_object ds)" using base by (simp add: refs_closed_def bd)
  from add_tools_closed [OF added [unfolded d] tools] dj obtain "fst ` set base_defs \<subseteq> fst ` set kvs"
      and vs: "\<forall>v \<in> set variants. closed_in kvs v"
      and items: "\<And>k v. (k, v) \<in> set kvs \<Longrightarrow> (k, v) \<in> set base_defs \<or> k \<noteq> ''$ref'' \<and> closed_in kvs v" by auto
  define es where "es = AList.update ''ToolCallDecision'' (J_object [(''oneOf'', J_list variants)]) kvs"
  have keys: "fst ` set base_defs \<subseteq> fst ` set es" "fst ` set kvs \<subseteq> fst ` set es"
    using \<open>fst ` set base_defs \<subseteq> fst ` set kvs\<close> by (auto simp: es_def dom_update)
  have base_es: "closed_in es (J_object ds)" by (rule closed_in_mono [OF base_closed keys(1)])
  have base_item: "if is_local_ref k v then ref_name v \<in> ucs ` fst ` set es else closed_in es v"
    if "(k, v) \<in> set base_defs" for k v
  proof -
    have "(''$defs'', J_object base_defs) \<in> set ds"
      using that d by (auto simp: d_def split: option.splits dest: map_of_SomeD)
    then have "closed_in es (J_object base_defs)"
      using base_es closed_in_object [of es ds] by (auto simp: is_local_ref_def)
    then show ?thesis using that unfolding closed_in_object by blast
  qed
  have "if is_local_ref k v then ref_name v \<in> ucs ` fst ` set es else closed_in es v" if "(k, v) \<in> set kvs" for k v
    using items [OF that] base_item closed_in_mono [OF _ keys(2)] is_local_ref_key by metis
  then have "closed_in es (J_object kvs)" unfolding closed_in_object by blast
  moreover have "closed_in es (J_object [(''oneOf'', J_list variants)])"
    using vs closed_in_mono [OF _ keys(2)] by (auto simp: closed_in_object closed_in_list is_local_ref_def)
  ultimately have "closed_in es (J_object es)" by (simp add: es_def set_item_closed)
  then have "closed_in es j" using base_es by (simp add: j set_item_closed flip: es_def)
  moreover have "defs_of j = es" by (simp add: j defs_of_def update_conv flip: es_def)
  ultimately show ?thesis by (simp add: refs_closed_def)
qed

section \<open>Meaning\<close>

text \<open>
  What a schema describes: its references replaced by what they stand for, to a depth. The depth bounds
  recursive definitions; two schemas with the same expansions to every depth describe the same values.
\<close>

definition schema_env :: "arguments \<Rightarrow> ustr \<Rightarrow> json option" where
  "schema_env defs n = map_of (map (\<lambda>(k, v). (ucs k, v)) defs) n"

function expand :: "(ustr \<Rightarrow> json option) \<Rightarrow> nat \<Rightarrow> json \<Rightarrow> json" where
  "expand env depth (J_object kvs) =
     J_object (map (\<lambda>(k, v). (k, if is_local_ref k v
                                 then (case depth of
                                         0 \<Rightarrow> J_null
                                       | Suc d \<Rightarrow> (case env (ref_name v) of None \<Rightarrow> J_null | Some w \<Rightarrow> expand env d w))
                                 else expand env depth v)) kvs)"
| "expand env depth (J_list xs) = J_list (map (expand env depth) xs)"
| "expand env depth J_null = J_null"
| "expand env depth (J_bool b) = J_bool b"
| "expand env depth (J_int i) = J_int i"
| "expand env depth (J_float r) = J_float r"
| "expand env depth (J_str s) = J_str s"
  by pat_completeness auto
termination
  by (relation "inv_image (less_than <*lex*> less_than) (\<lambda>(env, depth, j). (depth, size j))")
    (auto simp: size_item less_Suc_eq_le intro: size_list_estimation')

lemma schema_env_ucs [simp]: "schema_env defs (ucs k) = map_of defs k"
  by (induction defs) (auto simp: schema_env_def)

lemma schema_env_Some: "schema_env defs n = Some d \<longleftrightarrow> (\<exists>k. n = ucs k \<and> map_of defs k = Some d)"
proof
  assume "schema_env defs n = Some d"
  then have "(n, d) \<in> set (map (\<lambda>(k, v). (ucs k, v)) defs)" unfolding schema_env_def by (rule map_of_SomeD)
  then obtain k where "n = ucs k" by auto
  then show "\<exists>k. n = ucs k \<and> map_of defs k = Some d" using \<open>schema_env defs n = Some d\<close> by auto
qed auto

text \<open>
  A renaming is invisible: when the environments correspond on what can be reached, the relocated value
  expands to what the original expands to.
\<close>

lemma expand_relocate:
  "(\<forall>n d. env n = Some d \<longrightarrow> env' (ucs p @ n) = Some (relocate p d) \<and> set (local_refs d) \<subseteq> dom env) \<Longrightarrow>
   set (local_refs j) \<subseteq> dom env \<Longrightarrow> expand env' depth (relocate p j) = expand env depth j"
proof (induction env depth j rule: expand.induct)
  case (1 env depth kvs)
  let ?item = "\<lambda>e k v. if is_local_ref k v
     then (case depth of 0 \<Rightarrow> J_null | Suc d \<Rightarrow> (case e (ref_name v) of None \<Rightarrow> J_null | Some w \<Rightarrow> expand e d w))
     else expand e depth v"
  have "?item env' k (if is_local_ref k v then make_ref (ucs p @ ref_name v) else relocate p v) = ?item env k v"
    if kv: "(k, v) \<in> set kvs" for k v
  proof (cases "is_local_ref k v")
    case True
    have "ref_name v \<in> set (local_refs (J_object kvs))" using kv True unfolding local_refs_object by auto
    then obtain w where w: "env (ref_name v) = Some w" using "1.prems"(2) by blast
    have "expand env' d (relocate p w) = expand env d w" if "depth = Suc d" for d
      using 1(1) [OF kv refl True that w "1.prems"(1)] "1.prems"(1) w by blast
    then show ?thesis using True w "1.prems"(1) is_local_ref_key [OF True] by (simp split: nat.split)
  next
    case False
    have "set (local_refs v) \<subseteq> set (local_refs (J_object kvs))"
      using kv False unfolding local_refs_object subset_iff by metis
    then have "expand env' depth (relocate p v) = expand env depth v"
      using 1(2) [OF kv refl False "1.prems"(1)] "1.prems"(2) by blast
    then show ?thesis using False by simp
  qed
  then show ?case by (auto simp: case_prod_beta)
next
  case (2 env depth xs)
  then show ?case by (simp add: UN_subset_iff)
qed simp_all

text \<open>The definitions a tool brought are found under its prefix; later steps leave them alone.\<close>

lemma add_tools_keep:
  "add_tools n tools (J_object ds) = Inr (J_object es, variants) \<Longrightarrow>
   (\<And>m name. n \<le> m \<Longrightarrow> k \<noteq> tool_prefix m @ name) \<Longrightarrow> map_of es k = map_of ds k"
proof (induction tools arbitrary: n ds variants)
  case (Cons t ts)
  from Cons.prems(1) obtain nested vs where
    rest: "add_tools (Suc n) ts (J_object (assign_all (tool_prefix n) nested ds)) = Inr (J_object es, vs)"
    by (auto simp: add_definitions_object)
  show ?case using Cons.IH [OF rest] Cons.prems(2) by (simp add: assign_all_other)
qed simp

lemma add_tools_at:
  "add_tools n tools (J_object ds) = Inr (J_object es, variants) \<Longrightarrow> i < length tools \<Longrightarrow>
   \<exists>nested. nested_definitions (ts_parameters (tools ! i)) = Inr nested \<and> length variants = length tools \<and>
     variants ! i = tool_variant (ts_name (tools ! i))
       (relocate (tool_prefix (n + i)) (own_arguments (ts_parameters (tools ! i)))) \<and>
     (distinct (map fst nested) \<longrightarrow>
        (\<forall>name d. map_of nested name = Some d \<longrightarrow>
           map_of es (tool_prefix (n + i) @ name) = Some (relocate (tool_prefix (n + i)) d)))"
proof (induction tools arbitrary: n ds variants i)
  case (Cons t ts)
  let ?ds = "\<lambda>nested. assign_all (tool_prefix n) nested ds"
  from Cons.prems(1) obtain nested vs where nested: "nested_definitions (ts_parameters t) = Inr nested"
      and rest: "add_tools (Suc n) ts (J_object (?ds nested)) = Inr (J_object es, vs)"
      and variants: "variants = tool_variant (ts_name t) (relocate (tool_prefix n) (own_arguments (ts_parameters t))) # vs"
    by (auto simp: add_definitions_object)
  have len: "length vs = length ts"
    using Cons.IH [OF rest, of 0] rest by (cases ts) auto
  show ?case
  proof (cases i)
    case 0
    have "map_of es (tool_prefix n @ name) = map_of (?ds nested) (tool_prefix n @ name)" for name
      by (rule add_tools_keep [OF rest]) (auto simp: tool_prefix_inj)
    then show ?thesis using nested len by (simp add: variants 0 assign_all_lookup)
  next
    case (Suc j)
    then show ?thesis using Cons.IH [OF rest, of j] Cons.prems(2) by (simp add: variants)
  qed
qed simp

text \<open>The branch of a tool in the finished schema.\<close>

definition schema_variant :: "json \<Rightarrow> nat \<Rightarrow> json option" where
  "schema_variant j i =
     (case map_of (defs_of j) ''ToolCallDecision'' of
        Some (J_object [(''oneOf'', J_list variants)]) \<Rightarrow> if i < length variants then Some (variants ! i) else None
      | _ \<Rightarrow> None)"

lemma tool_variant_meaning:
  assumes out: "build_document_decision_schema ds tools = Inr j" and i: "i < length tools"
    and dict: "distinct (map fst (defs_of (J_object (ts_parameters (tools ! i)))))"
    and closed: "refs_closed (J_object (ts_parameters (tools ! i)))"
  defines "params \<equiv> ts_parameters (tools ! i)"
  shows "\<exists>args. schema_variant j i = Some (tool_variant (ts_name (tools ! i)) args) \<and>
    (\<forall>depth. expand (schema_env (defs_of j)) depth args =
             expand (schema_env (defs_of (J_object params))) depth (own_arguments params))"
proof -
  define d where "d = (case map_of ds ''$defs'' of None \<Rightarrow> J_object [] | Some d \<Rightarrow> d)"
  from i have "tools \<noteq> []" by auto
  with out obtain dj variants kvs where added: "add_tools 0 tools d = Inr (dj, variants)"
      and dj: "dj = J_object kvs"
      and j: "j = J_object (AList.update ''$defs'' (J_object (AList.update ''ToolCallDecision'' (J_object [(''oneOf'', J_list variants)]) kvs)) ds)"
    by (auto simp: build_document_decision_schema_def Let_def set_item_Inr simp flip: d_def)
  obtain base_defs where d: "d = J_object base_defs"
    using add_tools_stuck [OF added] dj by (cases d) auto
  let ?p = "tool_prefix i"
  from add_tools_at [OF added [unfolded d dj] i] obtain nested where nested: "nested_definitions params = Inr nested"
      and len: "length variants = length tools"
      and variant: "variants ! i = tool_variant (ts_name (tools ! i)) (relocate ?p (own_arguments params))"
      and found: "distinct (map fst nested) \<longrightarrow>
        (\<forall>name d. map_of nested name = Some d \<longrightarrow> map_of kvs (?p @ name) = Some (relocate ?p d))"
    by (auto simp: params_def)
  have defs_j: "defs_of j = AList.update ''ToolCallDecision'' (J_object [(''oneOf'', J_list variants)]) kvs"
    by (simp add: j defs_of_def update_conv)
  have tool_defs: "defs_of (J_object params) = nested" by (rule defs_of_nested [OF nested])
  have dom: "set (local_refs v) \<subseteq> dom (schema_env nested)" if v: "closed_in nested v" for v
  proof -
    have "ucs ` fst ` set nested \<subseteq> dom (schema_env nested)"
      by (force simp: dom_def map_of_eq_None_iff simp flip: not_None_eq)
    then show ?thesis using v unfolding closed_in_iff by (rule order_trans [rotated])
  qed
  have c: "refs_closed (J_object params)" using closed by (simp add: params_def)
  note tool = nested_definitions_closed [OF nested c]
  have env: "schema_env (defs_of j) (ucs ?p @ n) = Some (relocate ?p w) \<and> set (local_refs w) \<subseteq> dom (schema_env nested)"
    if w: "schema_env nested n = Some w" for n w
  proof -
    from w obtain k where k: "n = ucs k" "map_of nested k = Some w" by (auto simp: schema_env_Some)
    have "map_of kvs (?p @ k) = Some (relocate ?p w)" using found k(2) dict tool_defs by (simp add: params_def)
    then have "schema_env (defs_of j) (ucs (?p @ k)) = Some (relocate ?p w)"
      unfolding schema_env_ucs defs_j by (simp add: update_conv)
    then show ?thesis using k dom [OF tool(1) [OF map_of_SomeD [OF k(2)]]] by simp
  qed
  have "expand (schema_env (defs_of j)) depth (relocate ?p (own_arguments params)) =
        expand (schema_env nested) depth (own_arguments params)" for depth
    by (rule expand_relocate) (use env dom [OF tool(2)] in auto)
  moreover have "schema_variant j i = Some (tool_variant (ts_name (tools ! i)) (relocate ?p (own_arguments params)))"
    using i len variant by (simp add: schema_variant_def defs_j update_conv)
  ultimately show ?thesis by (auto simp: tool_defs)
qed

text \<open>
  C33. The schema given to the model in document mode has no dangling reference, and the branch of each
  registered tool describes exactly the arguments the tool's own schema describes, to every depth of
  expansion, whatever names the definitions of other tools and of the contract use.
\<close>

theorem decision_schema_faithful:
  assumes "build_document_decision_schema ds tools = Inr j" and "i < length tools"
    and "refs_closed (J_object ds)"
    and "\<forall>t \<in> set tools. refs_closed (J_object (ts_parameters t)) \<and> distinct (map fst (defs_of (J_object (ts_parameters t))))"
  shows "refs_closed j \<and>
    (\<exists>args. schema_variant j i = Some (tool_variant (ts_name (tools ! i)) args) \<and>
       (\<forall>depth. expand (schema_env (defs_of j)) depth args =
          expand (schema_env (defs_of (J_object (ts_parameters (tools ! i))))) depth (own_arguments (ts_parameters (tools ! i)))))"
proof -
  have tool: "tools ! i \<in> set tools" using assms(2) by simp
  have "refs_closed j" using decision_schema_closed assms(1,3,4) by blast
  then show ?thesis using tool_variant_meaning [OF assms(1,2)] assms(4) tool by blast
qed

text \<open>Without tools, no alternative of the schema is a tool call.\<close>

lemma no_tools_no_tool_call:
  assumes "build_document_decision_schema ds [] = Inr j"
  shows "\<exists>kvs kept. j = J_object kvs \<and> map_of kvs ''oneOf'' = Some (J_list kept) \<and>
     (\<forall>x \<in> set kept. is_tool_call_ref x = Inr False)"
proof -
  have kept: "\<forall>x \<in> set ys. is_tool_call_ref x = Inr False" if "drop_tool_calls xs = Inr ys" for xs ys
    using that by (induction xs arbitrary: ys) (auto split: if_splits)
  from assms obtain kept disc where "\<exists>items. drop_tool_calls items = Inr kept"
      and "j = J_object (AList.update ''discriminator'' disc (AList.update ''oneOf'' (J_list kept) ds))"
    unfolding build_document_decision_schema_def without_tool_calls_def
    by (auto simp: set_item_Inr split: option.splits) blast
  then show ?thesis using kept by (auto simp: update_conv)
qed

end
