(* ===== verification/Deployment.thy ===== *)
theory Deployment
  imports Ingestion Job_Runner Crew Decision_Schema
begin

text \<open>
  The configuration (\<open>core/config.py\<close>) and what it gives the components: the stores built from it, the
  settings of the agent, the worker of a tenant (\<open>core/worker.py\<close>), and the time limits the bounds of
  its fields are chosen against. Values are the validated ones; loading them is pydantic's.
\<close>

section \<open>Settings\<close>

record settings =
  se_app_name :: string
  se_redis_broker_url :: string
  se_redis_result_backend :: string
  se_redis_operation_timeout :: rat
  se_celery_concurrency :: int
  se_tenants :: tenant_settings
  se_llm_base_url :: string
  se_llm_model :: string
  se_api_key :: string
  se_task_owner_ttl :: int
  se_task_result_ttl :: int
  se_task_queue_ttl :: int
  se_llm_timeout :: rat
  se_llm_max_retries :: int
  se_document_db_path :: string
  se_document_review_model :: "string option"
  se_document_job_lease :: rat
  se_document_job_attempts :: int
  se_document_max_request_bytes :: int
  se_agent_run_db_path :: string
  se_agent_lease :: rat
  se_agent_attempts :: int
  se_agent_max_duration :: rat
  se_agent_max_decisions :: int
  se_agent_max_tokens :: int
  se_agent_max_output :: int
  se_agent_max_recoveries :: int
  se_agent_max_cost :: "rat option"
  se_agent_input_rate :: "rat option"
  se_agent_output_rate :: "rat option"
  se_default_tenant_id :: int
  se_tenant_id :: string
  se_logging_level :: string

definition default_settings :: settings where
  "default_settings =
     \<lparr>se_app_name = ''crewai_platform'', se_redis_broker_url = [], se_redis_result_backend = [],
      se_redis_operation_timeout = 2, se_celery_concurrency = 10,
      se_tenants = \<lparr>celery_queue_name = ''crewai'', tenant_api_keys = Map.empty, tenant_permissions = Map.empty\<rparr>,
      se_llm_base_url = [], se_llm_model = ''llama3'', se_api_key = [],
      se_task_owner_ttl = 86400, se_task_result_ttl = 3600, se_task_queue_ttl = 3600,
      se_llm_timeout = 30, se_llm_max_retries = 3,
      se_document_db_path = ''var/documents.sqlite3'', se_document_review_model = None,
      se_document_job_lease = 180, se_document_job_attempts = 3, se_document_max_request_bytes = 8100000,
      se_agent_run_db_path = ''var/agent_runs.sqlite3'', se_agent_lease = 45, se_agent_attempts = 3,
      se_agent_max_duration = 120, se_agent_max_decisions = 20, se_agent_max_tokens = 100000,
      se_agent_max_output = 512, se_agent_max_recoveries = 1, se_agent_max_cost = None,
      se_agent_input_rate = None, se_agent_output_rate = None,
      se_default_tenant_id = 1, se_tenant_id = ''1'', se_logging_level = ''INFO''\<rparr>"

text \<open>The bounds of the fields, by the part of the program they are for.\<close>

definition accepted_tasks :: "settings \<Rightarrow> bool" where
  "accepted_tasks s \<longleftrightarrow>
     0 < se_redis_operation_timeout s \<and> se_redis_operation_timeout s \<le> 30 \<and>
     10800 \<le> se_task_owner_ttl s \<and> 60 \<le> se_task_result_ttl s \<and> se_task_result_ttl s \<le> 3600 \<and>
     60 \<le> se_task_queue_ttl s \<and> se_task_queue_ttl s \<le> 3600 \<and>
     0 < se_llm_timeout s \<and> se_llm_timeout s \<le> 120 \<and> 0 \<le> se_llm_max_retries s \<and> se_llm_max_retries s \<le> 5 \<and>
     (\<forall>t ps. tenant_permissions (se_tenants s) t = Some ps \<longrightarrow> [] \<notin> ps)"

definition accepted_documents :: "settings \<Rightarrow> bool" where
  "accepted_documents s \<longleftrightarrow>
     (case se_document_review_model s of None \<Rightarrow> True | Some m \<Rightarrow> 1 \<le> length m \<and> length m \<le> 256) \<and>
     150 < se_document_job_lease s \<and> 1 \<le> se_document_job_attempts s \<and> se_document_job_attempts s \<le> 10 \<and>
     1024 \<le> se_document_max_request_bytes s \<and> se_document_max_request_bytes s \<le> 16000000"

definition accepted_agents :: "settings \<Rightarrow> bool" where
  "accepted_agents s \<longleftrightarrow>
     0 < se_agent_lease s \<and> 1 \<le> se_agent_attempts s \<and> se_agent_attempts s \<le> 10 \<and>
     0 < se_agent_max_duration s \<and> se_agent_max_duration s \<le> 180 \<and>
     1 \<le> se_agent_max_decisions s \<and> se_agent_max_decisions s \<le> 100 \<and> 1 \<le> se_agent_max_tokens s \<and>
     1 \<le> se_agent_max_output s \<and> se_agent_max_output s \<le> 8192 \<and>
     0 \<le> se_agent_max_recoveries s \<and> se_agent_max_recoveries s \<le> 3 \<and>
     pred_option (\<lambda>a. 0 \<le> a) (se_agent_max_cost s) \<and> pred_option (\<lambda>a. 0 \<le> a) (se_agent_input_rate s) \<and>
     pred_option (\<lambda>a. 0 \<le> a) (se_agent_output_rate s)"

text \<open>\<open>cost_rates_required\<close>\<close>

definition cost_rates_required :: "settings \<Rightarrow> exn + settings" where
  "cost_rates_required s =
     (if (se_agent_input_rate s = None) \<noteq> (se_agent_output_rate s = None) then Inl Value_error
      else if se_agent_max_cost s \<noteq> None \<and> (se_agent_input_rate s = None \<or> se_agent_output_rate s = None)
      then Inl Value_error
      else Inr s)"

definition make_settings :: "settings \<Rightarrow> exn + settings" where
  "make_settings s =
     (if \<not> (accepted_tasks s \<and> accepted_documents s \<and> accepted_agents s) \<or> \<not> is_ok (cost_rates_required s)
      then Inl Validation_error else Inr s)"

lemma default_settings_accepted: "make_settings default_settings = Inr default_settings"
  by (simp add: make_settings_def accepted_tasks_def accepted_documents_def accepted_agents_def
      cost_rates_required_def default_settings_def)

lemma make_settings_InrD:
  "make_settings s = Inr s' \<Longrightarrow> s' = s \<and> accepted_tasks s \<and> accepted_documents s \<and> accepted_agents s \<and>
     is_ok (cost_rates_required s)"
  by (auto simp: make_settings_def split: if_splits)

section \<open>What is built from the settings\<close>

text \<open>\<open>document_setup.get_document_store\<close> and \<open>run_store.get_run_store\<close>\<close>

definition get_document_cfg :: "settings \<Rightarrow> exn + doc_cfg" where
  "get_document_cfg s =
     make_doc_cfg (se_document_db_path s) (PyFloat 5) (PyFloat (se_document_job_lease s))
       (PyInt (se_document_job_attempts s))"

definition get_run_cfg :: "settings \<Rightarrow> nat \<Rightarrow> exn + run_cfg" where
  "get_run_cfg s user_version =
     make_run_cfg (se_agent_run_db_path s) (PyFloat (se_agent_lease s)) (PyInt (se_agent_attempts s)) user_version"

text \<open>The settings as the agent's assembly and its job runner read them.\<close>

definition agent_settings_of :: "settings \<Rightarrow> run_cfg \<Rightarrow> agent_settings" where
  "agent_settings_of s store =
     \<lparr>as_tenants = se_tenants s, as_store = store, as_max_decisions = nat (se_agent_max_decisions s),
      as_max_tokens = nat (se_agent_max_tokens s), as_max_output = nat (se_agent_max_output s),
      as_max_recoveries = nat (se_agent_max_recoveries s), as_max_cost = se_agent_max_cost s,
      as_input_rate = se_agent_input_rate s, as_output_rate = se_agent_output_rate s,
      as_llm_timeout = se_llm_timeout s\<rparr>"

lemma get_document_cfg_Inr:
  assumes "make_settings s0 = Inr s" and "get_document_cfg s = Inr cfg"
  shows "job_lease_seconds cfg = se_document_job_lease s \<and> job_max_attempts cfg = nat (se_document_job_attempts s)"
  using assms(2) by (auto simp: get_document_cfg_def make_doc_cfg_def split: if_splits)

text \<open>Accepted settings build both stores wherever their paths name a file.\<close>

lemma stores_of_settings:
  assumes "make_settings s0 = Inr s"
  shows "is_ok (get_document_cfg s) \<longleftrightarrow>
      \<not> list_all (\<lambda>c. is_space (of_char c)) (se_document_db_path s) \<and> se_document_db_path s \<noteq> '':memory:''"
    and "is_ok (get_run_cfg s v) \<longleftrightarrow> se_agent_run_db_path s \<noteq> '':memory:'' \<and> v \<in> {0, 1}"
  using make_settings_InrD [OF assms]
  by (auto simp: get_document_cfg_def make_doc_cfg_def get_run_cfg_def make_run_cfg_def accepted_documents_def
      accepted_agents_def positive_number_def positive_int_iff type_is_int_or_float_def is_finite_num_def)

lemma agent_settings_accepted:
  assumes s: "make_settings s0 = Inr s" and cfg: "get_run_cfg s v = Inr cfg"
  shows "valid_settings (agent_settings_of s cfg)"
proof -
  have "lease_seconds cfg = se_agent_lease s \<and> max_attempts cfg = nat (se_agent_attempts s)"
    using cfg by (auto simp: get_run_cfg_def make_run_cfg_def split: if_splits)
  with make_settings_InrD [OF s] show ?thesis
    by (auto simp: valid_settings_def agent_settings_of_def accepted_agents_def accepted_tasks_def
        cost_rates_required_def pred_option_def split: if_splits option.splits)
qed

section \<open>Time limits\<close>

text \<open>The hard limits of \<open>run_document_job\<close> and of \<open>celery_app\<close>, in seconds.\<close>

definition document_task_limit :: rat where "document_task_limit = 150"

definition task_time_limit :: int where "task_time_limit = 270"

text \<open>
  The lease of a document job outlives every task that may hold it, so a worker nobody interferes with
  does all it has to do under its claim.
\<close>

lemma document_task_quiet:
  assumes s: "make_settings s0 = Inr s" "get_document_cfg s = Inr cfg" and alone: "\<And>k db. dw_env w k db = db"
    and limit: "\<And>k i l j. dw_clock w k i \<le> dw_clock w l j + document_task_limit"
  shows "quiet cfg w"
proof -
  have "document_task_limit < job_lease_seconds cfg"
    using make_settings_InrD [OF s(1)] get_document_cfg_Inr [OF s]
    by (simp add: accepted_documents_def document_task_limit_def)
  with limit have "dw_clock w k i < dw_clock w l j + job_lease_seconds cfg" for k i l j
    by (meson add_strict_left_mono le_less_trans)
  with alone show ?thesis by (simp add: quiet_def)
qed

lemma document_task_returns:
  assumes s: "make_settings s0 = Inr s" "get_document_cfg s = Inr cfg" and alone: "\<And>k db. dw_env w k db = db"
    and limit: "\<And>k i l j. dw_clock w k i \<le> dw_clock w l j + document_task_limit"
    and inv: "doc_inv cfg (dw_db w)" and row: "find_job (dw_db w) jid (tenant_id ctx) = Inr row"
      "jr_state row = Job_queued" "jr_attempts row < nat (se_document_job_attempts s)"
  shows "wp (process_document_job cfg jid ctx nd created)
    (\<lambda>j w'. dj_state j = (if is_ok (job_outcome (dw_db w) ctx row nd created) then Job_succeeded else Job_failed) \<and>
       doc_inv cfg (dw_db w')) (\<lambda>_ _. False) w"
proof -
  have "jr_attempts row < job_max_attempts cfg" using row(3) get_document_cfg_Inr [OF s] by simp
  from process_outcome [OF document_task_quiet [OF s alone limit] inv row(1,2) this] show ?thesis
    by (rule wp_mono) (auto split: sum.splits)
qed

text \<open>
  A task starts before its message expires, ends within its time limit, and its result is then kept for
  a while: the record of its owner lasts longer than all three together.
\<close>

lemma ownership_outlives_results:
  "make_settings s0 = Inr s \<Longrightarrow> se_task_queue_ttl s + task_time_limit + se_task_result_ttl s < se_task_owner_ttl s"
  using make_settings_InrD [of s0 s] by (auto simp: accepted_tasks_def task_time_limit_def)

section \<open>The worker of a tenant\<close>

text \<open>The arguments \<open>main\<close> hands to \<open>celery_app.worker_main\<close>; \<open>--tenant-id\<close> defaults to \<open>TENANT_ID\<close>.\<close>

definition show_int :: "int \<Rightarrow> string" where
  "show_int i = (if i < 0 then ''-'' @ digits (nat (- i)) else digits (nat i))"

definition worker_arguments :: "settings \<Rightarrow> string option \<Rightarrow> exn + string list" where
  "worker_arguments s argument =
     (let t = (case argument of None \<Rightarrow> se_tenant_id s | Some t \<Rightarrow> t)
      in bindR (tenant_queue (se_tenants s) t) (\<lambda>queue.
         Inr [''worker'', ''--loglevel=info'', ''-Q'', queue, ''--concurrency'', show_int (se_celery_concurrency s),
              ''--hostname'', ''crewos-'' @ t @ ''@%h'']))"

text \<open>The argument of an option.\<close>

fun option_value :: "string \<Rightarrow> string list \<Rightarrow> string option" where
  "option_value name (a # b # rest) = (if a = name then Some b else option_value name (b # rest))"
| "option_value name _ = None"

text \<open>A worker subscribes to the queue of its tenant, which holds the messages of no other tenant.\<close>

lemma worker_receives_own_tenant:
  assumes "worker_arguments s (Some t) = Inr args"
  obtains q where "option_value ''-Q'' args = Some q" and "tenant_queue (se_tenants s) t = Inr q"
    and "\<And>t'. tenant_queue (se_tenants s) t' = Inr q \<Longrightarrow> t' = t"
  using assms tenant_queue_inj [of "se_tenants s"]
  by (auto simp: worker_arguments_def Let_def)

lemma default_worker: "is_ok (worker_arguments default_settings None)"
  by (simp add: worker_arguments_def default_settings_def tenant_queue_def tenant_pattern_def str_simps)

end
