(* ===== verification/Agent_Demo.thy ===== *)
theory Agent_Demo
  imports Deployment Observability
begin

text \<open>
  A run of the loop outside a job (\<open>AgentLoop.run\<close> without a control) and the command that makes one
  (\<open>core/agent_demo.py\<close>): authentication, assembly, the run, the metrics snapshot and what is printed.
\<close>

section \<open>A run without a store\<close>

text \<open>The control of a run that is given none, from \<open>control_options\<close> of \<open>build_agent_loop\<close>.\<close>

definition control_options :: "settings \<Rightarrow> exn + control" where
  "control_options s =
     make_control None (PyInt (se_agent_max_tokens s)) (map_option PyFloat (se_agent_max_cost s))
       (map_option PyFloat (se_agent_input_rate s)) (map_option PyFloat (se_agent_output_rate s))
       (PyInt (se_agent_max_recoveries s))"

text \<open>\<open>run\<close>: the control is the context's for the length of the run.\<close>

definition loop_run ::
  "control option \<Rightarrow> exn + control \<Rightarrow> loop_deps \<Rightarrow> tool_context \<Rightarrow> message list \<Rightarrow> (world, exn, decision) proc" where
  "loop_run control options deps ctx messages =
     bindP (case control of Some c \<Rightarrow> returnP c | None \<Rightarrow> liftR options) (\<lambda>c.
       scoped w_control (\<lambda>c. w_control_update (\<lambda>_. c)) c (run_loop deps ctx messages))"

interpretation world_control: context_variable w_control "\<lambda>c. w_control_update (\<lambda>_. c)"
  by unfold_locales auto

lemma loop_run_restores: "w_control (snd (loop_run control options deps ctx messages w)) = w_control w"
  by (cases control; cases options)
    (simp_all add: loop_run_def bindP_def returnP_def liftR_def world_control.scoped_restores)

lemma control_options_accepted:
  assumes "make_settings s0 = Inr s"
  obtains c where "control_options s = Inr c" and "ct_store c = None" and "ct_state c = empty_checkpoint"
    and "ct_max_tokens c = se_agent_max_tokens s"
proof -
  from make_settings_InrD [OF assms] have a: "accepted_agents s" and r: "is_ok (cost_rates_required s)" by simp_all
  have "is_ok (control_options s)"
    using a r
    by (auto simp: control_options_def make_control_def decimal_option_def to_decimal_def bad_amount_def is_finite_num_def
        type_is_int_def accepted_agents_def cost_rates_required_def pred_option_def split: option.splits if_splits)
  then obtain c where c: "control_options s = Inr c" by (auto simp: is_ok_iff)
  then show thesis
    by (intro that) (auto simp: control_options_def make_control_def split: if_splits)
qed

section \<open>The command\<close>

text \<open>The converters of the arguments; \<open>int\<close> is what \<open>int(value)\<close> yields, if anything.\<close>

definition nonblank :: "('a \<Rightarrow> bool) \<Rightarrow> 'a list \<Rightarrow> exn + 'a list" where
  "nonblank space v = (if list_all space v then Inl (Other_error ''ArgumentTypeError'') else Inr (strip_by space v))"

definition positive_integer :: "int option \<Rightarrow> exn + nat" where
  "positive_integer v =
     (case v of None \<Rightarrow> Inl (Other_error ''ArgumentTypeError'')
      | Some n \<Rightarrow> if n < 1 then Inl (Other_error ''ArgumentTypeError'') else Inr (nat n))"

record demo_arguments =
  dm_tenant :: string
  dm_message :: ustr
  dm_mode :: answer_mode
  dm_decisions :: "int option"
  dm_metrics_file :: "string option"

datatype demo_line = Outcome_line string | Text_line ustr | Source_line source_reference

datatype demo_error = Usage | Authentication_failed | Run_failure string | Snapshot_failure string

text \<open>The exit status, what goes to standard output and error, and whether a snapshot was attempted.\<close>

record demo_result =
  do_status :: nat
  do_out :: "demo_line list"
  do_err :: "demo_error list"
  do_snapshot :: bool

definition answer_lines :: "decision \<Rightarrow> demo_line list" where
  "answer_lines d =
     (case d of
        Document_final (Insufficient_evidence e) \<Rightarrow> [Outcome_line ''insufficient_evidence'', Text_line e]
      | Document_final (Answered t cs) \<Rightarrow> Outcome_line ''answered'' # Text_line t # map Source_line cs
      | Final_answer t cs \<Rightarrow> Text_line t # map Source_line cs
      | Tool_call _ _ \<Rightarrow> [])"

definition demo_failure :: "exn \<Rightarrow> nat \<times> demo_error" where
  "demo_failure e = (case e of Http_exception _ \<Rightarrow> (2, Authentication_failed) | _ \<Rightarrow> (1, Run_failure (exn_name e)))"

text \<open>Everything before the run: \<open>resources\<close> is what building the model client and the task store raises.\<close>

definition demo_setup ::
  "settings \<Rightarrow> run_cfg \<Rightarrow> agent_env \<Rightarrow> exn + unit \<Rightarrow> string \<Rightarrow> string \<Rightarrow> answer_mode \<Rightarrow> nat \<Rightarrow>
   exn + tool_context \<times> loop_deps" where
  "demo_setup s cfg env resources token tenant mode decisions =
     bindR (get_tenant_id (se_tenants s) tenant (Some token)) (\<lambda>t.
     bindR (get_tool_execution_context (se_tenants s) t) (\<lambda>ctx.
     bindR resources (\<lambda>_.
     bindR (build_agent_loop (agent_settings_of s cfg) env decisions mode (PyFloat (se_agent_max_duration s))) (\<lambda>deps.
     Inr (ctx, deps)))))"

text \<open>
  The \<open>finally\<close> block: a snapshot is written if a file is named and the run was attempted; \<open>snapshot\<close> is
  what writing it raises.
\<close>

definition snapshot_errors :: "bool \<Rightarrow> exn option \<Rightarrow> demo_error list" where
  "snapshot_errors attempted snapshot =
     (if attempted then case snapshot of None \<Rightarrow> [] | Some e \<Rightarrow> [Snapshot_failure (exn_name e)] else [])"

definition parse_arguments :: "demo_arguments \<Rightarrow> exn + string \<times> ustr \<times> nat \<times> string option" where
  "parse_arguments args =
     bindR (nonblank (\<lambda>c. is_space (of_char c)) (dm_tenant args)) (\<lambda>tenant.
     bindR (nonblank is_space (dm_message args)) (\<lambda>text.
     bindR (positive_integer (dm_decisions args)) (\<lambda>decisions.
     bindR (case dm_metrics_file args of None \<Rightarrow> Inr None
            | Some f \<Rightarrow> bindR (nonblank (\<lambda>c. is_space (of_char c)) f) (\<lambda>f. Inr (Some f))) (\<lambda>file.
     Inr (tenant, text, decisions, file)))))"

definition agent_demo ::
  "settings \<Rightarrow> run_cfg \<Rightarrow> agent_env \<Rightarrow> exn + unit \<Rightarrow> exn option \<Rightarrow> string \<Rightarrow> demo_arguments \<Rightarrow> world \<Rightarrow>
   demo_result \<times> world" where
  "agent_demo s cfg env resources snapshot token args w =
     (case parse_arguments args of
        Inl _ \<Rightarrow> (\<lparr>do_status = 2, do_out = [], do_err = [Usage], do_snapshot = False\<rparr>, w)
      | Inr (tenant, text, decisions, file) \<Rightarrow>
          (case demo_setup s cfg env resources token tenant (dm_mode args) decisions of
             Inl e \<Rightarrow> (case demo_failure e of (status, err) \<Rightarrow>
               (\<lparr>do_status = status, do_out = [], do_err = [err], do_snapshot = False\<rparr>, w))
           | Inr (ctx, deps) \<Rightarrow>
               let attempted = (file \<noteq> None)
               in (case loop_run None (control_options s) deps ctx [\<lparr>msg_role = User_role, msg_content = Text text\<rparr>] w of
                     (Inl e, w') \<Rightarrow> (case demo_failure e of (status, err) \<Rightarrow>
                       (\<lparr>do_status = status, do_out = [], do_err = err # snapshot_errors attempted snapshot,
                         do_snapshot = attempted\<rparr>, w'))
                   | (Inr d, w') \<Rightarrow>
                       (\<lparr>do_status = 0, do_out = answer_lines d, do_err = snapshot_errors attempted snapshot,
                         do_snapshot = attempted\<rparr>, w'))))"

lemma demo_setup_InrD:
  "demo_setup s cfg env resources token tenant mode decisions = Inr (ctx, deps) \<Longrightarrow>
     get_tenant_id (se_tenants s) tenant (Some token) = Inr (tenant_id ctx) \<and>
     build_agent_loop (agent_settings_of s cfg) env decisions mode (PyFloat (se_agent_max_duration s)) = Inr deps"
  by (auto simp: demo_setup_def get_tool_execution_context_def make_context_Inr_iff get_tenant_id_Inr_iff)

lemma parse_arguments_InrD:
  "parse_arguments args = Inr (tenant, text, decisions, file) \<Longrightarrow>
     tenant = strip_by (\<lambda>c. is_space (of_char c)) (dm_tenant args) \<and> text = py_strip (dm_message args)"
  by (auto simp: parse_arguments_def nonblank_def py_strip_def split: if_splits)

text \<open>Without the key of the tenant nothing runs and no answer is printed.\<close>

lemma demo_needs_key:
  assumes key: "get_tenant_id (se_tenants s) (strip_by (\<lambda>c. is_space (of_char c)) (dm_tenant args)) (Some token) = Inl e"
  obtains errors where "agent_demo s cfg env resources snapshot token args w
     = (\<lparr>do_status = 2, do_out = [], do_err = errors, do_snapshot = False\<rparr>, w)"
proof (cases "parse_arguments args")
  case (Inr p)
  obtain tenant msg decisions path where p: "p = (tenant, msg, decisions, path)" by (cases p)
  have "demo_setup s cfg env resources token tenant (dm_mode args) decisions = Inl e"
    using parse_arguments_InrD [OF Inr [unfolded p]] key by (simp add: demo_setup_def)
  with get_tenant_id_Inl [OF key] show ?thesis
    by (intro that [of "[Authentication_failed]"]) (auto simp: agent_demo_def Inr p demo_failure_def)
qed (intro that [of "[Usage]"], simp add: agent_demo_def)

text \<open>
  The command succeeds exactly with the answer of a run for the authenticated tenant, and prints that
  answer; otherwise it prints no answer. Either way only classes of exceptions are reported.
\<close>

lemma demo_prints_the_answer:
  assumes r: "agent_demo s cfg env resources snapshot token args w = (r, w')"
  shows "do_status r \<noteq> 0 \<and> do_out r = [] \<or>
    do_status r = 0 \<and> (\<exists>ctx deps decisions d.
       get_tenant_id (se_tenants s) (tenant_id ctx) (Some token) = Inr (tenant_id ctx) \<and>
       build_agent_loop (agent_settings_of s cfg) env decisions (dm_mode args) (PyFloat (se_agent_max_duration s)) = Inr deps \<and>
       loop_run None (control_options s) deps ctx [\<lparr>msg_role = User_role, msg_content = Text (py_strip (dm_message args))\<rparr>] w
         = (Inr d, w') \<and> do_out r = answer_lines d)"
proof (cases "parse_arguments args")
  case (Inr p)
  obtain tenant msg decisions path where p: "p = (tenant, msg, decisions, path)" by (cases p)
  have msg: "msg = py_strip (dm_message args)" using parse_arguments_InrD [OF Inr [unfolded p]] by simp
  have status: "fst (demo_failure e) \<noteq> 0" for e by (simp add: demo_failure_def split: exn.split)
  show ?thesis
  proof (cases "demo_setup s cfg env resources token tenant (dm_mode args) decisions")
    case (Inl e)
    with r status [of e] show ?thesis by (auto simp: agent_demo_def Inr p split: prod.splits)
  next
    case (Inr q)
    obtain ctx deps where q: "q = (ctx, deps)" by (cases q)
    from demo_setup_InrD [OF Inr [unfolded q]]
    have built: "get_tenant_id (se_tenants s) (tenant_id ctx) (Some token) = Inr (tenant_id ctx)"
      "build_agent_loop (agent_settings_of s cfg) env decisions (dm_mode args) (PyFloat (se_agent_max_duration s)) = Inr deps"
      by (auto simp: get_tenant_id_Inr_iff)
    let ?m = "[\<lparr>msg_role = User_role, msg_content = Text msg\<rparr>]"
    obtain out v where run: "loop_run None (control_options s) deps ctx ?m w = (out, v)"
      by (cases "loop_run None (control_options s) deps ctx ?m w")
    show ?thesis
    proof (cases out)
      case (Inl e)
      with r run status [of e] show ?thesis
        by (auto simp: agent_demo_def Let_def \<open>parse_arguments args = Inr p\<close> p Inr q split: prod.splits)
    next
      case (Inr d)
      with r run have "do_status r = 0" "do_out r = answer_lines d" "v = w'"
        by (auto simp: agent_demo_def Let_def \<open>parse_arguments args = Inr p\<close> p q
            \<open>demo_setup s cfg env resources token tenant (dm_mode args) decisions = Inr q\<close>)
      with built run Inr msg show ?thesis by blast
    qed
  qed
qed (use r in \<open>auto simp: agent_demo_def\<close>)

end
