(* ===== verification/Run_Submission.thy ===== *)
theory Run_Submission
  imports Run_Store
begin

text \<open>
  Submission of runs under idempotency keys: how any operation of the run table
  (\<open>infrastructure/run_store.py\<close>) may change its list of rows, and what that means for a submission
  repeated later.
\<close>

text \<open>An operation leaves the rows as they are, rewrites one run's row in place, or appends a new row.\<close>

definition rows_next :: "run_row list \<Rightarrow> run_row list \<Rightarrow> bool" where
  "rows_next rows rows' \<longleftrightarrow>
     rows' = rows \<or> (\<exists>i f. keeps_run f \<and> rows' = update_where (\<lambda>r. ru_id r = i) f rows) \<or> (\<exists>r. rows' = rows @ [r])"

lemma rows_next_refl [simp]: "rows_next rows rows"
  by (simp add: rows_next_def)

lemma rows_next_update: "keeps_run f \<Longrightarrow> rows_next (db_runs db) (db_runs (update_run i f db))"
  by (auto simp: rows_next_def update_run_def)

lemma db_runs_attempt [simp]: "db_runs (update_attempt k f db) = db_runs db"
  by (simp add: update_attempt_def)

lemma rows_next_attempt: "keeps_run f \<Longrightarrow> rows_next (db_runs db) (db_runs (update_run i f (update_attempt k g db)))"
  using rows_next_update [of f "update_attempt k g db" i] by simp

lemma run_step_rows:
  assumes "run_step cfg kd db e db'"
  shows "rows_next (db_runs db) (db_runs db')"
  using assms
proof cases
  case (run_create job duration key clk row)
  then show ?thesis by (auto simp: create_run_def rows_next_def Let_def split: if_splits option.splits)
next
  case (run_get rid t clk x)
  from run_get(2) show ?thesis
    by (cases rule: get_run_InrD) (auto intro: rows_next_update)
next
  case (run_publish rid t clk u)
  then show ?thesis by (auto simp: mark_published_def intro!: rows_next_update row_simps)
next
  case (run_claim job tok clk row)
  from run_claim(2) show ?thesis
  proof (cases rule: claim_run_InrD)
    case (2 old)
    then show ?thesis by (auto simp: rows_next_def update_run_def intro: keeps_run(3))
  qed simp
next
  case (run_replay job tok clk row)
  from run_replay(2) show ?thesis
    by (cases rule: claim_run_InrD) (use run_replay(3) in \<open>auto simp: start_run_def\<close>)
next
  case (run_guard rid t tok clk x)
  then show ?thesis
    by (auto simp: guard_run_def Let_def split: if_splits option.splits intro!: rows_next_update row_simps)
next
  case (run_checkpoint rid t tok cp clk u)
  then show ?thesis by (auto simp: checkpoint_run_def split: if_splits intro!: rows_next_update row_simps)
next
  case (run_finish rid t tok s res e' clk u row)
  from run_finish(2) show ?thesis
    by (cases rule: finish_run_InrD) (auto intro!: rows_next_attempt keeps_run(4))
next
  case (run_cancel rid t clk row)
  then show ?thesis by (auto simp: cancel_run_def split: if_splits intro!: rows_next_update row_simps)
next
  case (run_resume rid t clk row)
  then show ?thesis
    by (auto simp: resume_run_def Let_def split: if_splits intro!: rows_next_update row_simps)
qed

text \<open>The run a tenant has registered under a key's digest.\<close>

definition run_under_key :: "run_db \<Rightarrow> string \<Rightarrow> string \<Rightarrow> run_row option" where
  "run_under_key db t k = select1 (\<lambda>r. ru_tenant r = t \<and> ru_idem_key r = Some k) (db_runs db)"

lemma rows_next_key:
  assumes "rows_next (db_runs db) (db_runs db')" and "run_under_key db t k = Some r"
  shows "\<exists>r'. run_under_key db' t k = Some r' \<and> ru_id r' = ru_id r \<and> ru_job r' = ru_job r"
proof -
  have "select1 (\<lambda>r. ru_tenant r = t \<and> ru_idem_key r = Some k) (update_where (\<lambda>r. ru_id r = i) f (db_runs db))
      = map_option (\<lambda>r. if ru_id r = i then f r else r) (run_under_key db t k)" if "keeps_run f" for i f
    unfolding run_under_key_def by (rule select1_update_where) (simp add: keeps_runD [OF that])
  with assms show ?thesis
    by (auto simp: rows_next_def run_under_key_def select1_append keeps_runD)
qed

lemma run_trace_key:
  assumes "run_trace cfg kd db evs db'" and "run_under_key db t k = Some r"
  shows "\<exists>r'. run_under_key db' t k = Some r' \<and> ru_id r' = ru_id r \<and> ru_job r' = ru_job r"
  using assms
proof (induction rule: run_trace.induct)
  case (run_snoc db evs db1 e db2)
  then obtain r1 where "run_under_key db1 t k = Some r1" "ru_id r1 = ru_id r" "ru_job r1 = ru_job r" by blast
  with rows_next_key [OF run_step_rows [OF run_snoc.hyps(2)]] show ?case by fastforce
qed simp

lemma same_submission_eqv: "same_submission a b \<Longrightarrow> same_submission a c = same_submission b c"
  by (simp add: same_submission_def)

lemma create_run_keyed:
  assumes "create_run kd job d (Some key) clk db = Inr (row, db')" and "key \<noteq> []"
  shows "run_under_key db' (jb_tenant job) (kd key) = Some row \<and> same_submission (ru_job row) job"
proof (cases "run_under_key db (jb_tenant job) (kd key)")
  case (Some r)
  with assms show ?thesis
    by (auto simp: create_run_def run_under_key_def Let_def split: if_splits)
next
  case None
  with assms have "\<not> list_ex (\<lambda>r. ru_id r = jb_run_id job) (db_runs db)"
    and db': "db' = db\<lparr>db_runs := db_runs db @ [new_run job (clk 0) (num_value d) (Some (kd key))]\<rparr>"
    and found: "find_run db' (jb_run_id job) (jb_tenant job) = Inr row"
    by (auto simp: create_run_def run_under_key_def Let_def split: if_splits)
  then have "select1 (\<lambda>r. ru_id r = jb_run_id job \<and> ru_tenant r = jb_tenant job) (db_runs db) = None"
    by (auto simp: select1_None_iff list_ex_iff)
  with found have "row = new_run job (clk 0) (num_value d) (Some (kd key))"
    by (auto simp: find_run_def db' select1_append new_run_def)
  with None show ?thesis
    by (simp add: run_under_key_def db' select1_append new_run_def same_submission_def)
qed

text \<open>
  C37. Idempotent run submission. Once a run has been registered under a tenant's idempotency key, a later
  submission under that key, after any history of the run table and whatever became of the run, is
  answered with the same run and changes nothing when it is the same submission, and is refused as a
  conflict when it is not.
\<close>

theorem run_submission_idempotent:
  assumes created: "create_run kd job d (Some key) clk db = Inr (row, db1)" and key: "key \<noteq> []"
    and later: "run_trace cfg kd db1 evs db2"
    and again: "jb_tenant job2 = jb_tenant job" "is_finite_num d2" "0 < num_value d2"
  shows "\<exists>row2. ru_id row2 = ru_id row \<and> create_run kd job2 d2 (Some key) clk2 db2 =
    (if same_submission job job2 then Inr (row2, db2) else Inl Run_conflict)"
proof -
  have "run_under_key db1 (jb_tenant job) (kd key) = Some row" and same: "same_submission (ru_job row) job"
    using create_run_keyed [OF created key] by simp_all
  then obtain row2 where row2: "run_under_key db2 (jb_tenant job) (kd key) = Some row2"
    and "ru_id row2 = ru_id row" and "ru_job row2 = ru_job row"
    using run_trace_key [OF later] by blast
  with again key same_submission_eqv [OF same, of job2] show ?thesis
    by (auto simp: create_run_def run_under_key_def Let_def)
qed

end
