(* ===== verification/Body_Limit.thy ===== *)
theory Body_Limit
  imports Documents
begin

text \<open>
  The bound on the bodies of document writes (\<open>api/middleware/document_body_limit.py\<close>), which reads a
  streamed body before the application parses it.
\<close>

text \<open>An ASGI message the middleware receives: a part of the body with its \<open>more_body\<close>, or the disconnect.\<close>

datatype asgi_message = Body_part bytes bool | Disconnect

record http_scope =
  sc_http :: bool
  sc_path :: string
  sc_method :: string

text \<open>
  What the middleware does with a request: hand it on untouched, give up, answer 413, hand it on with its
  whole body in one message, or still wait for a message.
\<close>

datatype limited =
    Untouched
  | Gave_up
  | Too_large
  | Bounded bytes "asgi_message list"
  | Waiting

text \<open>The loop: \<open>received\<close> and the joined \<open>chunks\<close> so far.\<close>

fun collect_body :: "nat \<Rightarrow> nat \<Rightarrow> bytes \<Rightarrow> asgi_message list \<Rightarrow> limited" where
  "collect_body limit received chunks [] = Waiting"
| "collect_body limit received chunks (Disconnect # rest) = Gave_up"
| "collect_body limit received chunks (Body_part part again # rest) =
     (if received + length part > limit then Too_large
      else if again then collect_body limit (received + length part) (chunks @ part) rest
      else Bounded (chunks @ part) rest)"

definition limit_body :: "nat option \<Rightarrow> nat \<Rightarrow> http_scope \<Rightarrow> asgi_message list \<Rightarrow> limited" where
  "limit_body max_bytes default_bytes scope messages =
     (if \<not> sc_http scope \<or> take 10 (sc_path scope) \<noteq> ''/documents'' \<or>
         sc_method scope \<notin> {''POST'', ''PUT'', ''PATCH''}
      then Untouched
      else collect_body (case max_bytes of None \<Rightarrow> default_bytes | Some m \<Rightarrow> m) 0 [] messages)"

text \<open>The messages of a body sent in the given parts.\<close>

fun body_messages :: "bytes list \<Rightarrow> asgi_message list" where
  "body_messages [] = [Body_part [] False]"
| "body_messages [p] = [Body_part p False]"
| "body_messages (p # ps) = Body_part p True # body_messages ps"

text \<open>
  However a body is cut into parts, it is handed on whole exactly when it fits, and refused otherwise;
  what follows it is left unread.
\<close>

lemma collect_body_messages:
  assumes "received \<le> limit"
  shows "collect_body limit received chunks (body_messages ps @ rest) =
    (if received + length (concat ps) \<le> limit then Bounded (chunks @ concat ps) rest else Too_large)"
  using assms
proof (induction ps arbitrary: received chunks rule: body_messages.induct)
  case (3 p q ps)
  show ?case
  proof (cases "received + length p \<le> limit")
    case True
    with 3(1) [of "received + length p" "chunks @ p"] show ?thesis by (simp add: add.assoc)
  qed simp
qed auto

lemma limit_body_exact:
  assumes "sc_http scope" and "take 10 (sc_path scope) = ''/documents''" and "sc_method scope \<in> {''POST'', ''PUT'', ''PATCH''}"
  shows "limit_body (Some limit) d scope (body_messages ps @ rest) =
    (if length (concat ps) \<le> limit then Bounded (concat ps) rest else Too_large)"
  using assms collect_body_messages [of 0 limit "[]" ps rest] by (simp add: limit_body_def)

text \<open>A body that is handed on never exceeds the bound, even when the sender cuts it short or never ends it.\<close>

lemma collect_body_bounded:
  "collect_body limit received chunks messages = Bounded body rest \<Longrightarrow> received = length chunks \<Longrightarrow>
     length body \<le> limit \<and> (\<exists>rest_body. body = chunks @ rest_body)"
  by (induction limit received chunks messages rule: collect_body.induct) (auto split: if_splits)

end
