(* ===== verification/Search_Outcomes.thy ===== *)
theory Search_Outcomes
  imports Retrieval "HOL-Library.Multiset"
begin

text \<open>
  A search over the document store always answers: on stored snapshots neither strategy
  (\<open>retrieval/strategies\<close>) can produce an invalid result or more passages than asked for, so the only
  errors are the two limits. The contract of both strategies is the locale \<open>answering_strategy\<close>.
\<close>

section \<open>Candidates\<close>

text \<open>Every passage of a corpus, in order; a candidate list is a selection of it with scores.\<close>

definition corpus_pairs :: "stored_version list \<Rightarrow> (stored_version \<times> text_chunk) list" where
  "corpus_pairs ds = concat (map (\<lambda>d. map (Pair d) (cs_chunks (sv_chunking d))) ds)"

definition selection_of :: "stored_version list \<Rightarrow> (rat \<times> stored_version \<times> text_chunk) list \<Rightarrow> bool" where
  "selection_of ds cands \<longleftrightarrow> (\<exists>p f. cands = map (\<lambda>x. (f x, x)) (filter p (corpus_pairs ds)))"

definition corpus_ok :: "string \<Rightarrow> stored_version list \<Rightarrow> bool" where
  "corpus_ok t ds \<longleftrightarrow> (\<forall>d \<in> set ds. sv_tenant_id d = t \<and> valid_stored d) \<and> distinct (map sv_document_id ds)"

lemma concat_conditional:
  "concat (map (\<lambda>x. if p x then [] else [f x]) xs) = map f (filter (\<lambda>x. \<not> p x) xs)"
  by (induction xs) auto

lemma concat_map_pairs:
  "concat (map (\<lambda>d. map (\<lambda>c. g (d, c)) (filter (\<lambda>c. p (d, c)) (cs_chunks (sv_chunking d)))) ds)
     = map g (filter p (corpus_pairs ds))"
  by (induction ds) (simp_all add: corpus_pairs_def filter_map comp_def)

lemma overlap_selection:
  assumes "corpus_ok t ds"
  shows "\<exists>cands. overlap_candidates words wanted t ds = Inr cands \<and> selection_of ds cands"
proof -
  define score where "score x = card (wanted \<inter> set (words (ch_text (snd x))))" for x :: "stored_version \<times> text_chunk"
  let ?group = "\<lambda>d. map (\<lambda>c. (of_nat (score (d, c)), d, c)) (filter (\<lambda>c. score (d, c) \<noteq> 0) (cs_chunks (sv_chunking d)))"
  have group: "concat (map (\<lambda>c. let s = card (wanted \<inter> set (words (ch_text c)))
      in if s = 0 then [] else [(of_nat s, d, c)]) (cs_chunks (sv_chunking d))) = ?group d" for d
    unfolding Let_def concat_conditional by (simp add: score_def)
  have "overlap_candidates words wanted t ds = Inr (concat (map ?group ds))"
    using assms unfolding overlap_candidates_def group corpus_ok_def by (subst mapR_Inr [where g = ?group]) auto
  also have "concat (map ?group ds) = map (\<lambda>x. (of_nat (score x), x)) (filter (\<lambda>x. score x \<noteq> 0) (corpus_pairs ds))"
    by (subst concat_map_pairs [symmetric]) simp
  finally show ?thesis
    by (auto simp: selection_of_def)
qed

lemma counted_pairs:
  assumes "corpus_ok t ds"
  shows "count_passages words t ds = Inr (map (\<lambda>(d, c). (d, c, words (ch_text c))) (corpus_pairs ds))"
proof -
  let ?group = "\<lambda>d. map (\<lambda>c. (d, c, words (ch_text c))) (cs_chunks (sv_chunking d))"
  have "count_passages words t ds = Inr (concat (map ?group ds))"
    using assms unfolding count_passages_def corpus_ok_def by (subst mapR_Inr [where g = ?group]) auto
  also have "concat (map ?group ds) = map (\<lambda>(d, c). (d, c, words (ch_text c))) (corpus_pairs ds)"
    by (induction ds) (simp_all add: corpus_pairs_def)
  finally show ?thesis .
qed

lemma bm25_selection:
  "selection_of ds (bm25_candidates cfg (map (\<lambda>(d, c). (d, c, words (ch_text c))) (corpus_pairs ds)) average terms)"
proof -
  define score where "score x = bm25_score cfg (map (\<lambda>(d, c). (d, c, words (ch_text c))) (corpus_pairs ds)) average terms
      (words (ch_text (snd x)))" for x :: "stored_version \<times> text_chunk"
  have each: "concat (map (\<lambda>(d, c, ws). let s = bm25_score cfg ps average terms ws in if s > 0 then [(s, d, c)] else [])
       (map (\<lambda>(d, c). (d, c, words (ch_text c))) xs))
      = map (\<lambda>x. (bm25_score cfg ps average terms (words (ch_text (snd x))), x))
          (filter (\<lambda>x. bm25_score cfg ps average terms (words (ch_text (snd x))) > 0) xs)" for ps xs
    by (induction xs) (auto simp: Let_def)
  show ?thesis unfolding selection_of_def bm25_candidates_def each score_def [symmetric]
    by (intro exI [of _ "\<lambda>x. 0 < score x"] exI [of _ score]) (rule refl)
qed

section \<open>The selected passages\<close>

lemma corpus_pairs_keys:
  assumes "corpus_ok t ds"
  shows "distinct (map (\<lambda>(d, c). (sv_document_id d, ch_index c)) (corpus_pairs ds))"
  using assms
proof (induction ds)
  case (Cons d ds)
  have "check_spans (di_text (sv_document d)) 0 0 (cs_chunks (sv_chunking d)) = Some (length (di_text (sv_document d)))"
    using Cons.prems by (simp add: corpus_ok_def valid_stored_def saved_chunks_ok_def)
  from check_spans_index [OF this] have "distinct (map ch_index (cs_chunks (sv_chunking d)))" by simp
  then have "distinct (map (\<lambda>c. (sv_document_id d, ch_index c)) (cs_chunks (sv_chunking d)))"
    by (simp add: distinct_map inj_on_def)
  moreover have "sv_document_id d \<notin> fst ` set (map (\<lambda>(d, c). (sv_document_id d, ch_index c)) (corpus_pairs ds))"
    using Cons.prems by (auto simp: corpus_ok_def corpus_pairs_def)
  moreover have "distinct (map (\<lambda>(d, c). (sv_document_id d, ch_index c)) (corpus_pairs ds))"
    using Cons by (simp add: corpus_ok_def)
  ultimately show ?case by (auto simp: corpus_pairs_def comp_def image_iff)
qed (simp add: corpus_pairs_def)

lemma passage_of_stored:
  assumes "valid_stored d" and "c \<in> set (cs_chunks (sv_chunking d))"
  shows "valid_passage (to_passage d c)"
  using assms
  by (auto simp: valid_passage_def to_passage_def valid_stored_def valid_document_input_def valid_chunking_result_def list_all_iff)

lemma selected_valid:
  assumes ok: "corpus_ok t ds" and sel: "selection_of ds cands" and k: "k \<le> 20" and name: "strategy_pattern strategy"
  shows "select_passages strategy limit (map snd (take k (sort_key rank_key cands))) = Inl Retrieval_capacity_exceeded \<or>
    (\<exists>res. select_passages strategy limit (map snd (take k (sort_key rank_key cands))) = Inr (Some res) \<and>
       valid_retrieval_result res \<and> length (rs_passages res) \<le> k)"
proof -
  let ?chosen = "map snd (take k (sort_key rank_key cands))"
  let ?result = "\<lparr>rs_strategy = strategy, rs_passages = map (\<lambda>(d, c). to_passage d c) ?chosen\<rparr>"
  obtain p f where cands: "cands = map (\<lambda>x. (f x, x)) (filter p (corpus_pairs ds))" using sel by (auto simp: selection_of_def)
  have chosen: "set ?chosen \<subseteq> set (corpus_pairs ds)"
    using set_take_subset [of k "sort_key rank_key cands"] by (auto simp: cands)
  have pairs: "valid_passage (to_passage (fst x) (snd x))" if "x \<in> set (corpus_pairs ds)" for x
    using that ok passage_of_stored by (auto simp: corpus_pairs_def corpus_ok_def)
  have valid: "\<forall>x \<in> set ?chosen. valid_passage (to_passage (fst x) (snd x))" using chosen pairs by blast
  let ?key = "\<lambda>(d, c). (sv_document_id d, ch_index c)"
  have "distinct (map (?key \<circ> snd) cands)"
    using distinct_map_filter [OF corpus_pairs_keys [OF ok], of p] by (simp add: cands comp_def)
  moreover have "mset (map (?key \<circ> snd) (sort_key rank_key cands)) = mset (map (?key \<circ> snd) cands)" by simp
  ultimately have "distinct (map (?key \<circ> snd) (sort_key rank_key cands))" by (metis mset_eq_imp_distinct_iff)
  then have "distinct (map ?key ?chosen)" by (simp add: take_map [symmetric] distinct_take)
  then have "distinct (map source_key (map (\<lambda>(d, c). to_passage d c) ?chosen))"
    by (auto simp: distinct_map inj_on_def source_key_def to_passage_def split: prod.splits)
  then have "valid_retrieval_result ?result"
    using valid k name by (simp add: valid_retrieval_result_def list_all_iff case_prod_beta)
  then show ?thesis unfolding select_passages_def Let_def by auto
qed

section \<open>The contract\<close>

text \<open>
  \<open>answers r k out\<close>: the outcome of a search whose corpus read gave \<open>r\<close>. It fails with the error of
  the read, or because the selected text is too long; otherwise it is a valid result within \<open>k\<close>.
\<close>

definition answers :: "exn + 'a \<Rightarrow> nat \<Rightarrow> exn + retrieval_result option \<Rightarrow> bool" where
  "answers r k out \<longleftrightarrow>
     (case out of
        Inl e \<Rightarrow> (case r of Inl e' \<Rightarrow> e = e' | Inr _ \<Rightarrow> e = Retrieval_capacity_exceeded)
      | Inr None \<Rightarrow> False
      | Inr (Some res) \<Rightarrow> valid_retrieval_result res \<and> length (rs_passages res) \<le> k)"

lemma answers_empty: "strategy_pattern name \<Longrightarrow> answers r k (Inr (Some \<lparr>rs_strategy = name, rs_passages = []\<rparr>))"
  by (simp add: answers_def valid_retrieval_result_def)

lemma answers_selected:
  assumes "corpus_ok t ds" "selection_of ds cands" "k \<le> 20" "strategy_pattern name"
  shows "answers (Inr ds) k (select_passages name limit (map snd (take k (sort_key rank_key cands))))"
  using selected_valid [OF assms, of limit] by (elim disjE exE conjE) (simp_all add: answers_def)

locale answering_strategy =
  fixes search :: "'s corpus \<Rightarrow> 's retriever"
  assumes search_answers: "reader t s = (r, s') \<Longrightarrow> (\<And>ds. r = Inr ds \<Longrightarrow> corpus_ok t ds) \<Longrightarrow> rq_top_k request \<le> 20 \<Longrightarrow>
      answers r (rq_top_k request) (fst (search reader request t s))"
begin

lemma facade_answers:
  assumes rd: "reader (tenant_id ctx) s = (r, s')" and ok: "\<And>ds. r = Inr ds \<Longrightarrow> corpus_ok (tenant_id ctx) ds"
    and request: "valid_retrieval_request request"
    and grants: "{''document.search'', ''document.read''} \<subseteq> permissions ctx"
    and out: "fst (facade_search (search reader) request ctx s) = Inl e"
  shows "case r of Inl e' \<Rightarrow> e = e' | Inr _ \<Rightarrow> e = Retrieval_capacity_exceeded"
proof -
  have "rq_top_k request \<le> 20" using request by (simp add: valid_retrieval_request_def)
  have a: "answers r (rq_top_k request) (fst (search reader request (tenant_id ctx) s))"
    by (rule search_answers [where r = r and s' = s']) (use rd ok \<open>rq_top_k request \<le> 20\<close> in auto)
  have "facade_search (search reader) request ctx s = facade_search_inner (search reader) request (tenant_id ctx) s"
    using grants by (simp add: facade_search_def authorized_nested)
  with out request a show ?thesis
    by (cases "search reader request (tenant_id ctx) s")
      (auto simp: facade_search_inner_def thenP_def bindP_def requireP_def returnP_def raiseP_def answers_def
        split: sum.splits option.splits if_splits)
qed

end

interpretation keyword_answers: answering_strategy "keyword_search words limit"
  for words and limit
proof
  fix reader :: "'a corpus" and t s r s' and request :: retrieval_request
  assume rd: "reader t s = (r, s')" and ok: "\<And>ds. r = Inr ds \<Longrightarrow> corpus_ok t ds" and k: "rq_top_k request \<le> 20"
  have name: "strategy_pattern ''keyword_overlap_v1''" by (simp add: strategy_pattern_def pattern_defs)
  show "answers r (rq_top_k request) (fst (keyword_search words limit reader request t s))"
  proof (cases r)
    case (Inl e)
    then show ?thesis using rd answers_empty [OF name]
      by (auto simp: keyword_search_def bindP_def returnP_def answers_def)
  next
    case (Inr ds)
    obtain cands where c: "overlap_candidates words (set (words (rq_query request))) t ds = Inr cands" "selection_of ds cands"
      using overlap_selection [OF ok [OF Inr]] by blast
    show ?thesis
      using rd Inr c answers_empty [OF name] answers_selected [OF ok [OF Inr] c(2) k name]
      by (auto simp: keyword_search_def bindP_def returnP_def liftR_def)
  qed
qed

interpretation bm25_answers: answering_strategy "bm25_search words cfg"
  for words and cfg
proof
  fix reader :: "'a corpus" and t s r s' and request :: retrieval_request
  assume rd: "reader t s = (r, s')" and ok: "\<And>ds. r = Inr ds \<Longrightarrow> corpus_ok t ds" and k: "rq_top_k request \<le> 20"
  have name: "strategy_pattern ''bm25_v1''" by (simp add: strategy_pattern_def pattern_defs)
  show "answers r (rq_top_k request) (fst (bm25_search words cfg reader request t s))"
  proof (cases r)
    case (Inl e)
    then show ?thesis using rd answers_empty [OF name]
      by (auto simp: bm25_search_def Let_def bindP_def returnP_def answers_def)
  next
    case (Inr ds)
    show ?thesis
      using rd Inr counted_pairs [OF ok [OF Inr], of words] answers_empty [OF name]
        answers_selected [OF ok [OF Inr] bm25_selection k name]
      by (auto simp: bm25_search_def Let_def bindP_def returnP_def liftR_def)
  qed
qed

section \<open>Over the document store\<close>

lemma distinct_by_groups:
  "(\<And>d. distinct (map g (filter (\<lambda>r. k r = d) xs))) \<Longrightarrow> distinct (map (\<lambda>r. (k r, g r)) xs)"
proof (induction xs)
  case (Cons x xs)
  have "distinct (map g (filter (\<lambda>r. k r = d) xs))" for d
    using Cons.prems [of d] by (simp split: if_splits)
  moreover have "(k x, g x) \<notin> set (map (\<lambda>r. (k r, g r)) xs)"
    using Cons.prems [of "k x"] by (auto simp: image_iff)
  ultimately show ?case using Cons.IH by simp
qed simp

lemma current_row_unique:
  assumes inv: "versions_inv db"
  shows "distinct (map vr_document_id (current_rows db t))"
proof -
  let ?key = "\<lambda>r. ((vr_tenant r, vr_document_id r), vr_version r)"
  have "distinct (map vr_version (filter (\<lambda>r. (vr_tenant r, vr_document_id r) = td) (db_versions db)))" for td
  proof -
    have "filter (\<lambda>r. (vr_tenant r, vr_document_id r) = td) (db_versions db) = filter (of_document (fst td) (snd td)) (db_versions db)"
      by (rule filter_cong) (auto simp: of_document_def)
    moreover have "distinct (map vr_version (filter (of_document (fst td) (snd td)) (db_versions db)))"
      using inv unfolding versions_inv_def by (metis distinct_upt)
    ultimately show ?thesis by simp
  qed
  then have "distinct (map ?key (db_versions db))" by (rule distinct_by_groups)
  then have keys: "distinct (map ?key (current_rows db t))" unfolding current_rows_def by (rule distinct_map_filter)
  have "?key r = ?key r'" if "r \<in> set (current_rows db t)" "r' \<in> set (current_rows db t)"
      "vr_document_id r = vr_document_id r'" for r r'
    using that by (auto simp: current_rows_def list_ex_iff not_less intro: le_antisym)
  then have "inj_on vr_document_id (set (current_rows db t))"
    using keys unfolding distinct_map inj_on_def by blast
  then show ?thesis using keys by (simp add: distinct_map)
qed

text \<open>A read of the latest documents fails at its limits only, and what it returns can be searched.\<close>

lemma read_latest_outcome:
  assumes inv: "versions_inv db" and t: "tenant_pattern t" and limits: "positive_int md" "positive_int mb"
  shows "read_latest_documents jb t md mb db = Inl Document_corpus_limit_exceeded \<or>
    (\<exists>rs. read_latest_documents jb t md mb db = Inr (rs, db) \<and> corpus_ok t rs)"
proof -
  let ?rows = "sort_key vr_document_id (current_rows db t)"
  have rows: "row_ok r \<and> vr_tenant r = t" if "r \<in> set ?rows" for r
    using that inv by (auto simp: current_rows_def versions_inv_def)
  have dec: "mapR decode_version ?rows = Inr (map (\<lambda>r. the (vr_snapshot r)) ?rows)"
    using rows by (intro mapR_Inr row_ok_decode) blast
  have ids: "map sv_document_id (map (\<lambda>r. the (vr_snapshot r)) ?rows) = map vr_document_id ?rows"
    using rows row_okD by (fastforce simp: comp_def)
  have "distinct (map vr_document_id ?rows)"
    using current_row_unique [OF inv, of t] by (simp add: distinct_map)
  then have "corpus_ok t (map (\<lambda>r. the (vr_snapshot r)) ?rows)"
    using rows row_okD by (fastforce simp: corpus_ok_def ids simp del: map_map)
  then show ?thesis using t limits dec by (simp add: read_latest_documents_def Let_def)
qed


end
