(* ===== verification/Retrieval_Demo.thy ===== *)
theory Retrieval_Demo
  imports Retrieval Evaluation
begin

text \<open>
  The retrieval baseline (\<open>retrieval/evaluate_demo.py\<close>): four synthetic runbooks are chunked and stored,
  seven labelled queries are searched under one strategy, and the metrics are averaged. The word
  splitter, \<open>math.log1p\<close>, the stored size of a row and the creation time are parameters. The last lemma
  evaluates the keyword baseline to the figures the repository's tests expect of it.
\<close>

section \<open>The data set\<close>

definition baseline_documents :: "(string \<times> string) list" where
  "baseline_documents =
     [(''Webhook recovery'', ''Retry webhook timeout failures with exponential backoff.''),
      (''Credentials'', ''Refresh expired credentials before reconnecting the CRM integration.''),
      (''Duplicate events'', ''Use an idempotency key to prevent duplicate event processing.''),
      (''Rate limits'', ''For HTTP 429 rate limits, respect Retry-After before sending again.'')]"

definition baseline_cases :: "(string \<times> string \<times> nat list) list" where
  "baseline_cases =
     [(''literal_timeout'', ''webhook timeout'', [1]),
      (''literal_credentials'', ''expired credentials'', [2]),
      (''literal_duplicates'', ''duplicate event'', [3]),
      (''literal_rate_limit'', ''429 rate limits'', [4]),
      (''paraphrased_credentials'', ''renew authentication secrets'', [2]),
      (''paraphrased_duplicates'', ''avoid repeated execution'', [3]),
      (''two_recovery_sources'', ''timeout credentials'', [1, 2])]"

text \<open>\<open>UUID(int=number, version=4)\<close> for a number of one digit.\<close>

definition baseline_uuid :: "nat \<Rightarrow> string" where
  "baseline_uuid n = ''00000000-0000-4000-8000-00000000000'' @ [char_of (48 + n)]"

definition baseline_options :: chunking_options where
  "baseline_options = \<lparr>chunk_size = 500, overlap = 0\<rparr>"

definition runbook :: "rat \<Rightarrow> nat \<Rightarrow> string \<times> string \<Rightarrow> exn + stored_version" where
  "runbook created number d =
     (let request = \<lparr>cr_text = ucs (snd d), cr_options = baseline_options\<rparr>
      in if \<not> valid_chunking_request request then Inl Validation_error
         else bindR (character_chunking request) (\<lambda>chunks.
           validate_stored \<lparr>sv_document_id = baseline_uuid number, sv_tenant_id = ''evaluation'', sv_version = 1,
             sv_created_at = created,
             sv_document = \<lparr>di_title = ucs (fst d), di_text = ucs (snd d), di_source_ref = None\<rparr>,
             sv_chunking = chunks\<rparr>))"

fun store_runbooks :: "rat \<Rightarrow> nat \<Rightarrow> (string \<times> string) list \<Rightarrow> doc_db \<Rightarrow> exn + doc_db" where
  "store_runbooks created number [] db = Inr db"
| "store_runbooks created number (d # ds) db =
     bindR (runbook created number d) (\<lambda>r.
     bindR (create_version r db) (\<lambda>(_, db'). store_runbooks created (number + 1) ds db'))"

section \<open>One report\<close>

definition evaluation_context :: tool_context where
  "evaluation_context = \<lparr>tenant_id = ''evaluation'', permissions = {''document.search'', ''document.read''}\<rparr>"

definition stored_corpus :: "(version_row \<Rightarrow> nat) \<Rightarrow> doc_db corpus" where
  "stored_corpus row_bytes t = runTx (read_latest_documents row_bytes t (PyInt 20) (PyInt 8000000))"

text \<open>\<open>build_keyword_retrieval\<close> and \<open>build_bm25_retrieval\<close> with their defaults.\<close>

definition baseline_retriever ::
  "(ustr \<Rightarrow> ustr list) \<Rightarrow> (rat \<Rightarrow> rat) \<Rightarrow> (version_row \<Rightarrow> nat) \<Rightarrow> string \<Rightarrow> exn + doc_db retriever" where
  "baseline_retriever words log1p row_bytes strategy =
     (if strategy = ''keyword_overlap'' then Inr (keyword_search words 100000 (stored_corpus row_bytes))
      else if strategy = ''bm25''
      then bindR (make_bm25 (PyFloat (6/5)) (PyFloat (3/4)) (PyInt 20) (PyInt 8000000) (PyInt 100000) log1p)
             (\<lambda>cfg. Inr (bm25_search words cfg (stored_corpus row_bytes)))
      else Inl Value_error)"

definition baseline_request :: "string \<Rightarrow> int \<Rightarrow> exn + retrieval_request" where
  "baseline_request query k = parse_retrieval_request [(''query'', J_str (ucs query)), (''top_k'', J_int k)]"

record baseline_row =
  dr_case_id :: string
  dr_query :: string
  dr_metrics :: query_metrics
  dr_expected :: "nat list"
  dr_retrieved :: "string list"

definition evaluate_case ::
  "doc_db retriever \<Rightarrow> int \<Rightarrow> doc_db \<Rightarrow> string \<times> string \<times> nat list \<Rightarrow> exn + string \<times> baseline_row" where
  "evaluate_case retriever k db c =
     (case c of (case_id, query, numbers) \<Rightarrow>
       bindR (baseline_request query k) (\<lambda>request.
       bindR (fst (facade_search retriever request evaluation_context db)) (\<lambda>result.
       bindR (evaluate_result result
           (fset_of_list (map (\<lambda>n. \<lparr>sr_document_id = baseline_uuid n, sr_version = 1, sr_chunk = 0\<rparr>) numbers)) (PyInt k)) (\<lambda>measured.
       Inr (rs_strategy result,
            \<lparr>dr_case_id = case_id, dr_query = query, dr_metrics = measured, dr_expected = numbers,
             dr_retrieved = map pa_document_id (rs_passages result)\<rparr>)))))"

record baseline_report =
  rp_strategy :: string
  rp_dataset :: string
  rp_k :: int
  rp_queries :: "baseline_row list"
  rp_mean_recall :: rat
  rp_mrr :: rat

definition run_demo ::
  "(ustr \<Rightarrow> ustr list) \<Rightarrow> (rat \<Rightarrow> rat) \<Rightarrow> (version_row \<Rightarrow> nat) \<Rightarrow> rat \<Rightarrow> string \<Rightarrow> int \<Rightarrow> exn + baseline_report" where
  "run_demo words log1p row_bytes created strategy k =
     bindR (requireR (strategy \<in> {''keyword_overlap'', ''bm25''}) Value_error) (\<lambda>_.
     bindR (baseline_request ''Validate evaluation cutoff'' k) (\<lambda>_.
     bindR (store_runbooks created 1 baseline_documents empty_doc_db) (\<lambda>db.
     bindR (baseline_retriever words log1p row_bytes strategy) (\<lambda>retriever.
     bindR (mapR (evaluate_case retriever k db) baseline_cases) (\<lambda>rows.
     bindR (summarize_queries (map (dr_metrics \<circ> snd) rows)) (\<lambda>(recall, mrr).
     Inr \<lparr>rp_strategy = fst (last rows), rp_dataset = ''synthetic_integration_runbooks_v1'', rp_k = k,
          rp_queries = map snd rows, rp_mean_recall = recall, rp_mrr = mrr\<rparr>))))))"

definition run_comparison ::
  "(ustr \<Rightarrow> ustr list) \<Rightarrow> (rat \<Rightarrow> rat) \<Rightarrow> (version_row \<Rightarrow> nat) \<Rightarrow> rat \<Rightarrow> int \<Rightarrow> exn + baseline_report list" where
  "run_comparison words log1p row_bytes created k =
     mapR (\<lambda>strategy. run_demo words log1p row_bytes created strategy k) [''keyword_overlap'', ''bm25'']"

text \<open>The splitter on ASCII text: lower case, and maximal runs of letters, digits and underscores.\<close>

definition lower :: "nat \<Rightarrow> nat" where
  "lower c = (if 65 \<le> c \<and> c \<le> 90 then c + 32 else c)"

definition word_char :: "nat \<Rightarrow> bool" where
  "word_char c \<longleftrightarrow> 48 \<le> c \<and> c \<le> 57 \<or> 97 \<le> c \<and> c \<le> 122 \<or> c = 95"

fun split_words :: "ustr \<Rightarrow> ustr \<Rightarrow> ustr list" where
  "split_words w [] = (if w = [] then [] else [rev w])"
| "split_words w (c # cs) =
     (if word_char c then split_words (c # w) cs
      else if w = [] then split_words [] cs else rev w # split_words [] cs)"

definition ascii_words :: "ustr \<Rightarrow> ustr list" where
  "ascii_words s = split_words [] (map lower s)"

section \<open>The keyword baseline\<close>

text \<open>A runbook fits one window, so its snapshot has one chunk.\<close>

definition stored_runbook :: "rat \<Rightarrow> nat \<Rightarrow> string \<times> string \<Rightarrow> stored_version" where
  "stored_runbook created n d =
     \<lparr>sv_document_id = baseline_uuid n, sv_tenant_id = ''evaluation'', sv_version = 1, sv_created_at = created,
      sv_document = \<lparr>di_title = ucs (fst d), di_text = ucs (snd d), di_source_ref = None\<rparr>,
      sv_chunking = \<lparr>cs_strategy = ''character_window_v1'', cs_options = baseline_options,
        cs_chunks = [\<lparr>ch_index = 0, ch_text = ucs (snd d), ch_start = 0, ch_end = length (snd d)\<rparr>]\<rparr>\<rparr>"

definition short_runbook :: "string \<times> string \<Rightarrow> bool" where
  "short_runbook d \<longleftrightarrow> fst d \<noteq> [] \<and> length (fst d) \<le> 256 \<and> length (snd d) \<le> 500 \<and> \<not> is_space (of_char (hd (snd d))) \<and> snd d \<noteq> []"

lemma stored_runbook_valid:
  assumes d: "short_runbook d"
  shows "valid_stored (stored_runbook created n d)"
proof -
  have "py_strip (ucs (snd d)) \<noteq> []" using d by (cases "snd d") (auto simp: py_strip_Nil_iff short_runbook_def ucs_def)
  moreover have "1 \<le> length (snd d)" using d by (cases "snd d") (auto simp: short_runbook_def)
  ultimately show ?thesis
    using d by (simp add: valid_stored_def stored_runbook_def valid_document_input_def valid_title_def valid_text_def
        valid_source_ref_def valid_chunking_result_def valid_options_def baseline_options_def valid_chunk_def
        saved_chunks_ok_def short_runbook_def pattern_defs py_slice_def Suc_le_eq)
qed

lemma runbook_stored:
  assumes d: "short_runbook d"
  shows "runbook created n d = Inr (stored_runbook created n d)"
proof -
  let ?r = "\<lparr>cr_text = ucs (snd d), cr_options = baseline_options\<rparr>"
  have "valid_text (ucs (snd d))" using stored_runbook_valid [OF d] by (simp add: valid_stored_def stored_runbook_def valid_document_input_def)
  then have r: "valid_chunking_request ?r" by (simp add: valid_chunking_request_def valid_options_def baseline_options_def)
  have "window_split ?r 1000 2000000 = Inr [\<lparr>ch_index = 0, ch_text = ucs (snd d), ch_start = 0, ch_end = length (snd d)\<rparr>]"
    using d unfolding window_split_eq [OF r]
    by (simp add: baseline_options_def window_count_def window_def py_slice_def short_runbook_def)
  then show ?thesis
    using r stored_runbook_valid [OF d] by (simp add: runbook_def Let_def character_chunking_eq validate_stored_def stored_runbook_def)
qed

definition row_of_runbook :: "rat \<Rightarrow> nat \<Rightarrow> string \<times> string \<Rightarrow> version_row" where
  "row_of_runbook created n d =
     \<lparr>vr_tenant = ''evaluation'', vr_document_id = baseline_uuid n, vr_version = 1, vr_snapshot = Some (stored_runbook created n d)\<rparr>"

lemma decode_runbook: "short_runbook d \<Longrightarrow> decode_version (row_of_runbook created n d) = Inr (stored_runbook created n d)"
  using stored_runbook_valid by (simp add: decode_version_def row_of_runbook_def) (simp add: stored_runbook_def)

definition baseline_db :: "rat \<Rightarrow> doc_db" where
  "baseline_db created =
     \<lparr>db_versions = map (\<lambda>n. row_of_runbook created n (baseline_documents ! (n - 1))) [1, 2, 3, 4], db_jobs = []\<rparr>"

lemma baseline_short: "\<forall>d \<in> set baseline_documents. short_runbook d"
  by (simp add: baseline_documents_def short_runbook_def is_space_def)

lemma baseline_uuid_eq [simp]: "n < 10 \<Longrightarrow> m < 10 \<Longrightarrow> baseline_uuid n = baseline_uuid m \<longleftrightarrow> n = m"
proof -
  assume "n < 10" "m < 10"
  then have "char_of (48 + n) = (char_of (48 + m) :: char) \<longleftrightarrow> n = m"
    by (metis add_left_cancel digit_char)
  then show ?thesis by (simp add: baseline_uuid_def)
qed

lemma store_one:
  assumes "short_runbook d" and "list_all (\<lambda>r. vr_document_id r \<noteq> baseline_uuid n) (db_versions db)"
  shows "create_version (stored_runbook created n d) db
    = Inr (stored_runbook created n d, db\<lparr>db_versions := db_versions db @ [row_of_runbook created n d]\<rparr>)"
proof -
  have "filter (of_document ''evaluation'' (baseline_uuid n)) (db_versions db) = []"
    using assms(2) by (auto simp: filter_empty_conv of_document_def list_all_iff)
  then show ?thesis
    using stored_runbook_valid [OF assms(1)]
    by (simp add: create_version_def validate_stored_def append_version_def check_identity_def latest_version_def
        row_of_runbook_def) (simp add: stored_runbook_def pattern_defs)
qed

lemma runbooks_stored: "store_runbooks created 1 baseline_documents empty_doc_db = Inr (baseline_db created)"
  using baseline_short
  by (simp add: baseline_documents_def runbook_stored store_one empty_doc_db_def row_of_runbook_def baseline_db_def)
    (simp add: eval_nat_numeral)

lemma baseline_latest:
  assumes "sum_list (map row_bytes (db_versions (baseline_db created))) \<le> 8000000"
  shows "read_latest_documents row_bytes ''evaluation'' (PyInt 20) (PyInt 8000000) (baseline_db created)
    = Inr (map (\<lambda>n. stored_runbook created n (baseline_documents ! (n - 1))) [1, 2, 3, 4], baseline_db created)"
proof -
  have rows: "current_rows (baseline_db created) ''evaluation'' = db_versions (baseline_db created)"
    by (simp add: current_rows_def baseline_db_def row_of_runbook_def)
  have "sorted (map vr_document_id (db_versions (baseline_db created)))"
    by (simp add: baseline_db_def row_of_runbook_def baseline_uuid_def less_char_def)
  then have sort: "sort_key vr_document_id (db_versions (baseline_db created)) = db_versions (baseline_db created)"
    by (rule sort_key_id_if_sorted)
  have "\<forall>n \<in> {1, 2, 3, 4}. short_runbook (baseline_documents ! (n - 1))"
    using baseline_short by (simp add: baseline_documents_def)
  then have dec: "mapR decode_version (db_versions (baseline_db created))
      = Inr (map (\<lambda>n. stored_runbook created n (baseline_documents ! (n - 1))) [1, 2, 3, 4])"
    by (simp add: baseline_db_def decode_runbook)
  show ?thesis
    using assms unfolding read_latest_documents_def rows sort dec Let_def
    by (simp add: positive_int_def type_is_int_def pattern_defs) (simp add: baseline_db_def)
qed

text \<open>The words of the runbooks and of the queries.\<close>

lemma runbook_words:
  "ascii_words (ucs (snd (baseline_documents ! 0))) = map ucs [''retry'', ''webhook'', ''timeout'', ''failures'', ''with'', ''exponential'', ''backoff'']"
  "ascii_words (ucs (snd (baseline_documents ! Suc 0))) = map ucs [''refresh'', ''expired'', ''credentials'', ''before'', ''reconnecting'', ''the'', ''crm'', ''integration'']"
  "ascii_words (ucs (snd (baseline_documents ! 2))) = map ucs [''use'', ''an'', ''idempotency'', ''key'', ''to'', ''prevent'', ''duplicate'', ''event'', ''processing'']"
  "ascii_words (ucs (snd (baseline_documents ! 3))) = map ucs [''for'', ''http'', ''429'', ''rate'', ''limits'', ''respect'', ''retry'', ''after'', ''before'', ''sending'', ''again'']"
  by code_simp+

lemma query_words:
  "ascii_words (ucs ''webhook timeout'') = map ucs [''webhook'', ''timeout'']"
  "ascii_words (ucs ''expired credentials'') = map ucs [''expired'', ''credentials'']"
  "ascii_words (ucs ''duplicate event'') = map ucs [''duplicate'', ''event'']"
  "ascii_words (ucs ''429 rate limits'') = map ucs [''429'', ''rate'', ''limits'']"
  "ascii_words (ucs ''renew authentication secrets'') = map ucs [''renew'', ''authentication'', ''secrets'']"
  "ascii_words (ucs ''avoid repeated execution'') = map ucs [''avoid'', ''repeated'', ''execution'']"
  "ascii_words (ucs ''timeout credentials'') = map ucs [''timeout'', ''credentials'']"
  by code_simp+

text \<open>One search: the candidates are the runbooks that share a word with the query, one passage each.\<close>

abbreviation baseline_runbook :: "rat \<Rightarrow> nat \<Rightarrow> stored_version" where
  "baseline_runbook created n \<equiv> stored_runbook created n (baseline_documents ! (n - 1))"

abbreviation baseline_chunk :: "nat \<Rightarrow> text_chunk" where
  "baseline_chunk n \<equiv> \<lparr>ch_index = 0, ch_text = ucs (snd (baseline_documents ! (n - 1))), ch_start = 0,
     ch_end = length (snd (baseline_documents ! (n - 1)))\<rparr>"

definition shared_words :: "string list \<Rightarrow> nat \<Rightarrow> nat" where
  "shared_words qs n = card (set (map ucs qs) \<inter> set (ascii_words (ucs (snd (baseline_documents ! (n - 1))))))"

lemma baseline_candidates:
  "overlap_candidates ascii_words (set (map ucs qs)) ''evaluation'' (map (baseline_runbook created) [1, 2, 3, 4])
     = Inr (map (\<lambda>n. (of_nat (shared_words qs n), baseline_runbook created n, baseline_chunk n))
              (filter (\<lambda>n. shared_words qs n \<noteq> 0) [1, 2, 3, 4]))"
  by (simp add: overlap_candidates_def stored_runbook_def shared_words_def Let_def)

definition baseline_result :: "rat \<Rightarrow> nat list \<Rightarrow> retrieval_result" where
  "baseline_result created ns =
     \<lparr>rs_strategy = ''keyword_overlap_v1'', rs_passages = map (\<lambda>n. to_passage (baseline_runbook created n) (baseline_chunk n)) ns\<rparr>"

lemma baseline_document_short: "n \<in> {1, 2, 3, 4} \<Longrightarrow> short_runbook (baseline_documents ! (n - 1))"
  using baseline_short nth_mem [of "n - 1" baseline_documents] by (auto simp: baseline_documents_def)

lemma baseline_passage_valid: "short_runbook (baseline_documents ! (n - 1)) \<Longrightarrow> valid_passage (to_passage (baseline_runbook created n) (baseline_chunk n))"
  using stored_runbook_valid [of "baseline_documents ! (n - 1)" created n]
  by (simp add: valid_passage_def to_passage_def valid_stored_def valid_document_input_def valid_chunking_result_def)
    (simp add: stored_runbook_def)

lemma baseline_result_valid:
  assumes "set ns \<subseteq> {1, 2, 3, 4}" and "length ns \<le> 1"
  shows "valid_retrieval_result (baseline_result created ns)"
proof (cases ns)
  case (Cons n ns')
  with assms have "ns = [n]" "n \<in> {1, 2, 3, 4}" by auto
  then show ?thesis using baseline_passage_valid [OF baseline_document_short]
    by (simp add: valid_retrieval_result_def baseline_result_def strategy_pattern_def pattern_defs)
qed (simp add: valid_retrieval_result_def baseline_result_def strategy_pattern_def pattern_defs)

lemma baseline_search:
  assumes bytes: "sum_list (map row_bytes (db_versions (baseline_db created))) \<le> 8000000"
    and words: "ascii_words query = map ucs qs" "qs \<noteq> []" and query: "1 \<le> length query" "length query \<le> 2048"
    and cands: "filter (\<lambda>n. shared_words qs n \<noteq> 0) [1, 2, 3, 4] = ms"
    and order: "sorted (map (\<lambda>n. (- of_nat (shared_words qs n) :: rat, baseline_uuid n)) ms)" and ns: "ns = take 1 ms"
  shows "facade_search (keyword_search ascii_words 100000 (stored_corpus row_bytes)) \<lparr>rq_query = query, rq_top_k = 1\<rparr>
     evaluation_context (baseline_db created) = (Inr (baseline_result created ns), baseline_db created)"
proof -
  let ?cand = "\<lambda>n. (of_nat (shared_words qs n) :: rat, baseline_runbook created n, baseline_chunk n)"
  have "sorted (map rank_key (map ?cand ms))"
    using order by (simp add: comp_def rank_key_def stored_runbook_def sorted_wrt_map less_eq_prod_def) (auto simp: less_eq_prod_def elim!: sorted_wrt_mono_rel [rotated])
  then have sort: "map snd (take 1 (sort_key rank_key (map ?cand ms))) = map (\<lambda>n. (baseline_runbook created n, baseline_chunk n)) ns"
    by (simp add: sort_key_id_if_sorted ns take_map [symmetric] comp_def)
  have "set ns \<subseteq> set ms" unfolding ns by (rule set_take_subset)
  also have "set ms \<subseteq> set [1, 2, 3, 4]" unfolding cands [symmetric] by (rule filter_is_subset)
  finally have ns4: "set ns \<subseteq> {1, 2, 3, 4}" "length ns \<le> 1" by (simp_all add: ns)
  have "length (ch_text (baseline_chunk n)) \<le> 500" if "n \<in> set ns" for n
    using that ns4(1) baseline_document_short [of n] by (auto simp: short_runbook_def)
  then have "sum_list (map (\<lambda>n. length (ch_text (baseline_chunk n))) ns) \<le> 500"
    using ns4(2) by (cases ns) auto
  then have sel: "select_passages ''keyword_overlap_v1'' 100000 (map (\<lambda>n. (baseline_runbook created n, baseline_chunk n)) ns)
      = Inr (Some (baseline_result created ns))"
    using baseline_result_valid [OF ns4] by (simp add: select_passages_def baseline_result_def comp_def)
  have "keyword_search ascii_words 100000 (stored_corpus row_bytes) \<lparr>rq_query = query, rq_top_k = 1\<rparr> ''evaluation''
      (baseline_db created) = (Inr (Some (baseline_result created ns)), baseline_db created)"
    using words(2) baseline_latest [OF bytes] sel sort
    by (simp only: keyword_search_def Let_def retrieval_request.simps words(1) stored_corpus_def bindP_def runTx_def
        sum.case prod.case liftR_def baseline_candidates cands set_empty map_is_Nil_conv if_False)
  moreover have "length (rs_passages (baseline_result created ns)) \<le> 1" using ns4(2) by (simp add: baseline_result_def)
  ultimately show ?thesis
    using query baseline_result_valid [OF ns4]
    by (simp add: facade_search_def authorized_nested evaluation_context_def facade_search_inner_def thenP_def bindP_def
        requireP_def returnP_def valid_retrieval_request_def)
qed

text \<open>The metrics of a search whose passages are the runbooks \<open>ns\<close>.\<close>

lemma baseline_case:
  assumes bytes: "sum_list (map row_bytes (db_versions (baseline_db created))) \<le> 8000000"
    and words: "ascii_words (ucs query) = map ucs qs" "qs \<noteq> []" and query: "1 \<le> length query" "length query \<le> 2048"
      "\<not> is_space (of_char (hd query))" "\<not> is_space (of_char (last query))"
    and cands: "filter (\<lambda>n. shared_words qs n \<noteq> 0) [1, 2, 3, 4] = ms"
    and order: "sorted (map (\<lambda>n. (- of_nat (shared_words qs n) :: rat, baseline_uuid n)) ms)" and ns: "ns = take 1 ms"
    and measured: "evaluate_result (baseline_result created ns)
        (fset_of_list (map (\<lambda>n. \<lparr>sr_document_id = baseline_uuid n, sr_version = 1, sr_chunk = 0\<rparr>) numbers)) (PyInt 1) = Inr m"
  shows "evaluate_case (keyword_search ascii_words 100000 (stored_corpus row_bytes)) 1 (baseline_db created) (case_id, query, numbers)
    = Inr (''keyword_overlap_v1'', \<lparr>dr_case_id = case_id, dr_query = query, dr_metrics = m, dr_expected = numbers,
        dr_retrieved = map baseline_uuid ns\<rparr>)"
proof -
  have strip: "py_strip (ucs query) = ucs query"
  proof -
    have "query \<noteq> []" using query(1) by auto
    then have "dropWhile is_space (ucs query) = ucs query" "dropWhile is_space (rev (ucs query)) = rev (ucs query)"
      using query(3,4) by (simp_all add: dropWhile_eq_self_iff hd_rev ucs_def last_map hd_map)
    then show ?thesis by (simp add: py_strip_def strip_by_def)
  qed
  have "baseline_request query 1 = Inr \<lparr>rq_query = ucs query, rq_top_k = 1\<rparr>"
    using query by (simp add: baseline_request_def parse_retrieval_request_def only_fields_def Let_def strip valid_retrieval_request_def)
  then show ?thesis
    using measured baseline_search [OF bytes words _ _ cands order ns] query
    by (simp add: evaluate_case_def) (simp add: baseline_result_def comp_def to_passage_def stored_runbook_def)
qed

text \<open>The words each query shares with each runbook.\<close>

lemma shared_words_list:
  "shared_words qs n = length (filter (\<lambda>w. ucs w \<in> set (ascii_words (ucs (snd (baseline_documents ! (n - 1)))))) (remdups qs))"
proof -
  let ?W = "set (ascii_words (ucs (snd (baseline_documents ! (n - 1)))))"
  have "set (map ucs qs) \<inter> ?W = ucs ` set (filter (\<lambda>w. ucs w \<in> ?W) (remdups qs))" by auto
  moreover have "card (ucs ` set (filter (\<lambda>w. ucs w \<in> ?W) (remdups qs))) = card (set (filter (\<lambda>w. ucs w \<in> ?W) (remdups qs)))"
    by (rule card_image) (simp add: inj_on_def)
  ultimately show ?thesis by (simp add: shared_words_def distinct_card del: set_filter)
qed

lemma shared_words_baseline:
  "filter (\<lambda>n. shared_words [''webhook'', ''timeout''] n \<noteq> 0) [1, 2, 3, 4] = [1]"
  "filter (\<lambda>n. shared_words [''expired'', ''credentials''] n \<noteq> 0) [1, 2, 3, 4] = [2]"
  "filter (\<lambda>n. shared_words [''duplicate'', ''event''] n \<noteq> 0) [1, 2, 3, 4] = [3]"
  "filter (\<lambda>n. shared_words [''429'', ''rate'', ''limits''] n \<noteq> 0) [1, 2, 3, 4] = [4]"
  "filter (\<lambda>n. shared_words [''renew'', ''authentication'', ''secrets''] n \<noteq> 0) [1, 2, 3, 4] = []"
  "filter (\<lambda>n. shared_words [''avoid'', ''repeated'', ''execution''] n \<noteq> 0) [1, 2, 3, 4] = []"
  "filter (\<lambda>n. shared_words [''timeout'', ''credentials''] n \<noteq> 0) [1, 2, 3, 4] = [1, 2]"
  by (simp_all add: shared_words_list runbook_words)

lemma baseline_order:
  "sorted (map (\<lambda>n. (- of_nat (shared_words qs n) :: rat, baseline_uuid n)) [])"
  "sorted (map (\<lambda>n. (- of_nat (shared_words qs n) :: rat, baseline_uuid n)) [m])"
  "sorted (map (\<lambda>n. (- of_nat (shared_words [''timeout'', ''credentials''] n) :: rat, baseline_uuid n)) [1, 2])"
  by (simp_all add: shared_words_list runbook_words baseline_uuid_def less_char_def)

abbreviation labels :: "nat list \<Rightarrow> source_reference fset" where
  "labels numbers \<equiv> fset_of_list (map (\<lambda>n. \<lparr>sr_document_id = baseline_uuid n, sr_version = 1, sr_chunk = 0\<rparr>) numbers)"

lemma baseline_measured:
  "evaluate_result (baseline_result created [n]) (labels [n]) (PyInt 1) = Inr \<lparr>qm_recall = 1, qm_reciprocal_rank = 1\<rparr>"
  "evaluate_result (baseline_result created []) (labels [n]) (PyInt 1) = Inr \<lparr>qm_recall = 0, qm_reciprocal_rank = 0\<rparr>"
  "evaluate_result (baseline_result created [1]) (labels [1, 2]) (PyInt 1) = Inr \<lparr>qm_recall = 1/2, qm_reciprocal_rank = 1\<rparr>"
  by (simp_all add: evaluate_result_def baseline_result_def type_is_int_def to_passage_def stored_runbook_def source_key_def
      Let_def fcard_finsert_if finsert_commute)

definition baseline_outcome :: "string \<times> string \<times> nat list \<Rightarrow> rat \<Rightarrow> rat \<Rightarrow> nat list \<Rightarrow> string \<times> baseline_row" where
  "baseline_outcome c recall rank ns = (''keyword_overlap_v1'',
     \<lparr>dr_case_id = fst c, dr_query = fst (snd c), dr_metrics = \<lparr>qm_recall = recall, qm_reciprocal_rank = rank\<rparr>,
      dr_expected = snd (snd c), dr_retrieved = map baseline_uuid ns\<rparr>)"

lemma baseline_case_row:
  assumes "sum_list (map row_bytes (db_versions (baseline_db created))) \<le> 8000000"
    and "ascii_words (ucs (fst (snd c))) = map ucs qs"
    and "filter (\<lambda>n. shared_words qs n \<noteq> 0) [1, 2, 3, 4] = ms"
    and "sorted (map (\<lambda>n. (- of_nat (shared_words qs n) :: rat, baseline_uuid n)) ms)"
    and "evaluate_result (baseline_result created (take 1 ms)) (labels (snd (snd c))) (PyInt 1)
      = Inr \<lparr>qm_recall = recall, qm_reciprocal_rank = rank\<rparr>"
    and "qs \<noteq> []" and "1 \<le> length (fst (snd c)) \<and> length (fst (snd c)) \<le> 2048 \<and>
      \<not> is_space (of_char (hd (fst (snd c)))) \<and> \<not> is_space (of_char (last (fst (snd c))))"
  shows "evaluate_case (keyword_search ascii_words 100000 (stored_corpus row_bytes)) 1 (baseline_db created) c
    = Inr (baseline_outcome c recall rank (take 1 ms))"
  using baseline_case [OF assms(1,2,6) _ _ _ _ assms(3,4) refl assms(5), of "fst c"] assms(7)
  by (simp add: baseline_outcome_def)

lemma baseline_rows:
  assumes bytes: "sum_list (map row_bytes (db_versions (baseline_db created))) \<le> 8000000"
  shows "mapR (evaluate_case (keyword_search ascii_words 100000 (stored_corpus row_bytes)) 1 (baseline_db created)) baseline_cases
    = Inr (map (\<lambda>(c, recall, rank, ns). baseline_outcome c recall rank ns)
        (zip baseline_cases [(1, 1, [1]), (1, 1, [2]), (1, 1, [3]), (1, 1, [4]), (0, 0, []), (0, 0, []), (1/2, 1, [1])]))"
proof -
  note row = baseline_case_row [OF bytes]
  note hit = row [OF _ _ baseline_order(2)] and miss = row [OF _ _ baseline_order(1)] and both = row [OF _ _ baseline_order(3)]
  show ?thesis
    unfolding baseline_cases_def
    using hit [OF _ shared_words_baseline(1), of "(''literal_timeout'', ''webhook timeout'', [1])" 1 1]
      hit [OF _ shared_words_baseline(2), of "(''literal_credentials'', ''expired credentials'', [2])" 1 1]
      hit [OF _ shared_words_baseline(3), of "(''literal_duplicates'', ''duplicate event'', [3])" 1 1]
      hit [OF _ shared_words_baseline(4), of "(''literal_rate_limit'', ''429 rate limits'', [4])" 1 1]
      miss [OF _ shared_words_baseline(5), of "(''paraphrased_credentials'', ''renew authentication secrets'', [2])" 0 0]
      miss [OF _ shared_words_baseline(6), of "(''paraphrased_duplicates'', ''avoid repeated execution'', [3])" 0 0]
      both [OF _ shared_words_baseline(7), of "(''two_recovery_sources'', ''timeout credentials'', [1, 2])" "1/2" 1]
    by (simp add: query_words baseline_measured [simplified] is_space_def)
qed

text \<open>What the tests of the repository expect of the baseline: recall 4.5 / 7 and reciprocal rank 5 / 7.\<close>

lemma keyword_baseline:
  assumes bytes: "sum_list (map row_bytes (db_versions (baseline_db created))) \<le> 8000000"
  shows "\<exists>report. run_demo ascii_words log1p row_bytes created ''keyword_overlap'' 1 = Inr report \<and>
    rp_mean_recall report = 9 / 14 \<and> rp_mrr report = 5 / 7 \<and>
    map dr_retrieved (rp_queries report) = map (map baseline_uuid) [[1], [2], [3], [4], [], [], [1]]"
proof -
  have request: "baseline_request ''Validate evaluation cutoff'' 1 = Inr \<lparr>rq_query = ucs ''Validate evaluation cutoff'', rq_top_k = 1\<rparr>"
    by (simp add: baseline_request_def parse_retrieval_request_def only_fields_def Let_def valid_retrieval_request_def
        py_strip_def strip_by_def ucs_def is_space_def)
  define rows where "rows = map (\<lambda>(c, recall, rank, ns). baseline_outcome c recall rank ns)
      (zip baseline_cases [(1, 1, [1]), (1, 1, [2]), (1, 1, [3]), (1, 1, [4]), (0, 0, []), (0, 0, []), (1/2, 1, [1])])"
  have summary: "summarize_queries (map (dr_metrics \<circ> snd) rows) = Inr (9 / 14, 5 / 7)"
    by (simp add: rows_def baseline_cases_def baseline_outcome_def summarize_queries_def mean_of_def)
  have "run_demo ascii_words log1p row_bytes created ''keyword_overlap'' 1 =
    Inr \<lparr>rp_strategy = fst (last rows), rp_dataset = ''synthetic_integration_runbooks_v1'', rp_k = 1,
         rp_queries = map snd rows, rp_mean_recall = 9 / 14, rp_mrr = 5 / 7\<rparr>"
    by (simp add: run_demo_def request runbooks_stored [simplified] baseline_retriever_def baseline_rows [OF bytes, folded rows_def] summary)
  moreover have "map dr_retrieved (map snd rows) = map (map baseline_uuid) [[1], [2], [3], [4], [], [], [1]]"
    by (simp add: rows_def baseline_cases_def baseline_outcome_def)
  ultimately show ?thesis by simp
qed

text \<open>An unknown strategy is refused before the cutoff is looked at, and a cutoff outside 1 to 20 before anything is stored.\<close>

lemma run_demo_refuses:
  "strategy \<notin> {''keyword_overlap'', ''bm25''} \<Longrightarrow> run_demo words log1p row_bytes created strategy k = Inl Value_error"
  "strategy \<in> {''keyword_overlap'', ''bm25''} \<Longrightarrow> k < 1 \<or> 20 < k \<Longrightarrow>
     run_demo words log1p row_bytes created strategy k = Inl Validation_error"
  by (auto simp: run_demo_def requireR_def baseline_request_def parse_retrieval_request_def only_fields_def Let_def
      valid_retrieval_request_def)

text \<open>A report that is produced, by either strategy, averages numbers between 0 and 1 and covers every case.\<close>

lemma run_demo_report:
  assumes "run_demo words log1p row_bytes created strategy k = Inr report"
  shows "length (rp_queries report) = length baseline_cases \<and> rp_k report = k \<and>
    unit_interval (rp_mean_recall report) \<and> unit_interval (rp_mrr report)"
proof -
  from assms obtain db retriever rows where rows: "mapR (evaluate_case retriever k db) baseline_cases = Inr rows"
      and report: "summarize_queries (map (dr_metrics \<circ> snd) rows) = Inr (rp_mean_recall report, rp_mrr report)"
        "rp_queries report = map snd rows" "rp_k report = k"
    by (auto simp: run_demo_def)
  have metrics: "unit_interval (qm_recall (dr_metrics (snd r))) \<and> unit_interval (qm_reciprocal_rank (dr_metrics (snd r)))"
    if "r \<in> set rows" for r
  proof -
    from mapR_Inr_memD [OF rows that] obtain c where "evaluate_case retriever k db c = Inr r" by blast
    then obtain result relevant where "evaluate_result result relevant (PyInt k) = Inr (dr_metrics (snd r))"
      by (auto simp: evaluate_case_def split: prod.splits)
    then show ?thesis using relevance_facts [OF _ refl] by blast
  qed
  have "unit_interval (rp_mean_recall report) \<and> unit_interval (rp_mrr report)"
    by (rule summary_unit [OF report(1)]) (use metrics in auto)
  moreover have "length rows = length baseline_cases" using rows by (auto simp: mapR_Inr_iff dest: list_all2_lengthD)
  ultimately show ?thesis using report by simp
qed

end
