(* ===== verification/Service_Examples.thy ===== *)
theory Service_Examples
  imports Api_Examples Document_Api Crew_Api Evaluation Audit_Trail Agent_Demo Run_Submission Body_Limit Decision_Schema Observability
    Search_Outcomes Retrieval_Demo
begin

text \<open>
  Concrete states of the document and crew APIs, of the run table and of the evaluations, on which their
  properties are applied.
\<close>

section \<open>Documents over HTTP\<close>

definition demo_doc_context :: tool_context where
  "demo_doc_context = \<lparr>tenant_id = ''acme'', permissions = {''document.create'', ''document.read''}\<rparr>"

definition demo_doc_cfg :: doc_api_cfg where
  "demo_doc_cfg =
     \<lparr>dx_store = demo_cfg,
      dx_tenants = \<lparr>celery_queue_name = ''crewai'', tenant_api_keys = [''acme'' \<mapsto> ''k''],
        tenant_permissions = [''acme'' \<mapsto> {''document.create'', ''document.read''}]\<rparr>,
      dx_key_digest = id, dx_request_digest = demo_digest\<rparr>"

definition demo_doc_api :: doc_api where
  "demo_doc_api =
     \<lparr>dp_world = \<lparr>dw_db = empty_doc_db, dw_calls = 0, dw_env = (\<lambda>_ db. db), dw_clock = (\<lambda>_ _. 0), dw_fresh = (\<lambda>_. ''j1'')\<rparr>,
      dp_broker = [], dp_calls = 0, dp_fault = (\<lambda>_. None), dp_fresh = (\<lambda>_. ''d1''), dp_time = (\<lambda>_. 0)\<rparr>"

definition demo_body :: document_input where
  "demo_body = \<lparr>di_title = [116], di_text = [104, 105], di_source_ref = None\<rparr>"

lemma demo_body_valid: "valid_create_body demo_body"
  by (simp add: valid_create_body_def demo_body_def valid_document_input_def valid_title_def valid_text_def
      py_strip_Nil_iff is_space_def valid_source_ref_def encodes_def utf8_encode_def scalar_value_def)

lemma demo_doc_undisturbed: "undisturbed demo_doc_cfg demo_doc_api"
  by (simp add: undisturbed_def Ingestion.quiet_def demo_doc_cfg_def demo_doc_api_def demo_cfg_def)

lemma demo_doc_worker: "worker_context (dx_tenants demo_doc_cfg) (tenant_id demo_doc_context) = Inr demo_doc_context"
  by (simp add: worker_context_def make_context_def demo_doc_cfg_def demo_doc_context_def pattern_defs)

lemma demo_doc_new: "new_submission demo_doc_cfg (tenant_id demo_doc_context) ''k'' demo_doc_api"
  by (simp add: new_submission_def demo_doc_api_def demo_doc_context_def empty_doc_db_def key_pattern_def
      versions_of_def pattern_defs of_document_def)


lemma demo_doc_inv: "doc_api_inv demo_doc_cfg demo_doc_api"
  using trace_start [of "dx_store demo_doc_cfg" "dx_key_digest demo_doc_cfg" "dx_request_digest demo_doc_cfg"]
  by (auto simp: doc_api_inv_def demo_doc_api_def)

lemma document_deliveries_exist_witness:
  "doc_api_inv demo_doc_cfg (snd (create_document demo_doc_cfg demo_body True demo_doc_context ''k'' demo_doc_api))"
  by (rule document_deliveries_exist [OF demo_doc_inv]) blast

section \<open>Crew tasks\<close>

definition demo_crew_api :: crew_api where
  "demo_crew_api =
     \<lparr>ca_owners = Map.empty, ca_broker = [], ca_calls = 0, ca_env = (\<lambda>_ owners. owners), ca_fault = (\<lambda>_. None),
      ca_fresh = (\<lambda>_. ''task1''), ca_state = (\<lambda>_ _. ''PENDING''),
      ca_result = (\<lambda>_ _. \<lparr>tv_class = ''dict'', tv_encoded = Inr []\<rparr>)\<rparr>"

definition demo_crew_api_cfg :: crew_api_cfg where
  "demo_crew_api_cfg = \<lparr>cc_tenants = as_tenants demo_settings, cc_digest = (\<lambda>_. ''t'')\<rparr>"

definition demo_crew_request :: crew_request where
  "demo_crew_request = \<lparr>cq_agent_type = ucs ''research'', cq_message = [104]\<rparr>"

definition demo_crew_after :: crew_api where
  "demo_crew_after = snd (run_crew_api demo_crew_api_cfg demo_crew_request demo_submitter demo_crew_api)"

lemma demo_crew_published:
  "ca_broker demo_crew_after = [(''task1'', ''crewai.acme'', ''acme'', request_payload demo_crew_request)]"
  by (simp add: demo_crew_after_def run_crew_api_def demo_crew_api_cfg_def demo_submitter_def demo_settings_def
      tenant_queue_def pattern_defs bindP_def thenP_def liftR_def tryP_def getP_def returnP_def crew_register_def
      crew_outside_def register_owner_def send_crew_def demo_crew_api_def)

lemma crew_tasks_isolated_witness:
  "\<exists>e. fst (get_task_status demo_crew_api_cfg ''task1'' ''other'' demo_crew_after) = Inl e"
proof -
  have inv: "crew_api_inv demo_crew_api_cfg demo_crew_api" by (simp add: crew_api_inv_def demo_crew_api_def)
  have req: "valid_crew_request demo_crew_request"
    by (simp add: valid_crew_request_def demo_crew_request_def py_strip_Nil_iff is_space_def)
  from crew_tasks_isolated [OF inv req demo_crew_after_def] show ?thesis
    by (simp add: demo_crew_published)
qed

section \<open>Submissions of runs\<close>

lemma run_submission_idempotent_witness:
  "\<exists>row2. ru_id row2 = ''r1'' \<and> create_run id (demo_run_job\<lparr>jb_run_id := ''r7''\<rparr>) (PyInt 60) (Some ''k'') (\<lambda>_. 9)
     (empty_run_db\<lparr>db_runs := [new_run demo_run_job 0 60 (Some ''k'')]\<rparr>)
     = Inr (row2, empty_run_db\<lparr>db_runs := [new_run demo_run_job 0 60 (Some ''k'')]\<rparr>)"
proof -
  have "create_run id demo_run_job (PyInt 60) (Some ''k'') (\<lambda>_. 0) empty_run_db
      = Inr (new_run demo_run_job 0 60 (Some ''k''), empty_run_db\<lparr>db_runs := [new_run demo_run_job 0 60 (Some ''k'')]\<rparr>)"
    by (simp add: create_run_def is_finite_num_def empty_run_db_def find_run_def new_run_def Let_def)
  from run_submission_idempotent [OF this _ run_start [of demo_run_cfg],
      of "demo_run_job\<lparr>jb_run_id := ''r7''\<rparr>" "PyInt 60" "\<lambda>_. 9"]
  show ?thesis
    by (simp add: is_finite_num_def same_submission_def new_run_def) (simp add: demo_run_job_def)
qed

section \<open>Relevance\<close>

definition demo_hits :: retrieval_result where
  "demo_hits = \<lparr>rs_strategy = ''bm25'', rs_passages = [demo_passage]\<rparr>"

lemma demo_relevance: "\<exists>m. evaluate_result demo_hits {|demo_ref|} (PyInt 5) = Inr m \<and> qm_recall m = 1"
proof -
  have "\<exists>m. evaluate_result demo_hits {|demo_ref|} (PyInt 5) = Inr m"
    by (simp add: evaluate_result_def type_is_int_def Let_def)
  then obtain m where m: "evaluate_result demo_hits {|demo_ref|} (PyInt 5) = Inr m" by blast
  have "map source_key (take (nat \<lfloor>num_value (PyInt 5)\<rfloor>) (rs_passages demo_hits)) = [demo_ref]"
    by (simp add: demo_hits_def source_key_def demo_passage_def demo_ref_def)
  with relevance_facts [OF m refl] m show ?thesis by auto
qed

section \<open>Tool schemas\<close>

text \<open>Two tools whose definitions share a name, as in the tests of the schema.\<close>

definition demo_ref_to :: "string \<Rightarrow> json" where
  "demo_ref_to name = J_object [(''$ref'', make_ref (ucs name))]"

definition demo_decision_schema :: arguments where
  "demo_decision_schema =
     [(''oneOf'', J_list [demo_ref_to ''ToolCallDecision'', demo_ref_to ''DocumentFinalAnswerDecision'']),
      (''discriminator'', J_object [(''mapping'', J_object [(''tool_call'', make_ref (ucs ''ToolCallDecision''))])]),
      (''$defs'', J_object [(''ToolCallDecision'', J_object []), (''DocumentFinalAnswerDecision'', J_object [])])]"

definition demo_tool_schema :: "string \<Rightarrow> string \<Rightarrow> tool_schema" where
  "demo_tool_schema name ty =
     \<lparr>ts_name = ucs name, ts_description = ucs ''d'',
      ts_parameters = [(''$defs'', J_object [(''Common'', J_object [(''type'', J_str (ucs ty))])]),
                       (''properties'', J_object [(''item'', demo_ref_to ''Common'')])]\<rparr>"

definition demo_tool_schemas :: "tool_schema list" where
  "demo_tool_schemas = [demo_tool_schema ''first'' ''integer'', demo_tool_schema ''second'' ''string'']"

lemma decision_schema_faithful_witness:
  "\<exists>j args. build_document_decision_schema demo_decision_schema demo_tool_schemas = Inr j \<and> refs_closed j \<and>
     schema_variant j 1 = Some (tool_variant (ucs ''second'') args) \<and>
     expand (schema_env (defs_of j)) 1 args =
       J_object [(''properties'', J_object [(''item'', J_object [(''$ref'', J_object [(''type'', J_str (ucs ''string''))])])])]"
proof -
  have "is_ok (build_document_decision_schema demo_decision_schema demo_tool_schemas)" by code_simp
  then obtain j where j: "build_document_decision_schema demo_decision_schema demo_tool_schemas = Inr j"
    by (auto simp: is_ok_iff)
  have i: "1 < length demo_tool_schemas" by code_simp
  have base: "refs_closed (J_object demo_decision_schema)" by code_simp
  have tools: "\<forall>t \<in> set demo_tool_schemas. refs_closed (J_object (ts_parameters t)) \<and>
      distinct (map fst (defs_of (J_object (ts_parameters t))))" by code_simp
  have name: "ts_name (demo_tool_schemas ! 1) = ucs ''second''" by code_simp
  have meaning: "expand (schema_env (defs_of (J_object (ts_parameters (demo_tool_schemas ! 1))))) 1
      (own_arguments (ts_parameters (demo_tool_schemas ! 1))) =
    J_object [(''properties'', J_object [(''item'', J_object [(''$ref'', J_object [(''type'', J_str (ucs ''string''))])])])]"
    by code_simp
  from decision_schema_faithful [OF j i base tools] j show ?thesis unfolding name by (metis meaning)
qed

section \<open>Redaction\<close>

text \<open>The record of a failed agent run whose exception and arguments carry a text.\<close>

definition demo_failure :: "string \<Rightarrow> log_record" where
  "demo_failure secret =
     \<lparr>lr_logger = ''celery.app.trace'', lr_level = ''ERROR'', lr_msg = ucs secret, lr_args = J_str (ucs secret),
      lr_data = Some (J_object [(''name'', J_str (ucs ''crewos.workers.agent_task.run_agent'')), (''id'', J_str (ucs ''r1'')),
        (''exc'', J_str (ucs secret)), (''args'', J_str (ucs secret))]),
      lr_exc_info = Some (Some ''ValueError'', ucs secret), lr_exc_text = Some (ucs secret), lr_stack_info = None\<rparr>"

lemma failure_records_redacted_witness:
  "demo_failure ''a'' \<noteq> demo_failure ''b'' \<and> filter_record (demo_failure ''a'') = filter_record (demo_failure ''b'')"
proof -
  have failure: "crew_failure (demo_failure ''a'')" "crew_failure (demo_failure ''b'')" by code_simp+
  have same: "lr_logger (demo_failure ''a'') = lr_logger (demo_failure ''b'')"
    "lr_level (demo_failure ''a'') = lr_level (demo_failure ''b'')"
    "error_type_of (demo_failure ''a'') = error_type_of (demo_failure ''b'')"
    "\<forall>k \<in> {''name'', ''id'', ''description''}. data_item (demo_failure ''a'') k = data_item (demo_failure ''b'') k"
    by code_simp+
  have "lr_msg (demo_failure ''a'') \<noteq> lr_msg (demo_failure ''b'')" by code_simp
  then show ?thesis using failure_records_redacted [OF failure same] by metis
qed

section \<open>Searches\<close>


text \<open>The baseline over rows of 200 bytes.\<close>

lemma keyword_baseline_run:
  "\<exists>report. run_demo ascii_words id (\<lambda>_. 200) 0 ''keyword_overlap'' 1 = Inr report \<and> rp_mrr report = 5 / 7"
  using keyword_baseline [of "\<lambda>_. 200" 0 id] by (auto simp: baseline_db_def)

end
