(* ===== verification/Spec2Isabelle.thy ===== *)
theory Spec2Isabelle
  imports Service_Examples
begin

text \<open>
  A verification development of CrewOS, the multi-tenant agent platform under \<open>src/crewos\<close>.

  The program. Clients reach an HTTP API with a tenant's key. Three kinds of work leave it for Celery
  queues, one queue per tenant: document jobs, agent runs and crew tasks. A document job prepares a source
  (parse, chunk) and appends an immutable version to a SQLite store; an agent run asks a language model for
  one decision at a time, executes the tools the decisions call under the tenant's grants and ends with an
  answer whose citations are checked against what the tools returned; a crew task makes two fixed model
  calls. The document store and the run table are the only state the processes share. Both hand out work
  under leases with tokens, so a worker can die, be delivered twice or outlive its lease.

  Method. A fallible function returns \<open>exn + 'a\<close>, with one constructor of \<open>exn\<close> per exception class the
  program distinguishes. Stateful code is a procedure: it threads a state and returns or raises, and a
  raise keeps the state reached so far. A SQL transaction is one step of type \<open>tx\<close>, rolled back when it
  raises. What other processes do between two steps of a procedure is a function of the state that may be
  any history of table operations; clocks, fresh identifiers and the outcomes of external calls are
  functions of a call counter. So a property of a procedure holds for every interleaving at transaction
  boundaries, every clock and every outcome of the outside. Text is a list of code points, bytes are 8-bit
  words, amounts of money and times are rationals, tables are lists of rows.

  Theories, in dependency order, with the sources they model.

  \<^item> \<open>Prelude\<close>: results, procedures, weakest preconditions, row lists, text, dynamically typed numbers.
  \<^item> \<open>Exceptions\<close>: the exception classes, what is retryable and the retry delay (\<open>utils/retry.py\<close>).
  \<^item> \<open>Tenancy\<close>, \<open>Policy\<close>: keys, grants, queues (\<open>core/tenant.py\<close>, \<open>core/config.py\<close>); the permission policy
    and its enforcing executor (\<open>services/permission_policy.py\<close>, \<open>services/policy_executor.py\<close>).
  \<^item> \<open>Chunking\<close>, \<open>Documents\<close>: \<open>chunking/*\<close>; the plain text parser with its UTF-8 decoding, the contracts and
    the preparation service (\<open>ingestion/contracts.py\<close>, \<open>adapters/plain_text.py\<close>, \<open>service.py\<close>).
  \<^item> \<open>Doc_Store\<close>, \<open>Doc_Jobs\<close>: the version table and the job table of \<open>ingestion/adapters/sqlite_*.py\<close>.
  \<^item> \<open>Ingestion\<close>: coordinator, facades, job processor and worker (\<open>ingestion/*.py\<close>, \<open>workers/document_task.py\<close>).
  \<^item> \<open>Decisions\<close>: decisions, answers, citations and the evidence review gate with its receipts
    (\<open>dtos/*\<close>, \<open>services/citation_validation.py\<close>, \<open>services/document_*_validation.py\<close>).
  \<^item> \<open>Run_Store\<close>, \<open>Run_Submission\<close>: the run table (\<open>infrastructure/run_store.py\<close>).
  \<^item> \<open>Execution_Control\<close>, \<open>Heartbeat\<close>, \<open>Model_Adapters\<close>: budgets, guards, checkpoints and the thread that
    renews the lease (\<open>services/execution_control.py\<close>); decision and review adapters (\<open>third_party/llm/*.py\<close>).
  \<^item> \<open>Decision_Schema\<close>: the response schema of document mode (\<open>document_decision_schema.py\<close>).
  \<^item> \<open>Tools\<close>, \<open>Retrieval\<close>, \<open>Task_Status\<close>: registry, dispatcher, the two tools, both search strategies, task
    ownership and status (\<open>services/tool_*.py\<close>, \<open>retrieval/*\<close>, \<open>infrastructure/task_*.py\<close>).
  \<^item> \<open>Agent_Loop\<close>, \<open>Job_Runner\<close>: the loop (\<open>use_cases/agent_loop.py\<close>), its assembly and one delivery of a
    job (\<open>core/agent_setup.py\<close>, \<open>core/agent_job_runner.py\<close>, \<open>workers/agent_task.py\<close>).
  \<^item> \<open>Agent_Safety\<close>, \<open>Agent_Properties\<close>, \<open>Job_Properties\<close>: what the loop and the worker guarantee.
  \<^item> \<open>Crew\<close>: entities, factories, use case and the retried task (\<open>domain/*\<close>, \<open>workers/crew_task.py\<close>).
  \<^item> \<open>Agent_Api\<close>, \<open>Document_Api\<close>, \<open>Crew_Api\<close>, \<open>Body_Limit\<close>: the routes of \<open>api/*.py\<close> and the body limit.
  \<^item> \<open>Search_Outcomes\<close>: searches fail at their limits only, as the contract of both strategies.
  \<^item> \<open>Evaluation\<close>, \<open>Retrieval_Demo\<close>: relevance metrics, reviewer calibration, and the retrieval baseline
    (\<open>retrieval_evaluation.py\<close>, \<open>evaluation/*\<close>, \<open>evaluate_demo.py\<close>), whose keyword report is computed to the
    figures the repository's tests expect.
  \<^item> \<open>Observability\<close>: context variables, redaction, metrics, access log and log formatter.
  \<^item> \<open>Audit_Trail\<close>: the policy executor and the ingestion, submission and retrieval facades with the log records
    they write; each is shown to be the operation of \<open>Policy\<close>, \<open>Ingestion\<close> or \<open>Tools\<close> with a trail of its outcome.
  \<^item> \<open>Deployment\<close>: every setting with its default and bounds (\<open>core/config.py\<close>), what the components are
    built with, the time limits of tasks against leases and retention, and the worker of a tenant
    (\<open>core/worker.py\<close>).
  \<^item> \<open>Agent_Demo\<close>: a run of the loop without a store, and the command that makes one (\<open>core/agent_demo.py\<close>).
  \<^item> \<open>Examples\<close>, \<open>Run_Examples\<close>, \<open>Agent_Examples\<close>, \<open>Api_Examples\<close>, \<open>Service_Examples\<close>: concrete states on
    which every property that has hypotheses is applied.

  Interfaces. Locales state what one component relies on in another: a chunking strategy (\<open>chunker\<close>), a
  version store with an abstract sequence of versions per document (\<open>version_store\<close>), an authorization
  gate (\<open>policy_gate\<close>), a search strategy (\<open>search_strategy\<close>, \<open>answering_strategy\<close>), the ports of the loop (\<open>decision_port\<close>,
  \<open>review_port\<close>, \<open>tool_port\<close>, together \<open>loop_ports\<close>) and a context variable (\<open>context_variable\<close>). Each is
  interpreted on the definitions that model the program's own provider.

  What is proved. For each table: an invariant of every history, at most one commit per job or terminal
  finish per run, always by the last claim, and terminal states that never change. For each worker: it
  refines the table's protocol under interference, ends by releasing its lease, records every failure in
  the state of its class, and what it answers is what the table holds. For documents: the stored chunks
  recover the text, and a document created over HTTP is read back as submitted. For the agent: a lease
  that its heartbeat keeps, bounded decisions, calls and recoveries, the token and cost budget, answers
  grounded in the tenant's own documents, answers that a later attempt accepts again, and reviews accepted
  exactly on evidence that covers the answer. For the APIs: deliveries name registered work of the tenant in the tenant's queue
  whatever call fails, responses are typed, and work of other tenants is invisible. Around them:
  authentication, submission under idempotency keys, retries that end, schemas that keep the tools'
  argument types, log records without task contents, and facades whose records tell their outcome and
  change nothing else. Accepted settings build every store whose path
  names a file, and give a document worker a lease that outlives its task.

  Bounds and fuel. No definition takes fuel. The loop recurses on the list of its remaining steps, as the
  source iterates over a range of \<open>max_decisions\<close>; reading bytes, covering claims, expanding schemas and
  redelivering a crew task are well-founded recursions with their termination proofs.

  Not modelled, and why.

  \<^item> Third-party code is a parameter: digests, the JSON texts and their sizes, the language model, prompt
    texts as byte counts, the word splitter, \<open>log1p\<close> (BM25 scores are exact rationals, the program's are
    floats, so scores that differ in the last bits may rank differently), the result backend.
  \<^item> Celery, Redis, FastAPI, pydantic, SQLite and their configuration (\<open>infrastructure/celery_app.py\<close>
    beyond its time limit, \<open>main.py\<close> beyond the order of its middlewares): delivery is a list of messages, a
    transaction is a step, validation is a predicate. The SQL text and file permissions are not represented.
  \<^item> The log records of routes, workers and the status reader; the loop keeps a log of its events because
    its bounds are stated on it, and where it measures them is not represented (\<open>measure_operation\<close> says
    that measuring never disturbs a run).
  \<^item> The expiry of ownership keys in Redis (\<open>Deployment\<close> bounds it against what it must outlive), client
    timeouts, extra fields of crew requests, the token fields of a run's public record, and a fault in the
    middle of a synchronous document job.
  \<^item> Rounding of \<open>Decimal\<close>: amounts are exact.
  \<^item> The syntax of command lines, scripts that only start or print (\<open>core/dev.py\<close>, \<open>docs/evaluation\<close>), the chat
    client's construction (\<open>ollama_adapter.py\<close>), abstract interfaces and re-exporting packages.
\<close>

end
